(* ===== verification/BPrelude.thy ===== *)
theory BPrelude
  imports Main "HOL-Library.Word" "HOL-Library.List_Lexorder" "HOL-Library.Char_ord"
begin

text \<open>
  Shared vocabulary of the development: the byte and integer types of the code, the parts of
  the C++ standard library the server uses (\<^verbatim>\<open>std::map\<close> as a sorted association list,
  \<^verbatim>\<open>vector::resize\<close>, \<^verbatim>\<open>string::find\<close>, \<^verbatim>\<open>operator<<(int)\<close>), the documented contract of
  \<^verbatim>\<open>boost::algorithm::split\<close>, and the generic lemmas and collections the components share.
\<close>

unbundle bit_operations_syntax

type_synonym byte = "8 word"
type_synonym bytes = "8 word list"
type_synonym int32 = "32 word"
type_synonym int64 = "64 word"

named_theorems std_map_simps \<open>laws of the std::map model\<close>

subsection \<open>Big-endian 32-bit integers (htonl, ntohl)\<close>

definition be32 :: "bytes \<Rightarrow> int32" where
  "be32 bs = fold (\<lambda>b a. push_bit 8 a OR ucast b) bs 0"

definition bytes_be32 :: "int32 \<Rightarrow> bytes" where
  "bytes_be32 w = [ucast (drop_bit 24 w), ucast (drop_bit 16 w), ucast (drop_bit 8 w), ucast w]"

lemma length_bytes_be32 [simp]: "length (bytes_be32 w) = 4"
  by (simp add: bytes_be32_def)

lemma bytes_be32_be32:
  assumes "length bs = 4"
  shows "bytes_be32 (be32 bs) = bs"
proof -
  from assms obtain a b c d where bs: "bs = [a, b, c, d]"
    by (auto simp: numeral_eq_Suc length_Suc_conv)
  have "\<not> bit x (8 + n)" "\<not> bit x (16 + n)" "\<not> bit x (24 + n)" for x :: "8 word" and n
    using bit_imp_le_length [of x] by fastforce+
  then show ?thesis
    unfolding bs by (auto simp: be32_def bytes_be32_def bit_simps intro!: bit_word_eqI)
qed

lemma be32_bytes_be32 [simp]: "be32 (bytes_be32 w) = w"
proof (rule bit_word_eqI)
  fix n :: nat
  assume "n < LENGTH(32)"
  then show "bit (be32 (bytes_be32 w)) n \<longleftrightarrow> bit w n"
    by (cases "n < 8"; cases "n < 16"; cases "n < 24")
      (auto simp: be32_def bytes_be32_def bit_simps)
qed

text \<open>Residues of integers at most one modulus away from the range, for wrap-around.\<close>

lemma mod_wrap:
  fixes x m :: int
  shows "- m \<le> x \<Longrightarrow> x < 0 \<Longrightarrow> x mod m = x + m"
    and "0 \<le> x \<Longrightarrow> x < m \<Longrightarrow> x mod m = x"
    and "m \<le> x \<Longrightarrow> x < 2 * m \<Longrightarrow> x mod m = x - m"
proof -
  show "x mod m = x + m" if "- m \<le> x" "x < 0"
    using that mod_pos_pos_trivial [of "x + m" m] by simp
  show "x mod m = x" if "0 \<le> x" "x < m"
    using that by simp
  show "x mod m = x - m" if "m \<le> x" "x < 2 * m"
    using that mod_pos_pos_trivial [of "x - m" m] by (simp add: mod_diff_right_eq [symmetric])
qed

lemma unat_scast64:
  "unat (scast (w :: 32 word) :: 64 word) = nat (sint w mod 2 ^ 64)"
proof -
  have "uint (scast w :: 64 word) = sint w mod 2 ^ 64"
    by (simp only: scast_eq uint_word_of_int) simp
  then show ?thesis by (simp flip: nat_uint_eq)
qed

lemma sint32_bounds: "- (2 ^ 31) \<le> sint (w :: 32 word)" "sint (w :: 32 word) < 2 ^ 31"
  using sint_range_size [of w] by (auto simp: word_size)

lemma sint_of_nat32: "n < 2 ^ 31 \<Longrightarrow> sint (of_nat n :: 32 word) = int n"
  by (simp add: signed_of_nat signed_take_bit_int_eq_self)

lemma sint_of_nat32_iff: "sint (of_nat n :: 32 word) = int n \<longleftrightarrow> n < 2 ^ 31"
  using sint_of_nat32 [of n] sint32_bounds(2) [of "of_nat n"] by auto

lemma unat_of_nat32: "n < 2 ^ 32 \<Longrightarrow> unat (of_nat n :: 32 word) = n"
  by (simp add: unsigned_of_nat take_bit_nat_eq_self)

subsection \<open>std::vector and std::string\<close>

definition resize :: "nat \<Rightarrow> 'a \<Rightarrow> 'a list \<Rightarrow> 'a list" where
  "resize n z xs = take n xs @ replicate (n - length xs) z"

lemma length_resize [simp]: "length (resize n z xs) = n"
  by (simp add: resize_def)

fun starts_with :: "'a list \<Rightarrow> 'a list \<Rightarrow> bool" where
  "starts_with [] _ = True"
| "starts_with (_ # _) [] = False"
| "starts_with (p # ps) (x # xs) = (p = x \<and> starts_with ps xs)"

text \<open>\<^verbatim>\<open>s.find(p) != npos\<close>.\<close>

fun contains :: "'a list \<Rightarrow> 'a list \<Rightarrow> bool" where
  "contains p [] = (p = [])"
| "contains p (x # xs) = (starts_with p (x # xs) \<or> contains p xs)"

lemma starts_with_append [simp]: "starts_with p (p @ s)"
  by (induction p) auto

lemma starts_with_iff: "starts_with p s \<longleftrightarrow> (\<exists>t. s = p @ t)"
  by (induction p s rule: starts_with.induct) auto

lemma contains_iff: "contains p s \<longleftrightarrow> (\<exists>u t. s = u @ p @ t)"
proof (induction s)
  case Nil
  then show ?case by simp
next
  case (Cons x xs)
  show ?case
    unfolding contains.simps Cons.IH starts_with_iff
    by (metis (no_types, lifting) append_Cons append_Nil neq_Nil_conv list.inject)
qed

lemma contains_prefix [simp]: "contains p (p @ s)"
  by (metis contains_iff append_Nil)

subsection \<open>Decimal output of integers\<close>

definition digit :: "nat \<Rightarrow> char" where
  "digit d = char_of (48 + d)"

fun show_nat :: "nat \<Rightarrow> string" where
  "show_nat n = (if n < 10 then [digit n] else show_nat (n div 10) @ [digit (n mod 10)])"

declare show_nat.simps [simp del]

definition show_int :: "int \<Rightarrow> string" where
  "show_int z = (if z < 0 then CHR ''-'' # show_nat (nat (- z)) else show_nat (nat z))"

definition read_nat :: "string \<Rightarrow> nat" where
  "read_nat s = foldl (\<lambda>a c. 10 * a + (of_char c - 48)) 0 s"

lemma of_char_digit: "d < 10 \<Longrightarrow> of_char (digit d) = 48 + d"
  by (simp add: digit_def)

lemma read_show_nat [simp]: "read_nat (show_nat n) = n"
proof (induction n rule: show_nat.induct)
  case (1 n)
  show ?case
  proof (cases "n < 10")
    case True
    then show ?thesis
      by (simp add: show_nat.simps [of n] read_nat_def of_char_digit)
  next
    case False
    with "1.IH" show ?thesis
      by (simp add: show_nat.simps [of n] read_nat_def of_char_digit)
  qed
qed

lemma show_nat_inject [simp]: "show_nat m = show_nat n \<longleftrightarrow> m = n"
  by (metis read_show_nat)

lemma show_nat_digits: "c \<in> set (show_nat n) \<Longrightarrow> 48 \<le> (of_char c :: nat) \<and> (of_char c :: nat) < 58"
proof (induction n rule: show_nat.induct)
  case (1 n)
  then show ?case
    by (cases "n < 10") (auto simp: show_nat.simps [of n] of_char_digit)
qed

lemma colon_notin_show_nat [simp]: "CHR '':'' \<notin> set (show_nat n)"
  using show_nat_digits [of "CHR '':''" n] by auto

lemma show_nat_not_Nil [simp]: "show_nat n \<noteq> []"
  by (simp add: show_nat.simps [of n])

lemma show_int_of_nat [simp]: "show_int (int n) = show_nat n"
  by (simp add: show_int_def)

subsection \<open>std::map as a sorted association list\<close>

type_synonym ('k, 'v) std_map = "('k \<times> 'v) list"

text \<open>\<^verbatim>\<open>m.find(k)\<close> is \<^term>\<open>map_of m k\<close>; \<^verbatim>\<open>m[k] = v\<close> overwrites, \<^verbatim>\<open>m.insert\<close> does not.\<close>

fun map_put :: "'k::linorder \<Rightarrow> 'v \<Rightarrow> ('k, 'v) std_map \<Rightarrow> ('k, 'v) std_map" where
  "map_put k v [] = [(k, v)]"
| "map_put k v ((k', v') # m) =
     (if k < k' then (k, v) # (k', v') # m
      else if k = k' then (k, v) # m
      else (k', v') # map_put k v m)"

definition map_insert :: "'k::linorder \<Rightarrow> 'v \<Rightarrow> ('k, 'v) std_map \<Rightarrow> ('k, 'v) std_map" where
  "map_insert k v m = (case map_of m k of None \<Rightarrow> map_put k v m | Some _ \<Rightarrow> m)"

definition map_erase :: "'k \<Rightarrow> ('k, 'v) std_map \<Rightarrow> ('k, 'v) std_map" where
  "map_erase k m = filter (\<lambda>(k', v). k' \<noteq> k) m"

text \<open>\<^verbatim>\<open>m[k]\<close> as an expression: a missing key is first bound to the default value.\<close>

definition map_index :: "'k::linorder \<Rightarrow> 'v \<Rightarrow> ('k, 'v) std_map \<Rightarrow> 'v \<times> ('k, 'v) std_map" where
  "map_index k d m = (case map_of m k of Some v \<Rightarrow> (v, m) | None \<Rightarrow> (d, map_put k d m))"

definition map_ok :: "('k::linorder, 'v) std_map \<Rightarrow> bool" where
  "map_ok m \<longleftrightarrow> sorted_wrt (<) (map fst m)"

lemma map_of_put [std_map_simps, simp]: "map_of (map_put k v m) = (map_of m)(k \<mapsto> v)"
  by (induction m) (auto simp: fun_eq_iff)

lemma map_of_insert [std_map_simps]:
  "map_of (map_insert k v m) = (if k \<in> dom (map_of m) then map_of m else (map_of m)(k \<mapsto> v))"
  by (auto simp: map_insert_def dom_def split: option.splits)

lemma map_of_erase [std_map_simps, simp]: "map_of (map_erase k m) = (map_of m)(k := None)"
  by (induction m) (auto simp: map_erase_def fun_eq_iff)

lemma map_of_index [std_map_simps]:
  "map_of (snd (map_index k d m)) = (if map_of m k = None then (map_of m)(k \<mapsto> d) else map_of m)"
  "fst (map_index k d m) = (case map_of m k of Some v \<Rightarrow> v | None \<Rightarrow> d)"
  by (auto simp: map_index_def split: option.splits)

lemma fst_set_put: "fst ` set (map_put k v m) = insert k (fst ` set m)"
  by (simp flip: dom_map_of_conv_image_fst)

lemma map_ok_Nil [simp]: "map_ok []"
  by (simp add: map_ok_def)

lemma map_ok_put [simp]: "map_ok m \<Longrightarrow> map_ok (map_put k v m)"
proof (induction m)
  case Nil
  then show ?case by (simp add: map_ok_def)
next
  case (Cons a m)
  obtain k' v' where a: "a = (k', v')" by (cases a)
  have "x \<in> fst ` set (map_put k v m) \<Longrightarrow> x = k \<or> x \<in> fst ` set m" for x
    using fst_set_put [of k v m] by auto
  with Cons a show ?case
    by (fastforce simp: map_ok_def dest: less_trans)
qed

lemma map_ok_insert [simp]: "map_ok m \<Longrightarrow> map_ok (map_insert k v m)"
  by (simp add: map_insert_def split: option.split)

lemma map_ok_erase [simp]: "map_ok m \<Longrightarrow> map_ok (map_erase k m)"
  by (induction m) (auto simp: map_ok_def map_erase_def)

lemma map_ok_distinct: "map_ok m \<Longrightarrow> distinct (map fst m)"
  using strict_sorted_iff by (auto simp: map_ok_def)

lemma map_erase_absent: "map_of m k = None \<Longrightarrow> map_erase k m = m"
  by (induction m) (auto simp: map_erase_def split: if_splits)

subsection \<open>The contract of boost::algorithm::split with is_any_of\<close>

fun join :: "char \<Rightarrow> string list \<Rightarrow> string" where
  "join d [] = []"
| "join d [s] = s"
| "join d (s # ss) = s @ d # join d ss"

text \<open>
  The splitter itself is Boost's and is an argument of the definitions that call it.
  Documented: with token compression off, every delimiter separates two tokens, so the tokens
  are delimiter free, there is at least one, and rejoining them gives the input back.
\<close>

type_synonym splitter = "char \<Rightarrow> string \<Rightarrow> string list"

definition split_ok :: "splitter \<Rightarrow> bool" where
  "split_ok split \<longleftrightarrow>
     (\<forall>d s. split d s \<noteq> [] \<and> join d (split d s) = s \<and> (\<forall>t \<in> set (split d s). d \<notin> set t))"

fun split_ref :: "char \<Rightarrow> string \<Rightarrow> string list" where
  "split_ref d [] = [[]]"
| "split_ref d (c # cs) =
     (if c = d then [] # split_ref d cs
      else (case split_ref d cs of [] \<Rightarrow> [[c]] | t # ts \<Rightarrow> (c # t) # ts))"

lemma split_ref_not_Nil [simp]: "split_ref d s \<noteq> []"
  by (induction s) (auto split: list.splits)

lemma split_ok_ref: "split_ok split_ref"
proof -
  have "join d (split_ref d s) = s \<and> (\<forall>t \<in> set (split_ref d s). d \<notin> set t)" for d s
  proof (induction s)
    case Nil
    then show ?case by simp
  next
    case (Cons c cs)
    obtain t ts where "split_ref d cs = t # ts"
      by (cases "split_ref d cs") auto
    with Cons show ?case by (cases ts) auto
  qed
  then show ?thesis by (simp add: split_ok_def)
qed

text \<open>The contract determines the tokens: a string built by joining delimiter-free tokens
  splits into exactly those.\<close>

lemma join_append_delim:
  "ts \<noteq> [] \<Longrightarrow> join d (s # ts) = s @ d # join d ts"
  by (cases ts) auto

lemma takeWhile_join:
  "d \<notin> set t \<Longrightarrow> takeWhile (\<lambda>c. c \<noteq> d) (join d (t # ts)) = t"
  by (cases ts) (auto simp: takeWhile_append)

lemma join_inject:
  assumes "ss \<noteq> []" "ts \<noteq> []" "\<forall>t \<in> set ss. d \<notin> set t" "\<forall>t \<in> set ts. d \<notin> set t"
    and "join d ss = join d ts"
  shows "ss = ts"
  using assms
proof (induction ss arbitrary: ts)
  case Nil
  then show ?case by simp
next
  case (Cons s ss)
  obtain t us where ts: "ts = t # us" using Cons.prems(2) by (cases ts) auto
  have st: "s = t"
    using Cons.prems takeWhile_join [of d s ss] takeWhile_join [of d t us] by (simp add: ts)
  have "length (join d (s # ss)) = length s \<longleftrightarrow> ss = []" for s ss
    by (cases ss) auto
  with Cons.prems(5) have nil: "ss = [] \<longleftrightarrow> us = []"
    using st ts by metis
  show ?case
  proof (cases "ss = []")
    case True
    with nil st ts show ?thesis by simp
  next
    case False
    with nil Cons.prems st ts have "join d ss = join d us"
      by (simp add: join_append_delim)
    with Cons.IH [of us] False nil Cons.prems st ts show ?thesis by auto
  qed
qed

lemma split_join:
  assumes "split_ok split" "ts \<noteq> []" "\<forall>t \<in> set ts. d \<notin> set t"
  shows "split d (join d ts) = ts"
  using assms unfolding split_ok_def by (metis join_inject)

subsection \<open>Strings of bytes\<close>

text \<open>A \<^verbatim>\<open>std::string\<close> is a string where it is text and a list of bytes where it is a payload.\<close>

definition str_of :: "bytes \<Rightarrow> string" where
  "str_of = map (\<lambda>b. char_of (unat b))"

definition bytes_of :: "string \<Rightarrow> bytes" where
  "bytes_of = map (\<lambda>c. of_nat (of_char c))"

lemma bytes_of_str_of [simp]: "bytes_of (str_of bs) = bs"
proof -
  have "unat b mod 256 = unat b" for b :: byte using unsigned_less [where ?'a = nat, of b] by simp
  then show ?thesis by (simp add: bytes_of_def str_of_def comp_def)
qed

lemma str_of_bytes_of [simp]: "str_of (bytes_of s) = s"
proof -
  have "unat (of_nat (of_char c) :: byte) = of_char c" for c :: char
    by (cases c) (simp add: unat_of_nat)
  then show ?thesis by (simp add: bytes_of_def str_of_def comp_def)
qed

lemma bytes_of_Nil [simp]: "bytes_of [] = []" "bytes_of s = [] \<longleftrightarrow> s = []" "length (bytes_of s) = length s"
  by (simp_all add: bytes_of_def)

subsection \<open>Functions that may throw\<close>

text \<open>The result of a call on some state: a value, or an exception that propagates to the caller;
  the state as it was left comes back in both cases.\<close>

datatype 'a outcome = Ret 'a | Throws

type_synonym ('s, 'a) action = "'s \<Rightarrow> 'a outcome \<times> 's"

definition act_ret :: "'a \<Rightarrow> ('s, 'a) action" where
  "act_ret a s = (Ret a, s)"

definition act_throw :: "('s, 'a) action" where
  "act_throw s = (Throws, s)"

definition act_bind :: "('s, 'a) action \<Rightarrow> ('a \<Rightarrow> ('s, 'b) action) \<Rightarrow> ('s, 'b) action" where
  "act_bind f g s = (case f s of (Ret a, s') \<Rightarrow> g a s' | (Throws, s') \<Rightarrow> (Throws, s'))"

definition act_do :: "('s \<Rightarrow> 's) \<Rightarrow> ('s, 'a) action \<Rightarrow> ('s, 'a) action" where
  "act_do f g s = g (f s)"

definition act_opt :: "('s \<Rightarrow> 'a option) \<Rightarrow> ('s, 'a) action" where
  "act_opt f s = (case f s of Some a \<Rightarrow> (Ret a, s) | None \<Rightarrow> (Throws, s))"

lemmas act_defs = act_ret_def act_throw_def act_bind_def act_do_def act_opt_def

lemma act_bind_Ret:
  "act_bind f g s = (Ret b, s'') \<longleftrightarrow> (\<exists>a s'. f s = (Ret a, s') \<and> g a s' = (Ret b, s''))"
  by (auto simp: act_bind_def split: prod.splits outcome.splits)

lemma act_opt_Ret: "act_opt f s = (Ret a, s') \<longleftrightarrow> f s = Some a \<and> s' = s"
  by (auto simp: act_opt_def split: option.splits)

lemma snd_bind_ret [simp]: "snd (act_bind f (\<lambda>a. act_ret (g a)) s) = snd (f s)"
  by (simp add: act_bind_def act_ret_def split: prod.split outcome.split)

lemma act_bind_do: "act_bind (act_do f g) h s = act_bind g h (f s)"
  by (simp add: act_bind_def act_do_def)

lemma snd_bind_do_ret:
  "snd (act_bind f (\<lambda>a. act_do (h a) (act_ret c)) s) =
     (case fst (f s) of Ret a \<Rightarrow> h a (snd (f s)) | Throws \<Rightarrow> snd (f s))"
  by (simp add: act_bind_def act_ret_def act_do_def split: prod.split outcome.split)

text \<open>A state predicate an action keeps, whether it returns or throws.\<close>

definition keeps :: "('s \<Rightarrow> bool) \<Rightarrow> ('s, 'a) action \<Rightarrow> bool" where
  "keeps P f \<longleftrightarrow> (\<forall>s. P s \<longrightarrow> P (snd (f s)))"

lemma keepsD: "keeps P f \<Longrightarrow> P s \<Longrightarrow> f s = (r, s') \<Longrightarrow> P s'"
  unfolding keeps_def by (metis snd_conv)

lemma keeps_ret [intro]: "keeps P (act_ret a)" and keeps_throw [intro]: "keeps P act_throw"
  and keeps_opt [intro]: "keeps P (act_opt f)"
  by (auto simp: keeps_def act_defs split: option.split)

lemma keeps_bind [intro]: "keeps P f \<Longrightarrow> (\<And>a. keeps P (g a)) \<Longrightarrow> keeps P (act_bind f g)"
  by (fastforce simp: keeps_def act_bind_def split: prod.split outcome.split)

lemma keeps_do [intro]: "(\<And>s. P s \<Longrightarrow> P (f s)) \<Longrightarrow> keeps P g \<Longrightarrow> keeps P (act_do f g)"
  by (simp add: keeps_def act_do_def)

lemma keeps_if [intro]: "keeps P f \<Longrightarrow> keeps P g \<Longrightarrow> keeps P (if b then f else g)"
  by simp

end
