(* ===== verification/MessageFormat.thy ===== *)
theory MessageFormat
  imports BPrelude
begin

text \<open>
  The wire framing: \<^verbatim>\<open>struct head\<close> (include/msg_head.h) and \<^verbatim>\<open>class message_format\<close>
  (include/message_format.h, src/message_format.cpp). A frame is a 12-byte head (magic, len,
  cmd, each a big-endian int32, len counting the head) followed by the body. The four-byte load
  followed by \<^verbatim>\<open>ntohl\<close> is the big-endian read \<^const>\<open>be32\<close> on any host. Logging is left out.
\<close>

subsection \<open>Data\<close>

record head =
  magic :: int32
  len :: int32
  cmd :: int32

record message_format =
  mf_head :: bytes
  mf_body :: bytes
  mf_body_length :: nat
  mf_magic :: int32
  mf_len :: int32
  mf_cmd :: int32
  mf_remote_id :: string
  mf_server_id :: string

definition message_head_length :: nat where
  "message_head_length = 12"

definition max_body :: nat where
  "max_body = 1024 * 1024"

text \<open>
  The constructor. The three int32 fields are left uninitialised by the code, so their initial
  values are an argument.
\<close>

definition message_format_new :: "head \<Rightarrow> message_format" where
  "message_format_new g =
     \<lparr>mf_head = replicate 12 0, mf_body = [], mf_body_length = 0,
      mf_magic = magic g, mf_len = len g, mf_cmd = cmd g, mf_remote_id = [], mf_server_id = []\<rparr>"

subsection \<open>Operations\<close>

text \<open>\<^verbatim>\<open>length()\<close>, \<^verbatim>\<open>meet_head()\<close>, \<^verbatim>\<open>flush()\<close>.\<close>

definition mf_length :: "message_format \<Rightarrow> nat" where
  "mf_length m = message_head_length + mf_body_length m"

definition meet_head :: "message_format \<Rightarrow> head" where
  "meet_head m = \<lparr>magic = mf_magic m, len = mf_len m, cmd = mf_cmd m\<rparr>"

definition flush :: "message_format \<Rightarrow> message_format" where
  "flush m = m\<lparr>mf_body_length := 0\<rparr>"

text \<open>
  \<^verbatim>\<open>body_length_ = h.len - message_head_length\<close>: the subtraction is 32 bit and signed, the
  assignment to the \<^verbatim>\<open>size_t\<close> member sign-extends to 64 bits. The member is a \<^verbatim>\<open>size_t\<close>, so
  the code's test \<^verbatim>\<open>body_length_ < 0\<close> is the test \<open>x < 0\<close> on \<^typ>\<open>nat\<close>.
\<close>

definition body_length_of :: "int32 \<Rightarrow> nat" where
  "body_length_of l = unat (scast (l - of_nat message_head_length) :: 64 word)"

definition decode_header :: "message_format \<Rightarrow> int \<times> head \<times> message_format" where
  "decode_header m =
     (let pc = mf_head m;
          h = \<lparr>magic = be32 (take 4 pc), len = be32 (take 4 (drop 4 pc)),
               cmd = be32 (take 4 (drop 8 pc))\<rparr>;
          m1 = m\<lparr>mf_magic := magic h, mf_len := len h, mf_cmd := cmd h,
                 mf_body_length := body_length_of (len h)\<rparr>
      in if mf_body_length m1 < 0 \<or> max_body < mf_body_length m1 then (-1, h, m1)
         else (0, h, m1\<lparr>mf_body := resize (message_head_length + mf_body_length m1) 0 (mf_body m1)\<rparr>))"

text \<open>The length field sent is \<^verbatim>\<open>sizeof(rh) + body_length_\<close>, truncated to 32 bits by \<^verbatim>\<open>htonl\<close>;
  the caller's \<^verbatim>\<open>h.len\<close> is not used.\<close>

definition encode_header :: "head \<Rightarrow> bytes \<Rightarrow> message_format \<Rightarrow> message_format" where
  "encode_header h body m =
     m\<lparr>mf_body_length := length body,
       mf_head := bytes_be32 (magic h) @ bytes_be32 (of_nat (message_head_length + length body))
                  @ bytes_be32 (cmd h),
       mf_body := body\<rparr>"

definition body_combine :: "message_format \<Rightarrow> message_format" where
  "body_combine m = m\<lparr>mf_body := mf_head m @ mf_body m\<rparr>"

text \<open>What \<^verbatim>\<open>async_write\<close> is given: \<^verbatim>\<open>length()\<close> bytes starting at \<^verbatim>\<open>body().data()\<close>. The model
  marks a read past the end of the vector with \<^const>\<open>None\<close>.\<close>

definition wire :: "message_format \<Rightarrow> bytes option" where
  "wire m = (if mf_length m \<le> length (mf_body m) then Some (take (mf_length m) (mf_body m)) else None)"

text \<open>The pair of calls every sender makes.\<close>

definition make_frame :: "head \<Rightarrow> bytes \<Rightarrow> message_format \<Rightarrow> message_format" where
  "make_frame h body m = body_combine (encode_header h body m)"

definition frame_bytes :: "head \<Rightarrow> bytes \<Rightarrow> bytes" where
  "frame_bytes h body = bytes_be32 (magic h) @ bytes_be32 (of_nat (12 + length body))
     @ bytes_be32 (cmd h) @ body"

lemmas mf_defs = mf_length_def meet_head_def flush_def encode_header_def body_combine_def
  make_frame_def message_head_length_def max_body_def

subsection \<open>The length field\<close>

lemma sint_minus12:
  "sint (l - 12 :: 32 word) =
     (if sint l - 12 < - (2 ^ 31) then sint l - 12 + 2 ^ 32 else sint l - 12)"
proof -
  define x where "x = sint l - 12 + 2 ^ 31"
  have "sint (l - 12 :: 32 word) = signed_take_bit 31 (sint l - 12)"
    using sint_word_ariths(2) [of l 12] by simp
  also have "\<dots> = x mod 2 ^ 32 - 2 ^ 31"
    by (simp add: signed_take_bit_eq_take_bit_shift take_bit_eq_mod x_def)
  also have "x mod 2 ^ 32 = (if x < 0 then x + 2 ^ 32 else x)"
    using sint32_bounds [of l] mod_wrap(1) [of "2 ^ 32" x] mod_wrap(2) [of x "2 ^ 32"]
    by (auto simp: x_def)
  finally show ?thesis by (simp add: x_def)
qed

lemma body_length_of_eq:
  "body_length_of l = nat (if sint (l - 12) < 0 then sint (l - 12) + 2 ^ 64 else sint (l - 12))"
  using sint32_bounds [of "l - 12"] mod_wrap(1) [of "2 ^ 64" "sint (l - 12)"]
    mod_wrap(2) [of "sint (l - 12)" "2 ^ 64"]
  by (auto simp: body_length_of_def unat_scast64 message_head_length_def)

lemma body_length_of_accept:
  "body_length_of l \<le> max_body \<longleftrightarrow> 12 \<le> sint l \<and> sint l \<le> 12 + int max_body"
  using sint_minus12 [of l] sint32_bounds [of l] sint32_bounds [of "l - 12"]
  by (auto simp: body_length_of_eq max_body_def split: if_splits)

lemma body_length_of_frame:
  "n \<le> max_body \<Longrightarrow> body_length_of (of_nat (12 + n)) = n"
  using sint_of_nat32 [of n]
  by (simp add: body_length_of_eq max_body_def)

lemma body_length_of_oversize:
  assumes "max_body < n" "n < 2 ^ 32 - 12"
  shows "max_body < body_length_of (of_nat (12 + n))"
proof -
  have "sint (of_nat (12 + n) :: 32 word) \<le> 12 + int max_body \<longrightarrow> sint (of_nat (12 + n) :: 32 word) < 12"
  proof (cases "12 + n < 2 ^ 31")
    case True
    then show ?thesis using sint_of_nat32 [of "12 + n"] assms(1) by (simp add: max_body_def)
  next
    case False
    define u where "u = int (12 + n)"
    have u: "2 ^ 31 \<le> u" "u < 2 ^ 32" using False assms(2) by (auto simp: u_def)
    have "sint (of_nat (12 + n) :: 32 word) = signed_take_bit 31 u"
      by (simp only: signed_of_nat u_def) simp
    also have "\<dots> = (u + 2 ^ 31) mod 2 ^ 32 - 2 ^ 31"
      by (simp add: signed_take_bit_eq_take_bit_shift take_bit_eq_mod)
    also have "(u + 2 ^ 31) mod 2 ^ 32 = u + 2 ^ 31 - 2 ^ 32"
      using u mod_wrap(3) [of "2 ^ 32" "u + 2 ^ 31"] by simp
    finally show ?thesis using u by simp
  qed
  then show ?thesis
    using body_length_of_accept [of "of_nat (12 + n)"] by linarith
qed

subsection \<open>Frames\<close>

lemma length_frame_bytes [simp]: "length (frame_bytes h body) = 12 + length body"
  by (simp add: frame_bytes_def)

lemma drop12_frame_bytes [simp]: "drop 12 (frame_bytes h body) = body"
  by (simp add: frame_bytes_def)

lemma frame_bytes_fields [simp]:
  "take 4 (frame_bytes h body) = bytes_be32 (magic h)"
  "take 4 (drop 4 (take 12 (frame_bytes h body))) = bytes_be32 (of_nat (12 + length body))"
  "take 4 (drop 8 (take 12 (frame_bytes h body))) = bytes_be32 (cmd h)"
  by (simp_all add: frame_bytes_def take_drop)

lemma make_frame_fields [simp]:
  "mf_body (make_frame h body m) = frame_bytes h body"
  "mf_length (make_frame h body m) = 12 + length body"
  "mf_remote_id (make_frame h body m) = mf_remote_id m"
  by (simp_all add: mf_defs frame_bytes_def)

lemma wire_make_frame [simp]: "wire (make_frame h body m) = Some (frame_bytes h body)"
  by (simp add: wire_def)

lemma decode_header_frame:
  assumes "mf_head m = take 12 (frame_bytes h body)" "length body \<le> max_body"
  shows "decode_header m =
     (0, \<lparr>magic = magic h, len = of_nat (12 + length body), cmd = cmd h\<rparr>,
      m\<lparr>mf_magic := magic h, mf_len := of_nat (12 + length body), mf_cmd := cmd h,
        mf_body_length := length body, mf_body := resize (12 + length body) 0 (mf_body m)\<rparr>)"
  using assms body_length_of_frame [OF assms(2)]
  by (simp add: decode_header_def Let_def message_head_length_def)

lemma decode_header_status_code:
  "fst (decode_header m) =
     (let l = sint (be32 (take 4 (drop 4 (mf_head m))))
      in if 12 \<le> l \<and> l \<le> 12 + 1024 * 1024 then 0 else -1)"
  using body_length_of_accept [of "be32 (take 4 (drop 4 (mf_head m)))"]
  by (auto simp: decode_header_def Let_def max_body_def not_less)

subsection \<open>Properties\<close>

text \<open>C22: \<^verbatim>\<open>decode_header\<close> returns 0 exactly when the length field, read as a signed big-endian
  int32, lies between 12 and 12 + 1 MiB, and -1 otherwise; the wrapped subtraction and the
  conversion to \<^verbatim>\<open>size_t\<close> let no other length through.\<close>

theorem decode_header_status:
  "fst (decode_header m) =
     (let l = sint (be32 (take 4 (drop 4 (mf_head m))))
      in if 12 \<le> l \<and> l \<le> 12 + 1024 * 1024 then 0 else -1)"
  by (rule decode_header_status_code)

text \<open>C21: Round trip. A reader that holds the first 12 bytes of what \<^verbatim>\<open>encode_header\<close> and
  \<^verbatim>\<open>body_combine\<close> put on the wire decodes status 0, the sender's magic and cmd and the exact
  body length, and has a buffer large enough for the body, for every body up to 1 MiB.\<close>

theorem frame_roundtrip:
  assumes "wire (make_frame h body m) = Some bs" "length body \<le> 1024 * 1024"
    and "mf_head r = take 12 bs"
  shows "case decode_header r of (st, h', r') \<Rightarrow>
     st = 0 \<and> magic h' = magic h \<and> cmd h' = cmd h \<and> meet_head r' = h' \<and>
     mf_body_length r' = length body \<and> mf_body_length r' \<le> length (mf_body r') \<and> drop 12 bs = body"
  using assms decode_header_frame [of r h body]
  by (auto simp: max_body_def meet_head_def)

theorem frame_roundtrip_witness:
  "case decode_header
     ((message_format_new \<lparr>magic = 0, len = 0, cmd = 0\<rparr>)
       \<lparr>mf_head := take 12 (frame_bytes \<lparr>magic = 7, len = 99, cmd = 200\<rparr> [1, 2, 3])\<rparr>)
   of (st, h', r') \<Rightarrow> st = 0 \<and> magic h' = 7 \<and> cmd h' = 200 \<and> mf_body_length r' = 3"
  using frame_roundtrip [OF wire_make_frame, of "[1, 2, 3]"
      "(message_format_new \<lparr>magic = 0, len = 0, cmd = 0\<rparr>)
       \<lparr>mf_head := take 12 (frame_bytes \<lparr>magic = 7, len = 99, cmd = 200\<rparr> [1, 2, 3])\<rparr>"
      "\<lparr>magic = 7, len = 99, cmd = 200\<rparr>"]
  by (auto split: prod.splits)

text \<open>A frame whose body is over 1 MiB is still built and sent by \<^verbatim>\<open>encode_header\<close>, and every
  receiver running this code rejects its head.\<close>

lemma oversize_frame_rejected:
  assumes "1024 * 1024 < length body" "length body < 2 ^ 32 - 12"
    and "mf_head r = take 12 (frame_bytes h body)"
  shows "wire (make_frame h body m) = Some (frame_bytes h body) \<and> fst (decode_header r) = -1"
  using assms body_length_of_oversize [of "length body"]
  by (auto simp: decode_header_def Let_def max_body_def)

lemma oversize_frame_rejected_witness:
  "wire (make_frame \<lparr>magic = 0, len = 0, cmd = 201\<rparr> (replicate (Suc (1024 * 1024)) 0)
      (message_format_new \<lparr>magic = 0, len = 0, cmd = 0\<rparr>)) \<noteq> None \<and>
   fst (decode_header ((message_format_new \<lparr>magic = 0, len = 0, cmd = 0\<rparr>)
     \<lparr>mf_head := take 12 (frame_bytes \<lparr>magic = 0, len = 0, cmd = 201\<rparr>
        (replicate (Suc (1024 * 1024)) 0))\<rparr>)) = -1"
proof -
  define body :: bytes where "body = replicate (Suc (1024 * 1024)) 0"
  have len: "length body = Suc (1024 * 1024)" by (simp only: body_def length_replicate)
  show ?thesis
    unfolding body_def [symmetric]
    using oversize_frame_rejected [of body
      "(message_format_new \<lparr>magic = 0, len = 0, cmd = 0\<rparr>)
       \<lparr>mf_head := take 12 (frame_bytes \<lparr>magic = 0, len = 0, cmd = 201\<rparr> body)\<rparr>"
      "\<lparr>magic = 0, len = 0, cmd = 201\<rparr>" "message_format_new \<lparr>magic = 0, len = 0, cmd = 0\<rparr>"]
    by (simp add: len)
qed

text \<open>What is handed to \<^verbatim>\<open>async_write\<close>: after \<^verbatim>\<open>encode_header\<close> and \<^verbatim>\<open>body_combine\<close> the
  \<^verbatim>\<open>length()\<close> bytes at \<^verbatim>\<open>body().data()\<close> are exactly head and body, and the vector holds
  nothing else; without \<^verbatim>\<open>body_combine\<close> the write would read 12 bytes past the vector.\<close>

lemma combined_frame_exact:
  "wire (body_combine (encode_header h body m)) = Some (mf_body (body_combine (encode_header h body m))) \<and>
   mf_body (body_combine (encode_header h body m)) =
     bytes_be32 (magic h) @ bytes_be32 (of_nat (12 + length body)) @ bytes_be32 (cmd h) @ body \<and>
   wire (encode_header h body m) = None"
  by (simp add: wire_def mf_defs)

end
