(* ===== verification/PeerHandleMap.thy ===== *)
theory PeerHandleMap
  imports BPrelude
begin

text \<open>
  The two session registries (include/peer_handle_map.h, src/peer_handle_map.cpp): the map of
  accepted sessions \<^verbatim>\<open>peer_handle_map\<close> and the map of outgoing sessions
  \<^verbatim>\<open>peer_handle_map_for_client\<close>, which also keeps the keys of each server in
  \<^verbatim>\<open>client_list_\<close>. A \<^verbatim>\<open>shared_ptr\<close> to a session is a \<^typ>\<open>nat option\<close> (the session's number,
  \<^const>\<open>None\<close> for a null pointer). Every operation runs under \<^verbatim>\<open>mutex_\<close>, so it is one atomic
  function of the map. \<^verbatim>\<open>rand()\<close> is an argument. The locale \<open>session_registry\<close> states what the
  rest of the server relies on; both maps interpret it.
\<close>

type_synonym session_ptr = "nat option"
type_synonym peer_map = "(string, session_ptr) std_map"

subsection \<open>peer_handle_map\<close>

definition find_matched :: "string \<Rightarrow> peer_map \<Rightarrow> int" where
  "find_matched key m = int (length (filter (\<lambda>(k, _). contains key k) m))"

definition random_num :: "nat \<Rightarrow> int \<Rightarrow> int" where
  "random_num r count = (if count = 0 then 0 else int r mod \<bar>count\<bar>)"

definition peer_set :: "string \<Rightarrow> session_ptr \<Rightarrow> peer_map \<Rightarrow> string \<times> peer_map" where
  "peer_set key s m =
     (let m1 = (if map_of m key \<noteq> None then map_erase key m else m) in (key, map_put key s m1))"

definition peer_get :: "string \<Rightarrow> peer_map \<Rightarrow> session_ptr" where
  "peer_get key m = (case map_of m key of Some s \<Rightarrow> s | None \<Rightarrow> None)"

definition peer_erase :: "string \<Rightarrow> peer_map \<Rightarrow> peer_map" where
  "peer_erase key m = map_erase key m"

subsection \<open>peer_handle_map_for_client\<close>

record client_map =
  cm_map :: peer_map
  client_list :: "(string, string list) std_map"

definition client_map_new :: client_map where
  "client_map_new = \<lparr>cm_map = [], client_list = []\<rparr>"

text \<open>\<^verbatim>\<open>ss << id << ":" << i\<close>.\<close>

definition slot_id :: "string \<Rightarrow> int \<Rightarrow> string" where
  "slot_id key i = key @ CHR '':'' # show_int i"

text \<open>\<^verbatim>\<open>client_list_[id]\<close> binds a missing id to an empty vector.\<close>

definition list_push :: "string \<Rightarrow> string \<Rightarrow> (string, string list) std_map \<Rightarrow> (string, string list) std_map" where
  "list_push key x cl = (let (l, cl1) = map_index key [] cl in map_put key (l @ [x]) cl1)"

definition list_drop :: "string \<Rightarrow> string \<Rightarrow> (string, string list) std_map \<Rightarrow> (string, string list) std_map" where
  "list_drop key x cl = (let (l, cl1) = map_index key [] cl in map_put key (remove1 x l) cl1)"

fun client_set_loop ::
  "string \<Rightarrow> string \<Rightarrow> session_ptr \<Rightarrow> nat list \<Rightarrow> client_map \<Rightarrow> string \<times> client_map" where
  "client_set_loop key ss s [] c = ([], c)"
| "client_set_loop key ss s (i # js) c =
     (let str_tmp = slot_id key (int i);
          (v, m1) = map_index str_tmp None (cm_map c)
      in if v = None
         then (str_tmp, c\<lparr>cm_map := map_put str_tmp s m1,
                          client_list := list_push key ss (client_list c)\<rparr>)
         else client_set_loop key ss s js (c\<lparr>cm_map := m1\<rparr>))"

definition client_set :: "int \<Rightarrow> string \<Rightarrow> session_ptr \<Rightarrow> client_map \<Rightarrow> string \<times> client_map" where
  "client_set connect_count key s c =
     (let count = find_matched key (cm_map c); ss = slot_id key count
      in if connect_count \<le> count then ([], c)
         else let (v, m1) = map_index ss None (cm_map c)
              in if v \<noteq> None
                 then client_set_loop key ss s [0..<nat count] (c\<lparr>cm_map := m1\<rparr>)
                 else (ss, c\<lparr>cm_map := map_put ss s m1,
                             client_list := list_push key ss (client_list c)\<rparr>))"

definition fix_set :: "string \<Rightarrow> string \<Rightarrow> session_ptr \<Rightarrow> client_map \<Rightarrow> int \<times> client_map" where
  "fix_set server_id key s c =
     (if server_id = [] \<or> key = [] then (-1, c)
      else (0, c\<lparr>cm_map := map_put key s (cm_map c),
                 client_list := list_push server_id key (list_drop server_id key (client_list c))\<rparr>))"

definition client_get :: "nat \<Rightarrow> string \<Rightarrow> client_map \<Rightarrow> session_ptr \<times> client_map" where
  "client_get r key c =
     (let (l, cl1) = map_index key [] (client_list c); c1 = c\<lparr>client_list := cl1\<rparr>;
          count = int (length l)
      in if count = 0 then (None, c1)
         else (peer_get (l ! nat (random_num r count)) (cm_map c1), c1))"

definition fix_get :: "string \<Rightarrow> client_map \<Rightarrow> session_ptr" where
  "fix_get key c = peer_get key (cm_map c)"

definition simple_get :: "nat \<Rightarrow> int \<Rightarrow> string \<Rightarrow> client_map \<Rightarrow> session_ptr" where
  "simple_get r connect_count key c = peer_get (slot_id key (random_num r connect_count)) (cm_map c)"

definition client_erase_in :: "string \<Rightarrow> string \<Rightarrow> client_map \<Rightarrow> client_map" where
  "client_erase_in server_id key c =
     c\<lparr>cm_map := map_erase key (cm_map c), client_list := list_drop server_id key (client_list c)\<rparr>"

definition client_erase :: "splitter \<Rightarrow> string \<Rightarrow> client_map \<Rightarrow> client_map" where
  "client_erase split key c =
     (let sp = split (CHR '':'') key
      in if length sp \<noteq> 4 then c
         else client_erase_in (sp ! 0 @ '':'' @ sp ! 1 @ '':'' @ sp ! 2) key c)"

fun close_all_loop :: "peer_map \<Rightarrow> peer_map" where
  "close_all_loop [] = []"
| "close_all_loop (_ # m) = close_all_loop m"

definition close_all :: "client_map \<Rightarrow> client_map" where
  "close_all c = c\<lparr>cm_map := close_all_loop (cm_map c)\<rparr>"

lemmas client_defs = list_push_def list_drop_def fix_set_def client_get_def fix_get_def
  client_erase_in_def client_erase_def

subsection \<open>Slot names\<close>

lemma slot_id_inject:
  "slot_id a (int i) = slot_id b (int j) \<longleftrightarrow> a = b \<and> i = j"
proof
  assume eq: "slot_id a (int i) = slot_id b (int j)"
  let ?p = "\<lambda>c. c \<noteq> CHR '':''"
  have tw: "takeWhile ?p (rev (slot_id x (int k))) = rev (show_nat k)" for x k
    by (simp add: slot_id_def takeWhile_append)
  have "rev (show_nat i) = rev (show_nat j)"
    using tw [of a i] tw [of b j] eq by simp
  then have "i = j" by simp
  with eq show "a = b \<and> i = j" by (simp add: slot_id_def)
qed simp

lemma slot_id_not_Nil [simp]: "slot_id a i \<noteq> []"
  by (simp add: slot_id_def)

lemma random_num_range: "0 < n \<Longrightarrow> 0 \<le> random_num r (int n) \<and> random_num r (int n) < int n"
  by (simp add: random_num_def)

subsection \<open>The lists of keys\<close>

definition keys_of :: "string \<Rightarrow> client_map \<Rightarrow> string list" where
  "keys_of key c = (case map_of (client_list c) key of Some l \<Rightarrow> l | None \<Rightarrow> [])"

lemma map_of_list_push:
  "map_of (list_push key x cl) key' =
     (if key' = key then Some ((case map_of cl key of Some l \<Rightarrow> l | None \<Rightarrow> []) @ [x]) else map_of cl key')"
  by (auto simp: list_push_def map_index_def split: option.splits)

lemma map_of_list_drop:
  "map_of (list_drop key x cl) key' =
     (if key' = key then Some (remove1 x (case map_of cl key of Some l \<Rightarrow> l | None \<Rightarrow> [])) else map_of cl key')"
  by (auto simp: list_drop_def map_index_def split: option.splits)

lemma keys_of_fix_set:
  "server_id \<noteq> [] \<Longrightarrow> key \<noteq> [] \<Longrightarrow> keys_of sid (snd (fix_set server_id key s c)) =
     (if sid = server_id then remove1 key (keys_of server_id c) @ [key] else keys_of sid c)"
  by (auto simp: keys_of_def fix_set_def map_of_list_push map_of_list_drop split: option.splits)

lemma keys_of_erase_in:
  "keys_of sid (client_erase_in server_id key c) =
     (if sid = server_id then remove1 key (keys_of server_id c) else keys_of sid c)"
  by (auto simp: keys_of_def client_erase_in_def map_of_list_drop split: option.splits)

lemma client_get_eq:
  "fst (client_get r key c) =
     (if keys_of key c = [] then None
      else peer_get (keys_of key c ! nat (random_num r (int (length (keys_of key c))))) (cm_map c))"
  "cm_map (snd (client_get r key c)) = cm_map c"
  "keys_of sid (snd (client_get r key c)) = keys_of sid c"
  by (auto simp: client_get_def map_index_def keys_of_def Let_def split: option.splits)

subsection \<open>The registry contract\<close>

datatype 'k reg_op = Bind 'k nat | Unbind 'k

fun op_key :: "'k reg_op \<Rightarrow> 'k" where
  "op_key (Bind k _) = k"
| "op_key (Unbind k) = k"

fun run_ops :: "('k \<Rightarrow> nat \<Rightarrow> 'm \<Rightarrow> 'm) \<Rightarrow> ('k \<Rightarrow> 'm \<Rightarrow> 'm) \<Rightarrow> 'k reg_op list \<Rightarrow> 'm \<Rightarrow> 'm" where
  "run_ops b u [] m = m"
| "run_ops b u (Bind k s # ops) m = run_ops b u ops (b k s m)"
| "run_ops b u (Unbind k # ops) m = run_ops b u ops (u k m)"

text \<open>The abstract registry: a partial function from keys to sessions.\<close>

fun spec_ops :: "'k reg_op list \<Rightarrow> ('k \<rightharpoonup> nat) \<Rightarrow> ('k \<rightharpoonup> nat)" where
  "spec_ops [] f = f"
| "spec_ops (Bind k s # ops) f = spec_ops ops (f(k \<mapsto> s))"
| "spec_ops (Unbind k # ops) f = spec_ops ops (f(k := None))"

locale session_registry =
  fixes inv :: "'m \<Rightarrow> bool"
    and ok :: "'k \<Rightarrow> bool"
    and bind :: "'k \<Rightarrow> nat \<Rightarrow> 'm \<Rightarrow> 'm"
    and unbind :: "'k \<Rightarrow> 'm \<Rightarrow> 'm"
    and look :: "'k \<Rightarrow> 'm \<Rightarrow> nat option"
  assumes inv_bind: "inv m \<Longrightarrow> ok k \<Longrightarrow> inv (bind k s m)"
    and inv_unbind: "inv m \<Longrightarrow> ok k \<Longrightarrow> inv (unbind k m)"
    and look_bind: "inv m \<Longrightarrow> ok k \<Longrightarrow> ok k' \<Longrightarrow>
          look k' (bind k s m) = (if k' = k then Some s else look k' m)"
    and look_unbind: "inv m \<Longrightarrow> ok k \<Longrightarrow> ok k' \<Longrightarrow>
          look k' (unbind k m) = (if k' = k then None else look k' m)"
begin

lemma run_ops_inv: "inv m \<Longrightarrow> \<forall>p \<in> set ops. ok (op_key p) \<Longrightarrow> inv (run_ops bind unbind ops m)"
proof (induction ops arbitrary: m)
  case Nil
  then show ?case by simp
next
  case (Cons p ops)
  then show ?case by (cases p) (auto simp: inv_bind inv_unbind)
qed

lemma run_ops_look:
  "inv m \<Longrightarrow> \<forall>p \<in> set ops. ok (op_key p) \<Longrightarrow> ok k \<Longrightarrow> \<forall>k'. ok k' \<longrightarrow> f k' = look k' m \<Longrightarrow>
     look k (run_ops bind unbind ops m) = spec_ops ops f k"
proof (induction ops arbitrary: m f)
  case Nil
  then show ?case by simp
next
  case (Cons p ops)
  then show ?case
    by (cases p) (auto simp: inv_bind inv_unbind look_bind look_unbind)
qed

end

definition bind_peer :: "string \<Rightarrow> nat \<Rightarrow> peer_map \<Rightarrow> peer_map" where
  "bind_peer k s m = snd (peer_set k (Some s) m)"

lemma peer_get_set: "peer_get k' (snd (peer_set k s m)) = (if k' = k then s else peer_get k' m)"
  by (auto simp: peer_get_def peer_set_def)

lemma peer_get_erase: "peer_get k' (peer_erase k m) = (if k' = k then None else peer_get k' m)"
  by (auto simp: peer_get_def peer_erase_def)

lemma map_ok_peer_set: "map_ok m \<Longrightarrow> map_ok (snd (peer_set k s m))"
  by (simp add: peer_set_def)

lemma map_ok_peer_erase: "map_ok m \<Longrightarrow> map_ok (peer_erase k m)"
  by (simp add: peer_erase_def)

lemma peer_get_put [simp]: "peer_get x (map_put k s m) = (if x = k then s else peer_get x m)"
  by (simp add: peer_get_def)

lemma map_index_null:
  assumes "map_index k None m = (v, m1)"
  shows "v = peer_get k m" "peer_get x m1 = peer_get x m"
  using assms by (auto simp: map_index_def peer_get_def split: option.splits if_splits)

interpretation pr: session_registry map_ok "\<lambda>_. True" bind_peer peer_erase peer_get
  by unfold_locales
    (auto simp: bind_peer_def peer_get_set peer_get_erase map_ok_peer_set map_ok_peer_erase)

subsection \<open>The client map: keys listed under a server are live, and live slots are listed\<close>

definition client_inv :: "client_map \<Rightarrow> bool" where
  "client_inv c \<longleftrightarrow>
     (\<forall>sid. distinct (keys_of sid c)) \<and>
     (\<forall>sid. \<forall>k \<in> set (keys_of sid c). (\<exists>i. k = slot_id sid (int i)) \<and> fix_get k c \<noteq> None) \<and>
     (\<forall>sid i. fix_get (slot_id sid (int i)) c \<noteq> None \<longrightarrow> slot_id sid (int i) \<in> set (keys_of sid c))"

definition bind_slot :: "string \<times> nat \<Rightarrow> nat \<Rightarrow> client_map \<Rightarrow> client_map" where
  "bind_slot k s c = snd (fix_set (fst k) (slot_id (fst k) (int (snd k))) (Some s) c)"

definition unbind_slot :: "string \<times> nat \<Rightarrow> client_map \<Rightarrow> client_map" where
  "unbind_slot k c = client_erase_in (fst k) (slot_id (fst k) (int (snd k))) c"

definition look_slot :: "string \<times> nat \<Rightarrow> client_map \<Rightarrow> nat option" where
  "look_slot k c = fix_get (slot_id (fst k) (int (snd k))) c"

lemma fix_get_fix_set:
  "server_id \<noteq> [] \<Longrightarrow> key \<noteq> [] \<Longrightarrow>
     fix_get k (snd (fix_set server_id key s c)) = (if k = key then s else fix_get k c)"
  by (simp add: fix_get_def fix_set_def peer_get_def)

lemma fix_get_erase_in:
  "fix_get k (client_erase_in server_id key c) = (if k = key then None else fix_get k c)"
  by (simp add: fix_get_def client_erase_in_def peer_get_def)

lemma client_inv_new: "client_inv client_map_new"
  by (simp add: client_inv_def client_map_new_def keys_of_def fix_get_def peer_get_def)

lemma client_inv_bind: "client_inv c \<Longrightarrow> fst k \<noteq> [] \<Longrightarrow> client_inv (bind_slot k s c)"
  by (auto simp: client_inv_def bind_slot_def keys_of_fix_set fix_get_fix_set slot_id_inject)

lemma client_inv_owner:
  "client_inv c \<Longrightarrow> slot_id a (int i) \<in> set (keys_of sid c) \<Longrightarrow> sid = a"
  unfolding client_inv_def by (metis slot_id_inject)

lemma client_inv_unbind:
  assumes "client_inv c"
  shows "client_inv (unbind_slot k c)"
  using client_inv_owner [OF assms, of "fst k" "snd k"] assms
  by (auto simp: client_inv_def unbind_slot_def keys_of_erase_in fix_get_erase_in slot_id_inject)

lemma client_inv_get: "client_inv c \<Longrightarrow> client_inv (snd (client_get r key c))"
  by (simp add: client_inv_def client_get_eq fix_get_def)

lemma look_slot_bind:
  "fst k \<noteq> [] \<Longrightarrow> look_slot k' (bind_slot k s c) = (if k' = k then Some s else look_slot k' c)"
  by (simp add: look_slot_def bind_slot_def fix_get_fix_set slot_id_inject prod_eq_iff)

lemma look_slot_unbind: "look_slot k' (unbind_slot k c) = (if k' = k then None else look_slot k' c)"
  by (simp add: look_slot_def unbind_slot_def fix_get_erase_in slot_id_inject prod_eq_iff)

interpretation cr: session_registry client_inv "\<lambda>k. fst k \<noteq> []" bind_slot unbind_slot look_slot
  by unfold_locales
    (simp_all add: client_inv_bind client_inv_unbind look_slot_bind look_slot_unbind)

subsection \<open>client_set\<close>

lemma client_set_loop_result:
  assumes "client_set_loop key ss (Some s) js c = (k, c')"
  shows "if k = [] then (\<forall>x. fix_get x c' = fix_get x c) \<and> client_list c' = client_list c
         else (\<exists>i \<in> set js. k = slot_id key (int i)) \<and> fix_get k c = None \<and> fix_get k c' = Some s \<and>
              (\<forall>x. x \<noteq> k \<longrightarrow> fix_get x c' = fix_get x c) \<and>
              client_list c' = list_push key ss (client_list c)"
  using assms
proof (induction js arbitrary: c)
  case Nil
  then show ?case by auto
next
  case (Cons i js)
  obtain v m1 where vm: "map_index (slot_id key (int i)) None (cm_map c) = (v, m1)"
    by (cases "map_index (slot_id key (int i)) None (cm_map c)")
  have v: "v = fix_get (slot_id key (int i)) c" and g: "peer_get x m1 = fix_get x c" for x
    using map_index_null [OF vm] by (simp_all add: fix_get_def)
  show ?case
  proof (cases v)
    case None
    with Cons.prems vm have "k = slot_id key (int i)" "c' = c\<lparr>cm_map := map_put k (Some s) m1,
        client_list := list_push key ss (client_list c)\<rparr>"
      by (auto simp: Let_def)
    with None v show ?thesis by (auto simp: fix_get_def g)
  next
    case (Some t)
    with Cons.prems vm have "client_set_loop key ss (Some s) js (c\<lparr>cm_map := m1\<rparr>) = (k, c')" by simp
    from Cons.IH [OF this] show ?thesis
      by (auto simp: fix_get_def g split: if_splits)
  qed
qed

lemma client_set_result:
  assumes "client_set n key (Some s) c = (k, c')"
  shows "if k = [] then (\<forall>x. fix_get x c' = fix_get x c) \<and> client_list c' = client_list c
         else (\<exists>i. k = slot_id key (int i) \<and> int i \<le> find_matched key (cm_map c)) \<and>
              find_matched key (cm_map c) < n \<and> fix_get k c = None \<and> fix_get k c' = Some s \<and>
              (\<forall>x. x \<noteq> k \<longrightarrow> fix_get x c' = fix_get x c) \<and>
              client_list c' = list_push key (slot_id key (find_matched key (cm_map c))) (client_list c)"
proof -
  define cnt ss where "cnt = find_matched key (cm_map c)" and "ss = slot_id key cnt"
  have cnt: "0 \<le> cnt" by (simp add: cnt_def find_matched_def)
  obtain v m1 where vm: "map_index ss None (cm_map c) = (v, m1)"
    by (cases "map_index ss None (cm_map c)")
  have v: "v = fix_get ss c" and g: "peer_get x m1 = fix_get x c" for x
    using map_index_null [OF vm] by (simp_all add: fix_get_def)
  consider "n \<le> cnt" | "cnt < n" "v = None" | "cnt < n" "v \<noteq> None" by linarith
  then show ?thesis
  proof cases
    case 1
    with assms show ?thesis by (auto simp: client_set_def cnt_def Let_def)
  next
    case 2
    with assms vm have "k = ss \<and> c' = c\<lparr>cm_map := map_put ss (Some s) m1,
        client_list := list_push key ss (client_list c)\<rparr>"
      by (auto simp: client_set_def Let_def simp flip: cnt_def ss_def)
    moreover have "\<exists>i. ss = slot_id key (int i) \<and> int i \<le> cnt"
      using cnt by (intro exI [of _ "nat cnt"]) (simp add: ss_def)
    moreover have "ss \<noteq> []" by (simp add: ss_def)
    ultimately show ?thesis
      unfolding cnt_def [symmetric] ss_def [symmetric]
      using 2 v g by (simp add: fix_get_def)
  next
    case 3
    with assms vm have loop: "client_set_loop key ss (Some s) [0..<nat cnt] (c\<lparr>cm_map := m1\<rparr>) = (k, c')"
      by (simp add: client_set_def Let_def flip: cnt_def ss_def)
    have "fix_get x (c\<lparr>cm_map := m1\<rparr>) = fix_get x c" for x
      by (simp add: fix_get_def g)
    with client_set_loop_result [OF loop] 3 show ?thesis
      by (auto simp flip: cnt_def ss_def split: if_splits)
  qed
qed

subsection \<open>Properties\<close>

text \<open>C24: Over any sequence of \<^verbatim>\<open>set\<close> and \<^verbatim>\<open>erase\<close> calls from the empty map,
  \<^verbatim>\<open>peer_handle_map::get\<close> returns for every id the session of the last \<^verbatim>\<open>set\<close> of that id
  that no \<^verbatim>\<open>erase\<close> of it followed, and a null pointer otherwise.\<close>

theorem peer_map_last_write:
  "peer_get k (run_ops bind_peer peer_erase ops []) = spec_ops ops Map.empty k"
  by (rule pr.run_ops_look) (simp_all add: peer_get_def)

text \<open>C25: The same for the outgoing map used with the reconnection calls \<^verbatim>\<open>fix_set\<close>, \<^verbatim>\<open>erase\<close>
  and \<^verbatim>\<open>fix_get\<close> on the slots \<^verbatim>\<open>server:i\<close>, and \<^verbatim>\<open>client_list_\<close> then lists exactly the bound
  slots of each server, each once.\<close>

theorem client_map_last_write:
  assumes "\<forall>p \<in> set ops. fst (op_key p) \<noteq> []" "fst k \<noteq> []"
  shows "look_slot k (run_ops bind_slot unbind_slot ops client_map_new) = spec_ops ops Map.empty k \<and>
     client_inv (run_ops bind_slot unbind_slot ops client_map_new)"
  using cr.run_ops_look [OF client_inv_new assms, of Map.empty]
    cr.run_ops_inv [OF client_inv_new assms(1)]
  by (simp add: look_slot_def client_map_new_def fix_get_def peer_get_def)

theorem client_map_last_write_witness:
  "look_slot (''server:a:80'', 1) (run_ops bind_slot unbind_slot
     [Bind (''server:a:80'', 0) 4, Bind (''server:a:80'', 1) 5, Unbind (''server:a:80'', 0)]
     client_map_new) = Some 5"
  using client_map_last_write [of "[Bind (''server:a:80'', 0) 4, Bind (''server:a:80'', 1) 5,
     Unbind (''server:a:80'', 0)]" "(''server:a:80'', 1)"]
  by simp

text \<open>When the lists and the map agree, \<^verbatim>\<open>get(server)\<close> finds a session exactly when some slot
  of the server holds one, whatever \<^verbatim>\<open>rand()\<close> returns, and what it returns is in a slot of
  that server; the call keeps the agreement.\<close>

lemma client_get_available:
  assumes "client_inv c"
  shows "(fst (client_get r sid c) \<noteq> None \<longleftrightarrow> (\<exists>i. fix_get (slot_id sid (int i)) c \<noteq> None)) \<and>
     (\<forall>s. fst (client_get r sid c) = Some s \<longrightarrow> (\<exists>i. fix_get (slot_id sid (int i)) c = Some s)) \<and>
     client_inv (snd (client_get r sid c))"
proof -
  let ?l = "keys_of sid c"
  let ?k = "?l ! nat (random_num r (int (length ?l)))"
  have mem: "?k \<in> set ?l" if "?l \<noteq> []"
    using that random_num_range [of "length ?l" r] by (intro nth_mem) auto
  have got: "fst (client_get r sid c) = (if ?l = [] then None else fix_get ?k c)"
    by (simp add: client_get_eq fix_get_def)
  show ?thesis
  proof (cases "?l = []")
    case True
    have "fix_get (slot_id sid (int i)) c = None" for i
      using assms True unfolding client_inv_def by (metis empty_iff list.set(1))
    with True client_inv_get [OF assms] show ?thesis by (simp add: got)
  next
    case False
    then obtain i where "?k = slot_id sid (int i)" "fix_get ?k c \<noteq> None"
      using mem assms unfolding client_inv_def by blast
    with False got have "fst (client_get r sid c) = fix_get (slot_id sid (int i)) c"
      "fix_get (slot_id sid (int i)) c \<noteq> None" by simp_all
    with client_inv_get [OF assms] show ?thesis by metis
  qed
qed

lemma client_get_available_witness:
  "fst (client_get 12345 ''server:a:80'' (bind_slot (''server:a:80'', 3) 9 client_map_new)) \<noteq> None"
proof -
  let ?c = "bind_slot (''server:a:80'', 3) 9 client_map_new"
  have "client_inv ?c" by (rule client_inv_bind [OF client_inv_new]) simp
  moreover have "fix_get (slot_id ''server:a:80'' (int 3)) ?c \<noteq> None"
    using look_slot_bind [of "(''server:a:80'', 3)" "(''server:a:80'', 3)" 9 client_map_new]
    by (simp add: look_slot_def)
  ultimately show ?thesis
    using client_get_available [of ?c 12345 "''server:a:80''"] by blast
qed

text \<open>C26: \<^verbatim>\<open>peer_handle_map_for_client::set\<close> never replaces a live session: a nonempty result is
  a slot of the server that held no session before, it now holds the new one, and no other
  lookup changes; an empty result (the map is full) changes no lookup and no key list.\<close>

theorem client_set_keeps_live:
  assumes "client_set n key (Some s) c = (k, c')"
  shows "(k \<noteq> [] \<longrightarrow> (\<exists>i. k = slot_id key (int i) \<and> int i \<le> find_matched key (cm_map c)) \<and>
            fix_get k c = None \<and> fix_get k c' = Some s) \<and>
     (\<forall>x. x \<noteq> k \<or> k = [] \<longrightarrow> fix_get x c' = fix_get x c) \<and>
     (k = [] \<longrightarrow> client_list c' = client_list c) \<and>
     (n \<le> find_matched key (cm_map c) \<longrightarrow> k = [])"
  using client_set_result [OF assms] by (auto split: if_splits)

theorem client_set_keeps_live_witness:
  "fix_get ''server:a:80:0'' (snd (client_set 2 ''server:a:80'' (Some 7) client_map_new)) = Some 7 \<and>
   fst (client_set 2 ''server:a:80'' (Some 7) client_map_new) = ''server:a:80:0''"
proof -
  have r: "client_set 2 ''server:a:80'' (Some 7) client_map_new =
      (''server:a:80:0'', snd (client_set 2 ''server:a:80'' (Some 7) client_map_new))"
    by (simp add: client_set_def client_map_new_def find_matched_def slot_id_def map_index_def
        show_int_def show_nat.simps [of 0] digit_def) code_simp
  have "fst (client_set 2 ''server:a:80'' (Some 7) client_map_new) = ''server:a:80:0''"
    by (subst r) simp
  with client_set_keeps_live [OF r] show ?thesis by simp
qed



text \<open>\<^verbatim>\<open>find_matched\<close> counts every key that contains the id, so the slots of a server whose
  address extends this one's (port 8080 and port 80) use up this server's slots: with
  \<^verbatim>\<open>connect_count\<close> of them bound, \<^verbatim>\<open>set\<close> refuses a server that has no session at all.\<close>

lemma client_set_refused_by_longer_port:
  assumes "\<forall>i < n. map_of (cm_map c) (slot_id (key @ suffix) (int i)) \<noteq> None"
  shows "client_set (int n) key s c = ([], c)"
proof -
  let ?f = "filter (\<lambda>(k, _). contains key k) (cm_map c)"
  let ?slot = "\<lambda>i. slot_id (key @ suffix) (int i)"
  have "?slot ` {..<n} \<subseteq> fst ` set ?f"
  proof
    fix x assume "x \<in> ?slot ` {..<n}"
    then obtain i where i: "i < n" "x = ?slot i" by auto
    with assms obtain v where "(x, v) \<in> set (cm_map c)"
      by (metis map_of_SomeD option.exhaust)
    moreover have "contains key x" by (simp add: i(2) slot_id_def)
    ultimately show "x \<in> fst ` set ?f" by force
  qed
  then have "card (?slot ` {..<n}) \<le> card (fst ` set ?f)"
    by (rule card_mono [rotated]) simp
  also have "\<dots> \<le> length ?f"
    by (metis card_length length_map list.set_map)
  also have "card (?slot ` {..<n}) = n"
    by (subst card_image) (auto simp: inj_on_def slot_id_inject)
  finally show ?thesis by (simp add: client_set_def find_matched_def)
qed

text \<open>\<^verbatim>\<open>erase(id)\<close> takes the server's name from the id: on a slot of an address of the form
  \<^verbatim>\<open>a:b:c\<close> it is \<^verbatim>\<open>erase(a:b:c, id)\<close>, so the slot is unbound and the registry stays consistent;
  on an id without exactly four parts it changes nothing.\<close>

lemma client_erase_by_id:
  assumes "split_ok split"
  shows "(CHR '':'' \<notin> set a \<union> set b \<union> set d \<longrightarrow>
       client_erase split (slot_id (a @ '':'' @ b @ '':'' @ d) (int i)) c =
       unbind_slot (a @ '':'' @ b @ '':'' @ d, i) c) \<and>
     (length (split (CHR '':'') key) \<noteq> 4 \<longrightarrow> client_erase split key c = c)"
proof -
  have "split (CHR '':'') (slot_id (a @ '':'' @ b @ '':'' @ d) (int i)) = [a, b, d, show_nat i]"
    if "CHR '':'' \<notin> set a \<union> set b \<union> set d"
    using that split_join [OF assms, of "[a, b, d, show_nat i]" "CHR '':''"]
    by (simp add: slot_id_def)
  then show ?thesis by (auto simp: client_erase_def unbind_slot_def)
qed

text \<open>\<^verbatim>\<open>close_all\<close> leaves no session reachable through any lookup, although the key lists are
  kept.\<close>

lemma close_all_unreachable:
  "fix_get k (close_all c) = None \<and> fst (client_get r k (close_all c)) = None \<and>
   simple_get r n k (close_all c) = None \<and> client_list (close_all c) = client_list c"
proof -
  have "close_all_loop m = []" for m by (induction m) auto
  then show ?thesis
    by (simp add: close_all_def fix_get_def client_get_eq simple_get_def peer_get_def)
qed

end
