(* ===== verification/FifoContract.thy ===== *)
theory FifoContract
  imports BPrelude
begin

text \<open>
  The contract two parts of the server share: a first-in first-out channel. The write queue of
  a session (\<^verbatim>\<open>session_base::write\<close>, \<^verbatim>\<open>handle_write\<close>) and the task queue
  (\<^verbatim>\<open>task_base::push\<close>, \<^verbatim>\<open>try_pop\<close>) both interpret it.
\<close>

datatype 'a fifo_op = Put 'a | Get

fun puts :: "'a fifo_op list \<Rightarrow> 'a list" where
  "puts [] = []"
| "puts (Put x # ops) = x # puts ops"
| "puts (Get # ops) = puts ops"

fun run_fifo ::
  "('a \<Rightarrow> 's \<Rightarrow> 's) \<Rightarrow> ('s \<Rightarrow> ('a \<times> 's) option) \<Rightarrow> 'a fifo_op list \<Rightarrow> 's \<Rightarrow> 'a list \<times> 's" where
  "run_fifo p g [] s = ([], s)"
| "run_fifo p g (Put x # ops) s = run_fifo p g ops (p x s)"
| "run_fifo p g (Get # ops) s =
     (case g s of None \<Rightarrow> run_fifo p g ops s
      | Some (x, s') \<Rightarrow> let (out, s'') = run_fifo p g ops s' in (x # out, s''))"

locale fifo =
  fixes ok :: "'a \<Rightarrow> bool"
    and inv :: "'s \<Rightarrow> bool"
    and items :: "'s \<Rightarrow> 'a list"
    and put :: "'a \<Rightarrow> 's \<Rightarrow> 's"
    and get :: "'s \<Rightarrow> ('a \<times> 's) option"
  assumes inv_put: "inv s \<Longrightarrow> ok x \<Longrightarrow> inv (put x s)"
    and items_put: "inv s \<Longrightarrow> items (put x s) = items s @ [x]"
    and get_None: "inv s \<Longrightarrow> get s = None \<longleftrightarrow> items s = []"
    and get_Some: "inv s \<Longrightarrow> get s = Some (x, s') \<Longrightarrow> inv s' \<and> items s = x # items s'"
begin

lemma run_fifo_order:
  "inv s \<Longrightarrow> list_all ok (puts ops) \<Longrightarrow> run_fifo put get ops s = (out, s') \<Longrightarrow>
     inv s' \<and> items s @ puts ops = out @ items s'"
proof (induction ops arbitrary: s out)
  case Nil
  then show ?case by simp
next
  case (Cons p ops)
  show ?case
  proof (cases p)
    case (Put x)
    with Cons.prems Cons.IH [of "put x s" out] show ?thesis
      by (simp add: inv_put items_put)
  next
    case Get
    show ?thesis
    proof (cases "get s")
      case None
      with Get Cons show ?thesis by simp
    next
      case (Some r)
      obtain x s1 where r: "r = (x, s1)" by (cases r)
      obtain o1 s2 where run: "run_fifo put get ops s1 = (o1, s2)"
        by (cases "run_fifo put get ops s1")
      with Cons.prems Get Some r have out: "out = x # o1" "run_fifo put get ops s1 = (o1, s')" by auto
      have "inv s1" "items s = x # items s1"
        using get_Some [OF Cons.prems(1), of x s1] Some r by auto
      with Cons.IH [OF _ _ out(2)] Cons.prems(2) out Get show ?thesis by simp
    qed
  qed
qed

lemma drained:
  "inv s \<Longrightarrow> list_all ok (puts ops) \<Longrightarrow> items s = [] \<Longrightarrow> run_fifo put get ops s = (out, s') \<Longrightarrow>
     get s' = None \<Longrightarrow> out = puts ops"
  using run_fifo_order [of s ops out s'] get_None [of s'] by auto

end

end
