(* ===== verification/SessionBase.thy ===== *)
theory SessionBase
  imports MessageFormat FifoContract
begin

text \<open>
  One connection: the object state of \<^verbatim>\<open>session_base\<close> and its subclasses
  (include/session_base.h, include/client_session.h) and the write side of
  src/session_base.cpp. \<^verbatim>\<open>write\<close> and \<^verbatim>\<open>handle_write\<close> run under \<^verbatim>\<open>mutex_\<close>, so each is one
  atomic function. The operations asio has been asked to do and has not completed are kept in
  the state: \<open>writing\<close> holds the buffers of the pending \<^verbatim>\<open>async_write\<close> calls (\<^const>\<open>None\<close> for a
  buffer that runs past the vector), \<open>reading\<close> the pending \<^verbatim>\<open>async_read\<close> calls.
\<close>

subsection \<open>Data\<close>

datatype session_kind = Server_Session | Client_Session

datatype read_op = Read_Head nat | Read_Body nat

record session =
  s_kind :: session_kind
  read_msg :: message_format
  write_msgs :: "message_format list"
  s_id :: string
  server_id :: string
  fix_connect :: bool
  is_auto_reconnect :: bool
  connected :: bool
  inter_lock :: bool
  remote_endpoint :: "(string \<times> nat) option"
  sock_shutdown :: bool
  writing :: "bytes option list"
  reading :: "read_op list"

text \<open>The constructors; \<open>g\<close> stands for the uninitialised header fields of \<^verbatim>\<open>read_msg_\<close>, and the
  remote endpoint is the socket's once it is connected (\<^const>\<open>None\<close>: \<^verbatim>\<open>remote_endpoint()\<close> throws).\<close>

definition session_new :: "session_kind \<Rightarrow> bool \<Rightarrow> head \<Rightarrow> (string \<times> nat) option \<Rightarrow> session" where
  "session_new k auto g ep =
     \<lparr>s_kind = k, read_msg = message_format_new g, write_msgs = [], s_id = [], server_id = [],
      fix_connect = False, is_auto_reconnect = auto, connected = False, inter_lock = False,
      remote_endpoint = ep, sock_shutdown = False, writing = [], reading = []\<rparr>"

lemma session_new_fields [simp]:
  "s_kind (session_new k a g ep) = k" "is_auto_reconnect (session_new k a g ep) = a"
  "reading (session_new k a g ep) = []" "writing (session_new k a g ep) = []"
  "write_msgs (session_new k a g ep) = []" "inter_lock (session_new k a g ep) = False"
  "remote_endpoint (session_new k a g ep) = ep" "s_id (session_new k a g ep) = []"
  "server_id (session_new k a g ep) = []" "fix_connect (session_new k a g ep) = False"
  "sock_shutdown (session_new k a g ep) = False"
  by (simp_all add: session_new_def)

subsection \<open>Operations\<close>

definition inter_guard_lock :: "session \<Rightarrow> bool \<times> session" where
  "inter_guard_lock s = (if \<not> inter_lock s then (True, s\<lparr>inter_lock := True\<rparr>) else (False, s))"

definition inter_guard_release :: "session \<Rightarrow> session" where
  "inter_guard_release s = s\<lparr>inter_lock := False\<rparr>"

text \<open>\<^verbatim>\<open>async_write\<close> on \<^verbatim>\<open>write_msgs_.front()\<close>; every caller has checked that the deque is not
  empty. A reference into a deque stays valid under \<^verbatim>\<open>push_back\<close>.\<close>

definition async_write_front :: "session \<Rightarrow> session" where
  "async_write_front s = s\<lparr>writing := writing s @ [wire (hd (write_msgs s))]\<rparr>"

definition session_write :: "message_format \<Rightarrow> session \<Rightarrow> session" where
  "session_write msg s =
     (let s1 = s\<lparr>write_msgs := write_msgs s @ [msg]\<rparr>
      in if \<not> inter_lock s1
         then (case inter_guard_lock s1 of
                 (False, s2) \<Rightarrow> s2
               | (True, s2) \<Rightarrow> async_write_front s2)
         else s1)"

text \<open>\<^verbatim>\<open>handle_write\<close> without an error; with one it calls \<^verbatim>\<open>close()\<close> and leaves the queue and the
  guard as they are.\<close>

definition handle_write_ok :: "session \<Rightarrow> session" where
  "handle_write_ok s =
     (let s1 = s\<lparr>write_msgs := tl (write_msgs s)\<rparr>
      in if write_msgs s1 \<noteq> [] then async_write_front s1 else inter_guard_release s1)"

lemmas write_defs = session_write_def handle_write_ok_def async_write_front_def inter_guard_lock_def
  inter_guard_release_def Let_def

lemma write_frame [simp]:
  "s_kind (session_write m s) = s_kind s" "read_msg (session_write m s) = read_msg s" "s_id (session_write m s) = s_id s"
  "server_id (session_write m s) = server_id s" "reading (session_write m s) = reading s"
  "connected (session_write m s) = connected s" "is_auto_reconnect (session_write m s) = is_auto_reconnect s"
  by (simp_all add: write_defs)

subsection \<open>The guard and the queue agree\<close>

definition write_inv :: "session \<Rightarrow> bool" where
  "write_inv s \<longleftrightarrow>
     inter_lock s = (write_msgs s \<noteq> []) \<and>
     writing s = (case write_msgs s of [] \<Rightarrow> [] | m # _ \<Rightarrow> [wire m])"

definition complete_write :: "session \<Rightarrow> (message_format \<times> session) option" where
  "complete_write s =
     (case writing s of [] \<Rightarrow> None
      | b # bs \<Rightarrow> Some (hd (write_msgs s), handle_write_ok (s\<lparr>writing := bs\<rparr>)))"

lemma write_inv_new: "write_inv (session_new k a g ep)"
  by (simp add: write_inv_def session_new_def)

lemma write_inv_write: "write_inv s \<Longrightarrow> write_inv (session_write m s)"
  by (cases "write_msgs s") (auto simp: write_inv_def write_defs)

lemma write_msgs_write [simp]: "write_msgs (session_write m s) = write_msgs s @ [m]"
  by (simp add: write_defs)

lemma write_inv_complete:
  "write_inv s \<Longrightarrow> complete_write s = Some (m, s') \<Longrightarrow> write_inv s' \<and> write_msgs s = m # write_msgs s'"
  by (cases "write_msgs s"; cases "tl (write_msgs s)")
    (auto simp: write_inv_def write_defs complete_write_def)

interpretation wq: fifo "\<lambda>_. True" write_inv write_msgs session_write complete_write
proof unfold_locales
  fix s assume "write_inv s"
  then show "complete_write s = None \<longleftrightarrow> write_msgs s = []"
    by (cases "write_msgs s") (auto simp: write_inv_def complete_write_def)
qed (auto intro: write_inv_write dest: write_inv_complete)

subsection \<open>The write side as a state machine\<close>

text \<open>
  \<open>accepted\<close> are the messages passed to \<^verbatim>\<open>write\<close> so far, \<open>sent\<close> the buffers whose
  \<^verbatim>\<open>async_write\<close> has completed, \<open>failed\<close> whether one has completed with an error.
\<close>

record write_state =
  ws :: session
  accepted :: "message_format list"
  sent :: "bytes option list"
  failed :: bool

inductive wstep :: "write_state \<Rightarrow> write_state \<Rightarrow> bool" where
  call: "wstep st (st\<lparr>ws := session_write m (ws st), accepted := accepted st @ [m]\<rparr>)"
| completed: "writing (ws st) = b # bs \<Longrightarrow>
     wstep st (st\<lparr>ws := handle_write_ok ((ws st)\<lparr>writing := bs\<rparr>), sent := sent st @ [b]\<rparr>)"
| errored: "writing (ws st) = b # bs \<Longrightarrow>
     wstep st (st\<lparr>ws := (ws st)\<lparr>writing := bs\<rparr>, failed := True\<rparr>)"

inductive wreach :: "write_state \<Rightarrow> bool" where
  start: "wreach \<lparr>ws = session_new k a g ep, accepted = [], sent = [], failed = False\<rparr>"
| step: "wreach st \<Longrightarrow> wstep st st' \<Longrightarrow> wreach st'"


definition wstate_inv :: "write_state \<Rightarrow> bool" where
  "wstate_inv st \<longleftrightarrow>
     (\<exists>ds. accepted st = ds @ write_msgs (ws st) \<and> sent st = map wire ds) \<and>
     (if failed st then inter_lock (ws st) \<and> writing (ws st) = [] \<and> write_msgs (ws st) \<noteq> []
      else write_inv (ws st))"

lemma wstate_inv_start:
  "wstate_inv \<lparr>ws = session_new k a g ep, accepted = [], sent = [], failed = False\<rparr>"
  by (simp add: wstate_inv_def write_inv_new)

lemma write_locked: "inter_lock s \<Longrightarrow> session_write m s = s\<lparr>write_msgs := write_msgs s @ [m]\<rparr>"
  by (simp add: write_defs)

lemma wstate_inv_step:
  assumes "wstep st st'" "wstate_inv st"
  shows "wstate_inv st'"
  using assms(1)
proof (cases rule: wstep.cases)
  case (call m)
  with assms(2) show ?thesis
    by (auto simp: wstate_inv_def write_inv_write write_locked)
next
  case (completed b bs)
  with assms(2) have nf: "\<not> failed st" "write_inv (ws st)" by (auto simp: wstate_inv_def split: if_splits)
  with completed obtain m ms where ms: "write_msgs (ws st) = m # ms" "b = wire m" "bs = []"
    by (cases "write_msgs (ws st)") (auto simp: write_inv_def)
  have "complete_write (ws st) = Some (m, handle_write_ok ((ws st)\<lparr>writing := bs\<rparr>))"
    using completed ms by (simp add: complete_write_def)
  with nf have "write_inv (handle_write_ok ((ws st)\<lparr>writing := bs\<rparr>))"
    "write_msgs (ws st) = m # write_msgs (handle_write_ok ((ws st)\<lparr>writing := bs\<rparr>))"
    using write_inv_complete by blast+
  with assms(2) completed nf ms show ?thesis
    by (auto simp: wstate_inv_def intro: exI [of _ "_ @ [m]"])
next
  case (errored b bs)
  with assms(2) show ?thesis
    by (cases "write_msgs (ws st)") (auto simp: wstate_inv_def write_inv_def split: if_splits)
qed

lemma wreach_inv: "wreach st \<Longrightarrow> wstate_inv st"
  by (induction rule: wreach.induct) (auto intro: wstate_inv_start wstate_inv_step)

lemma wreach_failed_step:
  "wstep st st' \<Longrightarrow> failed st \<Longrightarrow> writing (ws st) = [] \<Longrightarrow> inter_lock (ws st) \<Longrightarrow>
     sent st' = sent st \<and> failed st' \<and> writing (ws st') = [] \<and> inter_lock (ws st')"
  by (cases rule: wstep.cases, assumption) (auto simp: write_locked)

lemma wreach_failed_star:
  assumes "wstep\<^sup>*\<^sup>* st st'" "failed st" "writing (ws st) = []" "inter_lock (ws st)"
  shows "sent st' = sent st \<and> failed st' \<and> writing (ws st') = [] \<and> inter_lock (ws st')"
  using assms(1)
proof (induction rule: rtranclp_induct)
  case base
  with assms show ?case by simp
next
  case (step st1 st2)
  then show ?case using wreach_failed_step [of st1 st2] by simp
qed

lemma wreach_one_call:
  "wreach \<lparr>ws = session_write m (session_new k a g ep), accepted = [m], sent = [], failed = False\<rparr>"
  using wreach.step [OF wreach.start wstep.call, of k a g ep m] by simp

lemma wreach_one_failure:
  "wreach \<lparr>ws = (session_write m (session_new k a g ep))\<lparr>writing := []\<rparr>, accepted = [m], sent = [], failed = True\<rparr>"
proof -
  have "writing (session_write m (session_new k a g ep)) = [wire m]"
    by (simp add: write_defs session_new_def)
  then show ?thesis
    using wreach.step [OF wreach_one_call wstep.errored, of m k a g ep "wire m" "[]"] by simp
qed

subsection \<open>Properties\<close>

definition zero_head :: head where
  "zero_head = \<lparr>magic = 0, len = 0, cmd = 0\<rparr>"

definition demo_frame :: "byte \<Rightarrow> message_format" where
  "demo_frame b = make_frame zero_head [b] (message_format_new zero_head)"

text \<open>C6: In every reachable state, whatever the interleaving of \<^verbatim>\<open>write\<close> calls, completions and
  errors, at most one \<^verbatim>\<open>async_write\<close> is outstanding on the socket, and the buffers completed so
  far are those of the first accepted messages, in the order of the \<^verbatim>\<open>write\<close> calls, while the
  rest is still in \<^verbatim>\<open>write_msgs_\<close>: nothing is lost, duplicated or reordered.\<close>

theorem write_order:
  assumes "wreach st"
  shows "length (writing (ws st)) \<le> 1 \<and>
     (\<exists>n. sent st = map wire (take n (accepted st)) \<and> write_msgs (ws st) = drop n (accepted st))"
proof -
  from wreach_inv [OF assms] obtain ds where
    "accepted st = ds @ write_msgs (ws st)" "sent st = map wire ds"
    and inv: "if failed st then writing (ws st) = [] else write_inv (ws st)"
    by (auto simp: wstate_inv_def split: if_splits)
  then have "sent st = map wire (take (length ds) (accepted st)) \<and>
      write_msgs (ws st) = drop (length ds) (accepted st)" by simp
  moreover have "length (writing (ws st)) \<le> 1"
    using inv by (auto simp: write_inv_def split: if_splits list.splits)
  ultimately show ?thesis by blast
qed

theorem write_order_witness:
  "length (writing (session_write (demo_frame 5) (session_new Client_Session False zero_head None))) \<le> 1"
  using write_order [OF wreach_one_call, of "demo_frame 5" Client_Session False zero_head None] by simp

text \<open>No stall. As long as no write has failed, the oldest message not yet sent is being
  written; the socket is idle exactly when everything accepted has been sent.\<close>

lemma write_progress:
  assumes "wreach st" "\<not> failed st"
  shows "writing (ws st) =
     (if length (sent st) < length (accepted st) then [wire (accepted st ! length (sent st))] else [])"
proof -
  from wreach_inv [OF assms(1)] assms(2) obtain ds where
    "accepted st = ds @ write_msgs (ws st)" "sent st = map wire ds" "write_inv (ws st)"
    by (auto simp: wstate_inv_def)
  then show ?thesis
    by (cases "write_msgs (ws st)") (auto simp: write_inv_def nth_append)
qed

lemma write_progress_witness:
  "writing (session_write (demo_frame 9) (session_new Server_Session False zero_head None)) =
     [Some (frame_bytes zero_head [9])]"
  using write_progress [OF wreach_one_call, of "demo_frame 9" Server_Session False zero_head None]
  by (simp add: demo_frame_def)

text \<open>C34: After a write has completed with an error the guard is never released: messages passed
  to \<^verbatim>\<open>write\<close> afterwards are queued, and no further \<^verbatim>\<open>async_write\<close> is ever started.\<close>

theorem write_error_is_final:
  assumes "wreach st" "failed st" "wstep\<^sup>*\<^sup>* st st'"
  shows "sent st' = sent st \<and> writing (ws st') = [] \<and> inter_lock (ws st')"
  using wreach_inv [OF assms(1)] assms(2) wreach_failed_star [OF assms(3,2)]
  by (auto simp: wstate_inv_def)

theorem write_error_is_final_witness:
  "writing (session_write (demo_frame 2)
     ((session_write (demo_frame 1) (session_new Client_Session False zero_head None))\<lparr>writing := []\<rparr>)) = []"
  using write_error_is_final [OF wreach_one_failure _ r_into_rtranclp, OF _ wstep.call,
    of "demo_frame 1" Client_Session False zero_head None "demo_frame 2"]
  by simp

end
