(* ===== verification/ConfigWrap.thy ===== *)
theory ConfigWrap
  imports BPrelude
begin

text \<open>
  The configuration singleton (include/configwrap.h, src/configwrap.cpp): the message-id and
  send counters, reading the ini file, the Mongo host list, and the two ways the server list is
  built (ZooKeeper, and the older session cache). Boost's property tree, its number
  translators, \<^verbatim>\<open>lexical_cast\<close>, \<^verbatim>\<open>split\<close> and the ZooKeeper and cache clients are the fields of
  \<open>cfg_ext\<close>. Connecting to the listed servers is in the theory on outgoing connections.
\<close>

subsection \<open>Data\<close>

record serv_cfg =
  sv_id :: int
  ipaddr :: string
  sv_port :: int

record cfg_ext =
  split_str :: splitter
  to_int :: "string \<Rightarrow> int option"
  to_uint :: "string \<Rightarrow> nat option"
  lexical_int :: "string \<Rightarrow> int option"
  file_exists :: "string \<Rightarrow> bool"
  read_ini :: "string \<Rightarrow> (string \<rightharpoonup> string) option"
  zk_init :: "string \<Rightarrow> int option \<Rightarrow> int"
  svlst_init :: "string \<Rightarrow> string \<Rightarrow> int"
  svlst_all :: "serv_cfg list"
  sess_cache_init :: "string list \<Rightarrow> string list \<Rightarrow> int"
  servlist_cache_list :: "string list \<Rightarrow> string list \<Rightarrow> serv_cfg list"

record configwrap =
  cfg_port :: int
  pt :: "string \<rightharpoonup> string"
  server_map :: "(int, string) std_map"
  id_next :: int64
  send_count_id :: int64
  connect_count :: int
  heart_second :: int
  cfg_path :: string
  thread_cout :: int
  io_pool_size :: int
  dburls :: "string list"
  bakdburls :: "string list"
  db_bak_urls :: "(string, string) std_map"
  message_box_urls :: "(string, string) std_map"
  session_path :: string
  session_path_bak :: string
  db_group_path :: string
  reply_domain :: string
  post_topic_domain :: string
  robot_domain :: string
  task_queue_max :: nat
  python_root :: string
  mongo_hosts :: "(string \<times> int) list"

text \<open>The constructor; \<open>hc\<close> is \<^verbatim>\<open>hardware_concurrency()\<close>, \<open>q\<close> the uninitialised
  \<^verbatim>\<open>task_queue_max_\<close>.\<close>

definition configwrap_new :: "int \<Rightarrow> nat \<Rightarrow> configwrap" where
  "configwrap_new hc q =
     \<lparr>cfg_port = 0, pt = Map.empty, server_map = [], id_next = 1, send_count_id = 1,
      connect_count = 1, heart_second = 60, cfg_path = [], thread_cout = hc, io_pool_size = 0,
      dburls = [], bakdburls = [], db_bak_urls = [], message_box_urls = [], session_path = [],
      session_path_bak = [], db_group_path = [], reply_domain = [], post_topic_domain = [],
      robot_domain = [], task_queue_max = q, python_root = [], mongo_hosts = []\<rparr>"

subsection \<open>Counters\<close>

text \<open>\<^verbatim>\<open>int64_t id()\<close> and \<^verbatim>\<open>int64_t sendcount()\<close>; both run under a mutex. The increment of a
  signed counter is the two's complement one.\<close>

definition cfg_id :: "configwrap \<Rightarrow> int64 \<times> configwrap" where
  "cfg_id c =
     (let i = (if 9223372036854775807 \<le> sint (id_next c) then 0 else id_next c)
      in (i, c\<lparr>id_next := i + 1\<rparr>))"

definition sendcount :: "configwrap \<Rightarrow> int64 \<times> configwrap" where
  "sendcount c = (send_count_id c, c\<lparr>send_count_id := send_count_id c + 1\<rparr>)"

definition get_server_id :: "int \<Rightarrow> configwrap \<Rightarrow> string \<times> configwrap" where
  "get_server_id sid c = (let (v, m) = map_index sid [] (server_map c) in (v, c\<lparr>server_map := m\<rparr>))"

subsection \<open>The server list\<close>

definition server_addr :: "serv_cfg \<Rightarrow> string" where
  "server_addr sc = ''server:'' @ ipaddr sc @ '':'' @ show_int (sv_port sc)"

fun insert_servers :: "serv_cfg list \<Rightarrow> (int, string) std_map \<Rightarrow> (int, string) std_map" where
  "insert_servers [] m = m"
| "insert_servers (sc # scs) m = insert_servers scs (map_insert (sv_id sc) (server_addr sc) m)"

subsection \<open>Reading the configuration\<close>

definition get_key :: "string \<Rightarrow> (configwrap, string) action" where
  "get_key path = act_opt (\<lambda>c. pt c path)"

definition get_int_key :: "('x) cfg_ext_scheme \<Rightarrow> string \<Rightarrow> (configwrap, int) action" where
  "get_int_key x path = act_opt (\<lambda>c. Option.bind (pt c path) (to_int x))"

definition get_uint_key :: "('x) cfg_ext_scheme \<Rightarrow> string \<Rightarrow> (configwrap, nat) action" where
  "get_uint_key x path = act_opt (\<lambda>c. Option.bind (pt c path) (to_uint x))"

text \<open>\<^verbatim>\<open>pt_.get<unsigned int>(path, 0)\<close>: the default replaces a missing or malformed value.\<close>

definition get_uint_default :: "('x) cfg_ext_scheme \<Rightarrow> string \<Rightarrow> nat \<Rightarrow> (configwrap, nat) action" where
  "get_uint_default x path d =
     (\<lambda>c. (Ret (case Option.bind (pt c path) (to_uint x) of Some n \<Rightarrow> n | None \<Rightarrow> d), c))"

text \<open>\<^verbatim>\<open>init_mongo_hosts\<close>: entries without exactly one colon are skipped, a bad port throws.\<close>

fun add_mongo_hosts :: "('x) cfg_ext_scheme \<Rightarrow> string list \<Rightarrow> (configwrap, int) action" where
  "add_mongo_hosts x [] = act_ret 0"
| "add_mongo_hosts x (ipport # hs) =
     (let v = split_str x (CHR '':'') ipport
      in if length v = 2
         then act_bind (act_opt (\<lambda>_. lexical_int x (v ! 1)))
                (\<lambda>port. act_do (\<lambda>c. c\<lparr>mongo_hosts := mongo_hosts c @ [(v ! 0, port)]\<rparr>)
                   (add_mongo_hosts x hs))
         else add_mongo_hosts x hs)"

definition init_mongo_hosts :: "('x) cfg_ext_scheme \<Rightarrow> (configwrap, int) action" where
  "init_mongo_hosts x =
     act_bind (get_key ''mongo.hosts'') (\<lambda>hosts. add_mongo_hosts x (split_str x (CHR '','') hosts))"

definition init_zookeeper :: "('x) cfg_ext_scheme \<Rightarrow> (configwrap, int) action" where
  "init_zookeeper x =
     act_bind (get_key ''zookeeper.url'') (\<lambda>zookeeper_path.
     act_bind (get_int_key x ''zookeeper.timeout'') (\<lambda>zk_timeout.
     if zookeeper_path = [] then act_ret (-1)
     else if zk_init x zookeeper_path (if 0 < zk_timeout then Some zk_timeout else None) \<noteq> 0
     then act_ret (-1)
     else
     act_bind (get_key ''zookeeper.serverlist_path'') (\<lambda>serverlist_path.
     if serverlist_path = [] then act_ret (-1) else
     act_bind (get_key ''zookeeper.disable_serverlist_path'') (\<lambda>disable_serverlist_path.
     if disable_serverlist_path = [] then act_ret (-1) else
     if svlst_init x serverlist_path disable_serverlist_path \<noteq> 0 then act_ret (-1) else
     act_bind (get_key ''zookeeper.session_path'') (\<lambda>sp.
     act_do (\<lambda>c. c\<lparr>session_path := sp\<rparr>) (
     if sp = [] then act_ret (-1) else
     act_bind (get_key ''zookeeper.session_path_bak'') (\<lambda>spb.
     act_do (\<lambda>c. c\<lparr>session_path_bak := spb\<rparr>) (
     if spb = [] then act_ret (-1) else
     act_bind (get_key ''zookeeper.db_group_path'') (\<lambda>dgp.
     act_do (\<lambda>c. c\<lparr>db_group_path := dgp\<rparr>) (
     if dgp = [] then act_ret (-1) else
     act_do (\<lambda>c. if svlst_all x = [] then c
                 else c\<lparr>server_map := insert_servers (svlst_all x) (server_map c)\<rparr>)
     (act_ret 0)))))))))))"

text \<open>\<^verbatim>\<open>configwrap::init\<close>, as built without KAFKAVERSION.\<close>

definition cfg_init :: "('x) cfg_ext_scheme \<Rightarrow> string \<Rightarrow> (configwrap, int) action" where
  "cfg_init x path =
     (if \<not> file_exists x path then act_ret (-1) else
      act_do (\<lambda>c. c\<lparr>cfg_path := path\<rparr>) (
      act_bind (act_opt (\<lambda>_. read_ini x path)) (\<lambda>tree.
      act_do (\<lambda>c. c\<lparr>pt := tree\<rparr>) (
      act_bind (get_int_key x ''session.port'') (\<lambda>port.
      act_do (\<lambda>c. c\<lparr>cfg_port := port\<rparr>) (
      act_bind (get_int_key x ''session.task_thread_count'') (\<lambda>n.
      act_do (\<lambda>c. c\<lparr>thread_cout := n\<rparr>) (
      act_bind (get_int_key x ''session.io_pool_size'') (\<lambda>n.
      act_do (\<lambda>c. c\<lparr>io_pool_size := n\<rparr>) (
      if port = 0 then act_ret (-1) else
      act_bind (get_int_key x ''session.connect_count'') (\<lambda>n.
      act_do (\<lambda>c. c\<lparr>connect_count := n\<rparr>) (
      act_bind (get_int_key x ''session.heart_second'') (\<lambda>n.
      act_do (\<lambda>c. c\<lparr>heart_second := n\<rparr>) (
      act_bind (get_key ''session.reply_domain'') (\<lambda>d.
      act_do (\<lambda>c. c\<lparr>reply_domain := d\<rparr>) (
      act_bind (get_key ''session.post_topic_domain'') (\<lambda>d.
      act_do (\<lambda>c. c\<lparr>post_topic_domain := d\<rparr>) (
      act_bind (get_key ''session.robot_domain'') (\<lambda>d.
      act_do (\<lambda>c. c\<lparr>robot_domain := d\<rparr>) (
      act_bind (get_uint_key x ''session.task_queue_max'') (\<lambda>n.
      act_do (\<lambda>c. c\<lparr>task_queue_max := n\<rparr>) (
      act_bind (get_uint_default x ''session.zookeeper_support'' 0) (\<lambda>zookeeper_support.
      act_bind (get_key ''session.python_root'') (\<lambda>d.
      act_do (\<lambda>c. c\<lparr>python_root := d\<rparr>) (
      act_bind (init_mongo_hosts x) (\<lambda>_.
      if zookeeper_support = 1 then init_zookeeper x else act_ret 0
      ))))))))))))))))))))))))))"

subsection \<open>The older server list (init_session_n_srvlist)\<close>

text \<open>
  The loop that pairs each url with its backup. \<^verbatim>\<open>i <= size - 1\<close> compares \<^verbatim>\<open>size_t\<close> values, so
  with an empty backup vector the bound wraps to the largest \<^verbatim>\<open>size_t\<close>; an index past the
  vector is \<^const>\<open>None\<close>.
\<close>

fun pair_urls :: "nat \<Rightarrow> string list \<Rightarrow> string list \<Rightarrow> (string, string) std_map \<Rightarrow> (string, string) std_map option" where
  "pair_urls i baks [] m = Some m"
| "pair_urls i baks (u # us) m =
     (if i \<le> (if length baks = 0 then 2 ^ 64 - 1 else length baks - 1)
      then if i < length baks then pair_urls (Suc i) baks us (map_put u (baks ! i) m) else None
      else pair_urls (Suc i) baks us (map_put u [] m))"

fun add_sids :: "('x) cfg_ext_scheme \<Rightarrow> string list \<Rightarrow> (configwrap, int) action" where
  "add_sids x [] = act_ret 0"
| "add_sids x (sid # sids) =
     act_bind (act_opt (\<lambda>_. lexical_int x sid)) (\<lambda>key.
     act_bind (get_key (''session.'' @ sid)) (\<lambda>a.
     act_do (\<lambda>c. c\<lparr>server_map := map_insert key (''server:'' @ a) (server_map c)\<rparr>)
     (add_sids x sids)))"

definition init_session_n_srvlist :: "('x) cfg_ext_scheme \<Rightarrow> (configwrap, int) action" where
  "init_session_n_srvlist x =
     act_bind (get_key ''session.dburls'') (\<lambda>s.
     act_do (\<lambda>c. c\<lparr>dburls := split_str x (CHR '','') s\<rparr>) (
     act_bind (get_key ''session.bakdburls'') (\<lambda>s.
     act_do (\<lambda>c. c\<lparr>bakdburls := split_str x (CHR '','') s\<rparr>) (
     act_bind (get_key ''session.dbservlist'') (\<lambda>dbservs.
     act_bind (get_key ''session.bakservlist'') (\<lambda>dbbakservs.
     act_bind (get_key ''messagebox.msg_cache_url'') (\<lambda>msg_cache_url.
     act_bind (get_key ''messagebox.bakmsg_chache_url'') (\<lambda>bakmsg_cache_url.
     act_bind (act_opt (\<lambda>c. pair_urls 0 (split_str x (CHR '','') bakmsg_cache_url)
                   (split_str x (CHR '','') msg_cache_url) (message_box_urls c))) (\<lambda>m.
     act_do (\<lambda>c. c\<lparr>message_box_urls := m\<rparr>) (
     act_bind (act_opt (\<lambda>c. pair_urls 0 (bakdburls c) (dburls c) (db_bak_urls c))) (\<lambda>m.
     act_do (\<lambda>c. c\<lparr>db_bak_urls := m\<rparr>) (\<lambda>c.
     if sess_cache_init x (dburls c) (bakdburls c) \<noteq> 0 then act_ret (-1) c
     else let serv_cfgs = servlist_cache_list x (split_str x (CHR '','') dbservs)
                            (split_str x (CHR '','') dbbakservs)
     in if serv_cfgs = []
        then act_bind (get_key ''session.sids'') (\<lambda>sids.
               if sids = [] then act_ret (-1) else add_sids x (split_str x (CHR '','') sids)) c
        else (Ret 0, c\<lparr>server_map := insert_servers serv_cfgs (server_map c)\<rparr>)))))))))))))"

subsection \<open>Lemmas\<close>

lemma key_Ret:
  "get_key p c = (Ret a, c') \<longleftrightarrow> pt c p = Some a \<and> c' = c"
  "get_int_key x p c = (Ret i, c') \<longleftrightarrow> Option.bind (pt c p) (to_int x) = Some i \<and> c' = c"
  "get_uint_key x p c = (Ret n, c') \<longleftrightarrow> Option.bind (pt c p) (to_uint x) = Some n \<and> c' = c"
  by (simp_all add: get_key_def get_int_key_def get_uint_key_def act_opt_Ret)

definition mongo_entry :: "('x) cfg_ext_scheme \<Rightarrow> string \<Rightarrow> bool" where
  "mongo_entry x e \<longleftrightarrow> length (split_str x (CHR '':'') e) = 2"

definition mongo_host :: "('x) cfg_ext_scheme \<Rightarrow> string \<Rightarrow> (string \<times> int) option" where
  "mongo_host x e = (let v = split_str x (CHR '':'') e in map_option (Pair (v ! 0)) (lexical_int x (v ! 1)))"

lemma add_mongo_hosts_result:
  "add_mongo_hosts x hs c =
     (let es = filter (mongo_entry x) hs; good = takeWhile (\<lambda>e. mongo_host x e \<noteq> None) es
      in (if \<forall>e \<in> set es. mongo_host x e \<noteq> None then Ret 0 else Throws,
          c\<lparr>mongo_hosts := mongo_hosts c @ map (the \<circ> mongo_host x) good\<rparr>))"
proof (induction hs arbitrary: c)
  case Nil
  then show ?case by (simp add: act_ret_def)
next
  case (Cons e hs)
  show ?case
  proof (cases "mongo_entry x e")
    case False
    with Cons show ?thesis by (simp add: mongo_entry_def Let_def)
  next
    case True
    with Cons show ?thesis
      by (cases "lexical_int x (split_str x (CHR '':'') e ! 1)")
        (simp_all add: mongo_entry_def mongo_host_def Let_def act_defs)
  qed
qed

definition same_settings :: "configwrap \<Rightarrow> configwrap \<Rightarrow> bool" where
  "same_settings c' c \<longleftrightarrow>
     pt c' = pt c \<and> cfg_port c' = cfg_port c \<and> connect_count c' = connect_count c \<and>
     heart_second c' = heart_second c \<and> thread_cout c' = thread_cout c \<and>
     io_pool_size c' = io_pool_size c \<and> task_queue_max c' = task_queue_max c \<and>
     reply_domain c' = reply_domain c \<and> post_topic_domain c' = post_topic_domain c \<and>
     robot_domain c' = robot_domain c \<and> python_root c' = python_root c \<and>
     id_next c' = id_next c \<and> send_count_id c' = send_count_id c"

lemma init_mongo_hosts_frame:
  assumes "init_mongo_hosts x c = (r, c')"
  shows "same_settings c' c \<and> server_map c' = server_map c"
proof (cases "pt c ''mongo.hosts''")
  case None
  with assms show ?thesis
    by (auto simp: init_mongo_hosts_def get_key_def act_opt_def act_bind_def same_settings_def)
next
  case (Some hs)
  with assms have "c' = snd (add_mongo_hosts x (split_str x (CHR '','') hs) c)"
    by (simp add: init_mongo_hosts_def get_key_def act_opt_def act_bind_def)
  then show ?thesis by (simp add: add_mongo_hosts_result Let_def same_settings_def)
qed

lemma insert_servers_if:
  "(if scs = [] then c else c\<lparr>server_map := insert_servers scs (server_map c)\<rparr>) =
   c\<lparr>server_map := insert_servers scs (server_map c)\<rparr>"
  by simp

lemma keeps_get [intro]: "keeps P (get_key p)" "keeps P (get_int_key x p)" "keeps P (get_uint_key x p)"
  by (auto simp: get_key_def get_int_key_def get_uint_key_def)

lemma init_zookeeper_keeps: "keeps (\<lambda>s. same_settings s c \<and> mongo_hosts s = mongo_hosts c) (init_zookeeper x)"
  unfolding init_zookeeper_def
  by (intro keeps_bind keeps_do keeps_if keeps_get keeps_ret) (auto simp: same_settings_def)

lemma init_zookeeper_frame:
  "init_zookeeper x c = (r, c') \<Longrightarrow> same_settings c' c \<and> mongo_hosts c' = mongo_hosts c"
  using keepsD [OF init_zookeeper_keeps, of c c x r c'] by (simp add: same_settings_def)

lemma init_zookeeper_server_map:
  "init_zookeeper x c = (Ret 0, c') \<Longrightarrow> server_map c' = insert_servers (svlst_all x) (server_map c)"
  unfolding init_zookeeper_def act_do_def insert_servers_if
  by (clarsimp simp: act_bind_Ret key_Ret act_ret_def split: if_split_asm)

lemma map_of_insert_servers:
  "map_of (insert_servers scs m) i =
     (case map_of m i of Some a \<Rightarrow> Some a
      | None \<Rightarrow> map_option server_addr (find (\<lambda>sc. sv_id sc = i) scs))"
  by (induction scs arbitrary: m) (auto simp: map_of_insert split: option.splits)

lemma pair_urls_result:
  assumes "baks \<noteq> []"
  shows "\<exists>m'. pair_urls i baks us m = Some m' \<and> (\<forall>u. u \<notin> set us \<longrightarrow> map_of m' u = map_of m u) \<and>
     (distinct us \<longrightarrow> (\<forall>k < length us. map_of m' (us ! k) =
        Some (if i + k < length baks then baks ! (i + k) else [])))"
proof (induction us arbitrary: i m)
  case Nil
  then show ?case by simp
next
  case (Cons u us)
  let ?v = "if i < length baks then baks ! i else []"
  have step: "pair_urls i baks (u # us) m = pair_urls (Suc i) baks us (map_put u ?v m)"
    using assms by (cases baks) auto
  from Cons.IH [of "Suc i" "map_put u ?v m"] obtain m' where m':
    "pair_urls (Suc i) baks us (map_put u ?v m) = Some m'"
    "\<forall>w. w \<notin> set us \<longrightarrow> map_of m' w = map_of (map_put u ?v m) w"
    "distinct us \<longrightarrow> (\<forall>k < length us. map_of m' (us ! k) =
        Some (if Suc i + k < length baks then baks ! (Suc i + k) else []))" by blast
  have "distinct (u # us) \<longrightarrow> (\<forall>k < length (u # us). map_of m' ((u # us) ! k) =
        Some (if i + k < length baks then baks ! (i + k) else []))"
  proof (intro impI allI)
    fix k assume "distinct (u # us)" "k < length (u # us)"
    with m' show "map_of m' ((u # us) ! k) = Some (if i + k < length baks then baks ! (i + k) else [])"
      by (cases k) auto
  qed
  with m' step show ?case by (intro exI [of _ m']) auto
qed

lemma cfg_id_step:
  assumes "0 \<le> sint (id_next c)"
  shows "sint (fst (cfg_id c)) = sint (id_next c) mod (2 ^ 63 - 1) \<and>
     sint (id_next (snd (cfg_id c))) = sint (fst (cfg_id c)) + 1"
proof -
  let ?i = "if 9223372036854775807 \<le> sint (id_next c) then 0 else id_next c"
  have b: "sint (id_next c) < 2 ^ 63"
    using sint_range_size [of "id_next c"] by (simp add: word_size)
  have i: "sint ?i = sint (id_next c) mod (2 ^ 63 - 1)" "0 \<le> sint ?i" "sint ?i < 2 ^ 63 - 1"
    using b assms mod_wrap(3) [of "2 ^ 63 - 1" "sint (id_next c)"] by (auto simp: not_le)
  have "sint (?i + 1) = signed_take_bit 63 (sint ?i + 1)"
    using sint_word_ariths(1) [of ?i 1] by simp
  also have "\<dots> = sint ?i + 1"
    using i by (intro signed_take_bit_int_eq_self) auto
  finally show ?thesis using i by (simp add: cfg_id_def Let_def)
qed

fun cfg_ids :: "nat \<Rightarrow> configwrap \<Rightarrow> int64 list" where
  "cfg_ids 0 c = []"
| "cfg_ids (Suc n) c = (let (i, c') = cfg_id c in i # cfg_ids n c')"

lemma cfg_ids_nth:
  "0 \<le> sint (id_next c) \<Longrightarrow> k < n \<Longrightarrow>
     sint (cfg_ids n c ! k) = (sint (id_next c) + int k) mod (2 ^ 63 - 1)"
proof (induction n arbitrary: c k)
  case 0
  then show ?case by simp
next
  case (Suc n)
  obtain i c' where ic: "cfg_id c = (i, c')" by (cases "cfg_id c")
  with cfg_id_step [OF Suc.prems(1)]
  have i: "sint i = sint (id_next c) mod (2 ^ 63 - 1)" and n: "sint (id_next c') = sint i + 1" by auto
  then have "0 \<le> sint (id_next c')" by simp
  show ?case
  proof (cases k)
    case 0
    with ic i show ?thesis by simp
  next
    case (Suc j)
    then have "sint (cfg_ids (Suc n) c ! k) = (sint (id_next c) mod (2 ^ 63 - 1) + 1 + int j) mod (2 ^ 63 - 1)"
      using Suc.IH [OF \<open>0 \<le> sint (id_next c')\<close>, of j] Suc.prems(2) ic i n by simp
    also have "\<dots> = (sint (id_next c) + int k) mod (2 ^ 63 - 1)"
      using mod_add_left_eq [of "sint (id_next c)" "2 ^ 63 - 1" "1 + int j"] Suc by (simp add: add.assoc)
    finally show ?thesis .
  qed
qed

text \<open>A concrete environment, for the witnesses.\<close>

lemma cfg_init_port: "cfg_init x path c = (Ret 0, c') \<Longrightarrow> cfg_port c' \<noteq> 0"
  by (auto simp: cfg_init_def act_bind_Ret key_Ret act_opt_Ret act_do_def act_ret_def get_uint_default_def
      same_settings_def split: if_split_asm dest!: init_mongo_hosts_frame init_zookeeper_frame)

definition demo_ext :: cfg_ext where
  "demo_ext =
     \<lparr>split_str = split_ref, to_int = (\<lambda>s. Some (int (read_nat s))), to_uint = (\<lambda>s. Some (read_nat s)),
      lexical_int = (\<lambda>s. if s = [] then None else Some (int (read_nat s))),
      file_exists = (\<lambda>_. True),
      read_ini = (\<lambda>_. Some (\<lambda>_. Some ''1'')),
      zk_init = (\<lambda>_ _. 0), svlst_init = (\<lambda>_ _. 0),
      svlst_all = [\<lparr>sv_id = 1, ipaddr = ''10.0.0.1'', sv_port = 80\<rparr>],
      sess_cache_init = (\<lambda>_ _. 0), servlist_cache_list = (\<lambda>_ _. [])\<rparr>"

subsection \<open>Properties\<close>

text \<open>\<^verbatim>\<open>configwrap::id()\<close>: from the constructed object, the k-th call (from 0) returns
  (k + 1) mod (2^63 - 1), so ids are never negative, the signed increment never overflows, and
  2^63 - 1 consecutive ids are distinct.\<close>

lemma ids_cycle:
  assumes "k < n"
  shows "sint (cfg_ids n (configwrap_new hc q) ! k) = (int k + 1) mod (2 ^ 63 - 1)"
  using cfg_ids_nth [of "configwrap_new hc q" k n] assms
  by (simp add: configwrap_new_def add.commute)

lemma ids_cycle_witness: "sint (cfg_ids 3 (configwrap_new 4 0) ! 2) = 3"
  using ids_cycle [of 2 3 4 0] by simp

text \<open>When \<^verbatim>\<open>init\<close> returns 0, the file exists, and every setting is the parsed value of its
  key: nonzero port, thread and pool counts, connection count, heart beat, queue limit, domains
  and Python root; the counters are untouched.\<close>

lemma cfg_init_reads_all:
  assumes "cfg_init x path c = (Ret 0, c')"
  shows "\<exists>tree. file_exists x path \<and> read_ini x path = Some tree \<and> pt c' = tree \<and> cfg_port c' \<noteq> 0 \<and>
     Option.bind (tree ''session.port'') (to_int x) = Some (cfg_port c') \<and>
     Option.bind (tree ''session.task_thread_count'') (to_int x) = Some (thread_cout c') \<and>
     Option.bind (tree ''session.io_pool_size'') (to_int x) = Some (io_pool_size c') \<and>
     Option.bind (tree ''session.connect_count'') (to_int x) = Some (connect_count c') \<and>
     Option.bind (tree ''session.heart_second'') (to_int x) = Some (heart_second c') \<and>
     Option.bind (tree ''session.task_queue_max'') (to_uint x) = Some (task_queue_max c') \<and>
     tree ''session.reply_domain'' = Some (reply_domain c') \<and>
     tree ''session.post_topic_domain'' = Some (post_topic_domain c') \<and>
     tree ''session.robot_domain'' = Some (robot_domain c') \<and>
     tree ''session.python_root'' = Some (python_root c') \<and>
     id_next c' = id_next c \<and> send_count_id c' = send_count_id c"
  using assms
  by (auto simp: cfg_init_def act_bind_Ret key_Ret act_opt_Ret act_do_def act_ret_def get_uint_default_def
      same_settings_def split: if_split_asm dest!: init_mongo_hosts_frame init_zookeeper_frame)

lemma cfg_init_reads_all_witness:
  "fst (cfg_init demo_ext ''/etc/x.ini'' (configwrap_new 4 0)) = Ret 0 \<and>
   cfg_port (snd (cfg_init demo_ext ''/etc/x.ini'' (configwrap_new 4 0))) \<noteq> 0 \<and>
   id_next (snd (cfg_init demo_ext ''/etc/x.ini'' (configwrap_new 4 0))) = 1"
proof -
  let ?r = "cfg_init demo_ext ''/etc/x.ini'' (configwrap_new 4 0)"
  have r: "fst ?r = Ret 0" by code_simp
  then have "?r = (Ret 0, snd ?r)" by (metis prod.collapse)
  from cfg_init_reads_all [OF this] r show ?thesis by (simp add: configwrap_new_def)
qed

text \<open>\<^verbatim>\<open>init_mongo_hosts\<close> keeps, in order, exactly the comma-separated entries with one colon,
  as host and port; it throws exactly when the key is missing or one of those entries has a
  port that \<^verbatim>\<open>lexical_cast\<close> rejects.\<close>

lemma init_mongo_hosts_exact:
  "init_mongo_hosts x c =
     (case pt c ''mongo.hosts'' of None \<Rightarrow> (Throws, c)
      | Some hs \<Rightarrow>
          let es = filter (mongo_entry x) (split_str x (CHR '','') hs);
              good = takeWhile (\<lambda>e. mongo_host x e \<noteq> None) es
          in (if \<forall>e \<in> set es. mongo_host x e \<noteq> None then Ret 0 else Throws,
              c\<lparr>mongo_hosts := mongo_hosts c @ map (the \<circ> mongo_host x) good\<rparr>))"
  by (simp add: init_mongo_hosts_def get_key_def act_opt_def act_bind_def add_mongo_hosts_result
      split: option.split)

lemma init_mongo_hosts_exact_witness:
  "init_mongo_hosts demo_ext ((configwrap_new 4 0)\<lparr>pt := [''mongo.hosts'' \<mapsto> ''a:1,b,c:23'']\<rparr>) =
     (Ret 0, (configwrap_new 4 0)\<lparr>pt := [''mongo.hosts'' \<mapsto> ''a:1,b,c:23''],
        mongo_hosts := [(''a'', 1), (''c'', 23)]\<rparr>)"
proof -
  let ?es = "filter (mongo_entry demo_ext) (split_str demo_ext (CHR '','') ''a:1,b,c:23'')"
  have "?es = [''a:1'', ''c:23'']" "mongo_host demo_ext ''a:1'' = Some (''a'', 1)"
    "mongo_host demo_ext ''c:23'' = Some (''c'', 23)" by code_simp+
  then show ?thesis
    unfolding init_mongo_hosts_exact by (simp add: Let_def configwrap_new_def)
qed

text \<open>After a successful \<^verbatim>\<open>init_zookeeper\<close> the server map binds each listed id, unless it was
  bound before, to the address of its first entry: \<^verbatim>\<open>insert\<close> does not overwrite.\<close>

lemma zookeeper_first_entry_wins:
  assumes "init_zookeeper x c = (Ret 0, c')"
  shows "map_of (server_map c') i =
     (case map_of (server_map c) i of Some a \<Rightarrow> Some a
      | None \<Rightarrow> map_option server_addr (find (\<lambda>sc. sv_id sc = i) (svlst_all x)))"
  by (simp add: init_zookeeper_server_map [OF assms] map_of_insert_servers)

lemma zookeeper_first_entry_wins_witness:
  "map_of (server_map (snd (init_zookeeper demo_ext ((configwrap_new 4 0)\<lparr>pt := \<lambda>_. Some ''1''\<rparr>)))) 1 =
     Some ''server:10.0.0.1:80''"
proof -
  let ?r = "init_zookeeper demo_ext ((configwrap_new 4 0)\<lparr>pt := \<lambda>_. Some ''1''\<rparr>)"
  have "fst ?r = Ret 0" by code_simp
  then have "?r = (Ret 0, snd ?r)" by (metis prod.collapse)
  from zookeeper_first_entry_wins [OF this, of 1] show ?thesis
    by (simp add: configwrap_new_def demo_ext_def server_addr_def) code_simp
qed

text \<open>The url-to-backup loop of \<^verbatim>\<open>init_session_n_srvlist\<close> never indexes past the backup
  vector: \<^verbatim>\<open>split\<close> yields at least one token, so the \<^verbatim>\<open>size_t\<close> bound \<^verbatim>\<open>size - 1\<close> does not wrap;
  distinct urls are bound to the backup at their position, or to the empty string.\<close>

lemma url_pairs_in_bounds:
  assumes "split_ok split"
  shows "\<exists>m'. pair_urls 0 (split (CHR '','') baks) us m = Some m' \<and>
     (distinct us \<longrightarrow> (\<forall>k < length us. map_of m' (us ! k) =
        Some (if k < length (split (CHR '','') baks) then split (CHR '','') baks ! k else [])))"
proof -
  have "split (CHR '','') baks \<noteq> []" using assms by (simp add: split_ok_def)
  from pair_urls_result [OF this, of 0 us m] show ?thesis by auto
qed

end
