(* ===== verification/TaskQueue.thy ===== *)
theory TaskQueue
  imports FifoContract MessageFormat
begin

text \<open>
  The task queue and its workers: \<^verbatim>\<open>task_base\<close> (src/task_base.cpp, include/task_base.h) with
  \<^verbatim>\<open>session_task::full_queue_event\<close> (src/session_task.cpp), and the stop sequence of
  \<^verbatim>\<open>io_service_provide::stop\<close> (include/io_service_provide.h). The operations are functions on the
  object; the threads running \<^verbatim>\<open>work()\<close> are a step relation over program counters with the mutex
  explicit, because \<^verbatim>\<open>stop_\<close> is read and written without it.
\<close>

subsection \<open>The object and its operations\<close>

record task_base =
  deque :: "message_format list"
  stop :: bool

definition task_base_new :: task_base where
  "task_base_new = \<lparr>deque = [], stop = False\<rparr>"

type_synonym task = "string \<times> head \<times> bytes"

definition task_push :: "message_format \<Rightarrow> task_base \<Rightarrow> task_base" where
  "task_push mf q = q\<lparr>deque := deque q @ [mf]\<rparr>"

text \<open>\<^verbatim>\<open>data.assign(body().data(), body().data() + body_length())\<close> reads past the vector when the
  declared length is larger than it; that is the value \<open>None\<close>.\<close>

definition body_data :: "message_format \<Rightarrow> bytes option" where
  "body_data m = (if mf_body_length m \<le> length (mf_body m)
     then Some (take (mf_body_length m) (mf_body m)) else None)"

definition full_queue_event :: "bytes \<times> head \<Rightarrow> bytes \<times> head" where
  "full_queue_event p = (case p of (data, h) \<Rightarrow> (data, h\<lparr>cmd := 1010\<rparr>))"

text \<open>\<^verbatim>\<open>try_pop\<close>: false on an empty queue, otherwise the front with its declared body, marked as
  busy when more than \<^verbatim>\<open>task_queue_max\<close> messages (this one included) were queued.\<close>

definition try_pop :: "nat \<Rightarrow> task_base \<Rightarrow> (task option \<times> task_base) option" where
  "try_pop task_queue_max q =
     (case deque q of
        [] \<Rightarrow> Some (None, q)
      | m # ms \<Rightarrow>
          (case body_data m of None \<Rightarrow> None
           | Some d \<Rightarrow>
               let (data, h) = (if task_queue_max < length (deque q)
                                then full_queue_event (d, meet_head m) else (d, meet_head m))
               in Some (Some (mf_remote_id m, h, data), q\<lparr>deque := ms\<rparr>)))"

text \<open>\<^verbatim>\<open>wait_and_pop\<close> after its wait loop: the loop is left when \<open>must_wait\<close> is false.\<close>

definition must_wait :: "task_base \<Rightarrow> bool" where
  "must_wait q \<longleftrightarrow> deque q = [] \<and> \<not> stop q"

definition pop_waited :: "task_base \<Rightarrow> (task outcome \<times> task_base) option" where
  "pop_waited q =
     (if stop q then Some (Throws, q)
      else case deque q of
          [] \<Rightarrow> None
        | m # ms \<Rightarrow>
            (case body_data m of None \<Rightarrow> None
             | Some d \<Rightarrow> Some (Ret (mf_remote_id m, meet_head m, d), q\<lparr>deque := ms\<rparr>)))"

definition task_stop :: "task_base \<Rightarrow> task_base" where
  "task_stop q = q\<lparr>stop := True\<rparr>"

lemmas queue_defs = task_push_def try_pop_def must_wait_def pop_waited_def task_stop_def body_data_def
  full_queue_event_def

text \<open>What a worker is handed for a message.\<close>

definition task_of :: "message_format \<Rightarrow> task" where
  "task_of m = (mf_remote_id m, meet_head m, take (mf_body_length m) (mf_body m))"

definition busy_of :: "message_format \<Rightarrow> task" where
  "busy_of m = (case task_of m of (i, h, d) \<Rightarrow> (i, h\<lparr>cmd := 1010\<rparr>, d))"

definition body_fits :: "message_format \<Rightarrow> bool" where
  "body_fits m \<longleftrightarrow> mf_body_length m \<le> length (mf_body m)"

lemma try_pop_front:
  assumes "deque q = m # ms" "body_fits m"
  shows "try_pop mx q = Some (Some (if mx < length (deque q) then busy_of m else task_of m), q\<lparr>deque := ms\<rparr>)"
  using assms by (simp add: queue_defs body_fits_def busy_of_def task_of_def)

lemma pop_waited_front:
  assumes "deque q = m # ms" "body_fits m" "\<not> stop q"
  shows "pop_waited q = Some (Ret (task_of m), q\<lparr>deque := ms\<rparr>)"
  using assms by (simp add: queue_defs body_fits_def task_of_def)

text \<open>The queue as a channel; the limit only changes the mark, so any value will do.\<close>

definition pop_message :: "task_base \<Rightarrow> (message_format \<times> task_base) option" where
  "pop_message q = (case try_pop 0 q of Some (Some t, q') \<Rightarrow> Some (hd (deque q), q') | _ \<Rightarrow> None)"

definition queue_ok :: "task_base \<Rightarrow> bool" where
  "queue_ok q \<longleftrightarrow> list_all body_fits (deque q)"

interpretation tq: fifo body_fits queue_ok deque task_push pop_message
proof unfold_locales
  fix s assume "queue_ok s"
  then show "pop_message s = None \<longleftrightarrow> deque s = []"
    by (cases "deque s") (auto simp: queue_ok_def pop_message_def try_pop_front, simp add: queue_defs)
next
  fix s x s' assume "queue_ok s" "pop_message s = Some (x, s')"
  then show "queue_ok s' \<and> deque s = x # deque s'"
    by (cases "deque s") (auto simp: queue_ok_def pop_message_def try_pop_front, simp_all add: queue_defs)
qed (auto simp: queue_ok_def task_push_def)

subsection \<open>Workers\<close>

text \<open>
  One value per place of \<^verbatim>\<open>work()\<close> where another thread may step in: the call of
  \<^verbatim>\<open>init_cache_map\<close> it begins with, the loop condition with the interruption point, the call of \<^verbatim>\<open>try_pop\<close>, entering \<^verbatim>\<open>wait_and_pop\<close>, the wait loop's condition
  (mutex held), the call of \<^verbatim>\<open>condition_.wait\<close> (mutex still held), asleep, woken but without the
  mutex, inside \<^verbatim>\<open>do_work\<close>, and returned. \<^verbatim>\<open>do_work\<close> catches what the responsers throw.
\<close>

datatype worker = Starting | Loop_Top | Trying | Entering | Testing | Will_Wait | Asleep | Woken | Working task | Ended

text \<open>
  \<open>pending\<close> counts the \<^verbatim>\<open>notify_one\<close> calls that follow a push and have not run yet;
  \<open>stop_pc\<close> is the progress of \<^verbatim>\<open>io_service_provide::stop\<close>: \<^verbatim>\<open>stop()\<close>, \<^verbatim>\<open>notifiy_all()\<close>,
  \<^verbatim>\<open>interrupt_all()\<close>, done. \<open>pushed\<close> and \<open>handed\<close> record what went in and what came out.
\<close>

record pool =
  queue :: task_base
  lock :: "nat option"
  workers :: "nat \<Rightarrow> worker"
  interrupted :: bool
  pending :: nat
  stop_pc :: nat
  pushed :: "message_format list"
  handed :: "task list"

definition pool_new :: pool where
  "pool_new = \<lparr>queue = task_base_new, lock = None, workers = (\<lambda>_. Starting), interrupted = False,
     pending = 0, stop_pc = 0, pushed = [], handed = []\<rparr>"

definition set_worker :: "nat \<Rightarrow> worker \<Rightarrow> pool \<Rightarrow> pool" where
  "set_worker i pc p = p\<lparr>workers := (workers p)(i := pc)\<rparr>"

text \<open>What worker \<open>i\<close> does next; no value while it has to wait for the mutex or to be woken, or when
  a pop would read out of bounds.\<close>

definition worker_next :: "nat \<Rightarrow> nat \<Rightarrow> pool \<Rightarrow> pool option" where
  "worker_next mx i p =
     (case workers p i of
        Starting \<Rightarrow> Some (set_worker i Loop_Top p)
      | Loop_Top \<Rightarrow> Some (set_worker i (if stop (queue p) \<or> interrupted p then Ended else Trying) p)
      | Trying \<Rightarrow>
          if lock p \<noteq> None then None
          else map_option (\<lambda>(r, q). case r of
                  None \<Rightarrow> set_worker i Entering p
                | Some t \<Rightarrow> (set_worker i (Working t) p)\<lparr>queue := q, handed := handed p @ [t]\<rparr>)
                (try_pop mx (queue p))
      | Entering \<Rightarrow> if lock p \<noteq> None then None else Some ((set_worker i Testing p)\<lparr>lock := Some i\<rparr>)
      | Testing \<Rightarrow>
          if must_wait (queue p) then Some (set_worker i Will_Wait p)
          else map_option (\<lambda>(r, q). case r of
                  Throws \<Rightarrow> (set_worker i Ended p)\<lparr>lock := None\<rparr>
                | Ret t \<Rightarrow> (set_worker i (Working t) p)\<lparr>lock := None, queue := q, handed := handed p @ [t]\<rparr>)
                (pop_waited (queue p))
      | Will_Wait \<Rightarrow> Some ((set_worker i (if interrupted p then Ended else Asleep) p)\<lparr>lock := None\<rparr>)
      | Asleep \<Rightarrow> if interrupted p then Some (set_worker i Woken p) else None
      | Woken \<Rightarrow>
          if lock p \<noteq> None then None
          else Some (if interrupted p then set_worker i Ended p else (set_worker i Testing p)\<lparr>lock := Some i\<rparr>)
      | Working t \<Rightarrow> Some (set_worker i Loop_Top p)
      | Ended \<Rightarrow> None)"

definition notify_all :: "pool \<Rightarrow> pool" where
  "notify_all p = p\<lparr>workers := (\<lambda>i. if workers p i = Asleep then Woken else workers p i)\<rparr>"

text \<open>The steps of a pool of \<open>n\<close> workers and its surroundings. \<open>wakes\<close> covers spurious wake-ups.\<close>

inductive pool_step :: "nat \<Rightarrow> nat \<Rightarrow> pool \<Rightarrow> pool \<Rightarrow> bool" for mx n where
  worker: "i < n \<Longrightarrow> worker_next mx i p = Some p' \<Longrightarrow> pool_step mx n p p'"
| push: "lock p = None \<Longrightarrow> body_fits m \<Longrightarrow>
     pool_step mx n p (p\<lparr>queue := task_push m (queue p), pushed := pushed p @ [m], pending := Suc (pending p)\<rparr>)"
| notify_one: "0 < pending p \<Longrightarrow> i < n \<Longrightarrow> workers p i = Asleep \<Longrightarrow>
     pool_step mx n p ((set_worker i Woken p)\<lparr>pending := pending p - 1\<rparr>)"
| notify_none: "0 < pending p \<Longrightarrow> \<forall>i < n. workers p i \<noteq> Asleep \<Longrightarrow>
     pool_step mx n p (p\<lparr>pending := pending p - 1\<rparr>)"
| wakes: "i < n \<Longrightarrow> workers p i = Asleep \<Longrightarrow> pool_step mx n p (set_worker i Woken p)"
| stops: "stop_pc p = 0 \<Longrightarrow> pool_step mx n p (p\<lparr>queue := task_stop (queue p), stop_pc := 1\<rparr>)"
| notifies: "stop_pc p = 1 \<Longrightarrow> pool_step mx n p ((notify_all p)\<lparr>stop_pc := 2\<rparr>)"
| interrupts: "stop_pc p = 2 \<Longrightarrow> pool_step mx n p (p\<lparr>interrupted := True, stop_pc := 3\<rparr>)"

inductive pool_reach :: "nat \<Rightarrow> nat \<Rightarrow> pool \<Rightarrow> bool" for mx n where
  start: "pool_reach mx n pool_new"
| step: "pool_reach mx n p \<Longrightarrow> pool_step mx n p p' \<Longrightarrow> pool_reach mx n p'"

subsection \<open>The invariant\<close>

definition holds_lock :: "worker \<Rightarrow> bool" where
  "holds_lock w \<longleftrightarrow> w = Testing \<or> w = Will_Wait"

definition active :: "worker \<Rightarrow> bool" where
  "active w \<longleftrightarrow> w \<noteq> Asleep \<and> w \<noteq> Ended"

definition handed_ok :: "pool \<Rightarrow> bool" where
  "handed_ok p \<longleftrightarrow> (\<exists>ds. pushed p = ds @ deque (queue p) \<and>
     list_all2 (\<lambda>m t. t = task_of m \<or> t = busy_of m) ds (handed p))"

definition lock_ok :: "nat \<Rightarrow> pool \<Rightarrow> bool" where
  "lock_ok n p \<longleftrightarrow> (\<forall>i. holds_lock (workers p i) \<longleftrightarrow> lock p = Some i) \<and> (\<forall>i. lock p = Some i \<longrightarrow> i < n) \<and>
     (\<forall>i. workers p i = Will_Wait \<longrightarrow> deque (queue p) = [])"

definition stop_ok :: "nat \<Rightarrow> pool \<Rightarrow> bool" where
  "stop_ok n p \<longleftrightarrow> (stop (queue p) \<longleftrightarrow> 0 < stop_pc p) \<and> (interrupted p \<longleftrightarrow> stop_pc p = 3) \<and> stop_pc p \<le> 3 \<and>
     (\<forall>i. workers p i = Ended \<longrightarrow> stop (queue p))"

definition awake_ok :: "nat \<Rightarrow> pool \<Rightarrow> bool" where
  "awake_ok n p \<longleftrightarrow> deque (queue p) = [] \<or> stop (queue p) \<or> 0 < pending p \<or> n = 0 \<or> (\<exists>i < n. active (workers p i))"

definition pool_inv :: "nat \<Rightarrow> pool \<Rightarrow> bool" where
  "pool_inv n p \<longleftrightarrow> queue_ok (queue p) \<and> handed_ok p \<and> lock_ok n p \<and> stop_ok n p \<and> awake_ok n p"

lemma set_worker_simps [simp]:
  "workers (set_worker i pc p) j = (if j = i then pc else workers p j)"
  "queue (set_worker i pc p) = queue p" "lock (set_worker i pc p) = lock p"
  "interrupted (set_worker i pc p) = interrupted p" "pending (set_worker i pc p) = pending p"
  "stop_pc (set_worker i pc p) = stop_pc p" "pushed (set_worker i pc p) = pushed p"
  "handed (set_worker i pc p) = handed p"
  by (simp_all add: set_worker_def)

lemma pool_inv_new: "pool_inv n pool_new"
  by (simp add: pool_inv_def pool_new_def task_base_new_def queue_ok_def handed_ok_def lock_ok_def
      stop_ok_def awake_ok_def holds_lock_def)

text \<open>A pop takes the front message and leaves the rest; the two ways of popping.\<close>

lemma try_pop_cases:
  assumes "queue_ok q" "try_pop mx q = Some (r, q')"
  shows "deque q = [] \<and> r = None \<and> q' = q \<or>
     (\<exists>m t. deque q = m # deque q' \<and> stop q' = stop q \<and> r = Some t \<and> (t = task_of m \<or> t = busy_of m))"
proof (cases "deque q")
  case Nil
  with assms(2) show ?thesis by (simp add: try_pop_def)
next
  case (Cons m ms)
  with assms have "r = Some (if mx < length (deque q) then busy_of m else task_of m)" "q' = q\<lparr>deque := ms\<rparr>"
    by (auto simp: queue_ok_def try_pop_front)
  with Cons show ?thesis by (intro disjI2 exI [of _ m]) (simp split: if_splits)
qed

lemma pop_waited_cases:
  assumes "queue_ok q" "\<not> must_wait q" "pop_waited q = Some (r, q')"
  shows "stop q \<and> r = Throws \<and> q' = q \<or>
     (\<exists>m. \<not> stop q \<and> deque q = m # deque q' \<and> stop q' = stop q \<and> r = Ret (task_of m))"
proof (cases "stop q")
  case True
  with assms(3) show ?thesis by (simp add: pop_waited_def)
next
  case False
  with assms obtain m ms where "deque q = m # ms" by (cases "deque q") (auto simp: must_wait_def)
  with False assms pop_waited_front [of q m ms] show ?thesis by (auto simp: queue_ok_def)
qed

lemma pop_enabled:
  assumes "queue_ok q"
  shows "try_pop mx q \<noteq> None" "\<not> must_wait q \<Longrightarrow> pop_waited q \<noteq> None"
  using assms
  by (cases "deque q"; simp add: queue_ok_def queue_defs body_fits_def Let_def split: prod.split)+

lemma queue_ok_tl: "queue_ok q \<Longrightarrow> deque q = m # deque q' \<Longrightarrow> queue_ok q'"
  by (simp add: queue_ok_def)

lemma handed_ok_pop:
  assumes "handed_ok p" "deque (queue p) = m # deque q'" "t = task_of m \<or> t = busy_of m"
    and "pushed p' = pushed p" "handed p' = handed p @ [t]" "queue p' = q'"
  shows "handed_ok p'"
proof -
  from assms(1) obtain ds where "pushed p = ds @ deque (queue p)"
    "list_all2 (\<lambda>m t. t = task_of m \<or> t = busy_of m) ds (handed p)" by (auto simp: handed_ok_def)
  with assms(2-) show ?thesis
    unfolding handed_ok_def by (intro exI [of _ "ds @ [m]"]) (auto simp: list_all2_appendI)
qed

lemma awake_active: "i < n \<Longrightarrow> active (workers p i) \<Longrightarrow> awake_ok n p"
  by (auto simp: awake_ok_def)

text \<open>The steps of a worker, by what they change.\<close>

lemma worker_next_cases:
  assumes "worker_next mx i p = Some p'" "queue_ok (queue p)" "lock_ok n p"
  obtains
    (loop) "workers p i = Loop_Top" "p' = set_worker i (if stop (queue p) \<or> interrupted p then Ended else Trying) p"
  | (empty) "workers p i = Trying" "p' = set_worker i Entering p"
  | (enter) "workers p i = Entering \<or> workers p i = Woken \<and> \<not> interrupted p" "lock p = None"
      "p' = (set_worker i Testing p)\<lparr>lock := Some i\<rparr>"
  | (wait) "workers p i = Testing" "must_wait (queue p)" "p' = set_worker i Will_Wait p"
  | (sleep) "workers p i = Will_Wait" "p' = (set_worker i (if interrupted p then Ended else Asleep) p)\<lparr>lock := None\<rparr>"
  | (wake) "workers p i = Asleep" "interrupted p" "p' = set_worker i Woken p"
  | (cancelled) "workers p i = Woken" "interrupted p" "lock p = None" "p' = set_worker i Ended p"
  | (stopped) "workers p i = Testing" "stop (queue p)" "p' = (set_worker i Ended p)\<lparr>lock := None\<rparr>"
  | (popped) q m t where "workers p i = Trying \<and> lock p = None \<or> workers p i = Testing"
      "deque (queue p) = m # deque q" "stop q = stop (queue p)"
      "t = task_of m \<or> t = busy_of m"
      "p' = (set_worker i (Working t) p)\<lparr>lock := None, queue := q, handed := handed p @ [t]\<rparr>"
  | (worked) t where "workers p i = Working t" "p' = set_worker i Loop_Top p"
  | (begun) "workers p i = Starting" "p' = set_worker i Loop_Top p"
proof (cases "workers p i")
  case Trying
  with assms(1) obtain r q where r: "lock p = None" "try_pop mx (queue p) = Some (r, q)"
    "p' = (case r of None \<Rightarrow> set_worker i Entering p
       | Some t \<Rightarrow> (set_worker i (Working t) p)\<lparr>queue := q, handed := handed p @ [t]\<rparr>)"
    by (auto simp: worker_next_def split: if_splits)
  from try_pop_cases [OF assms(2) r(2)] show ?thesis
  proof (rule disjE)
    assume "deque (queue p) = [] \<and> r = None \<and> q = queue p"
    with Trying r(3) show ?thesis by (intro empty) simp_all
  next
    assume "\<exists>m t. deque (queue p) = m # deque q \<and> stop q = stop (queue p) \<and> r = Some t \<and>
      (t = task_of m \<or> t = busy_of m)"
    then obtain m t where t: "deque (queue p) = m # deque q" "stop q = stop (queue p)" "r = Some t"
      "t = task_of m \<or> t = busy_of m" by blast
    with r have "p' = (set_worker i (Working t) p)\<lparr>lock := None, queue := q, handed := handed p @ [t]\<rparr>"
      by (simp add: set_worker_def)
    with Trying t(1,2,4) r(1) show ?thesis by (intro popped) simp_all
  qed
next
  case Testing
  show ?thesis
  proof (cases "must_wait (queue p)")
    case True
    with Testing assms(1) show ?thesis by (intro wait) (simp_all add: worker_next_def)
  next
    case False
    with Testing assms(1) obtain r q where r: "pop_waited (queue p) = Some (r, q)"
      "p' = (case r of Throws \<Rightarrow> (set_worker i Ended p)\<lparr>lock := None\<rparr>
         | Ret t \<Rightarrow> (set_worker i (Working t) p)\<lparr>lock := None, queue := q, handed := handed p @ [t]\<rparr>)"
      by (auto simp: worker_next_def)
    from pop_waited_cases [OF assms(2) False r(1)] show ?thesis
    proof (elim disjE exE conjE)
      assume "stop (queue p)" "r = Throws"
      with Testing r(2) show ?thesis by (intro stopped) simp_all
    next
      fix m
      assume "deque (queue p) = m # deque q" "stop q = stop (queue p)" "r = Ret (task_of m)"
      with Testing r(2) show ?thesis by (intro popped [of m q "task_of m"]) simp_all
    qed
  qed
next
  case Starting
  with assms(1) begun show ?thesis by (simp add: worker_next_def)
next
  case Loop_Top
  with assms(1) loop show ?thesis by (simp add: worker_next_def)
next
  case Entering
  with assms(1) enter show ?thesis by (simp add: worker_next_def split: if_splits)
next
  case Will_Wait
  with assms(1) sleep show ?thesis by (simp add: worker_next_def)
next
  case Asleep
  with assms(1) wake show ?thesis by (simp add: worker_next_def split: if_splits)
next
  case Woken
  with assms(1) cancelled enter show ?thesis by (simp add: worker_next_def split: if_splits)
next
  case (Working t)
  with assms(1) worked show ?thesis by (simp add: worker_next_def)
next
  case Ended
  with assms(1) show ?thesis by (simp add: worker_next_def)
qed

lemma lock_ok_same:
  assumes "lock_ok n p" "lock p' = lock p" "deque (queue p') = deque (queue p)"
    and "workers p' = (workers p)(i := pc)" "holds_lock pc = holds_lock (workers p i)"
    and "pc = Will_Wait \<Longrightarrow> deque (queue p) = []"
  shows "lock_ok n p'"
  using assms unfolding lock_ok_def by auto

lemma lock_ok_change:
  assumes "lock_ok n p" "lock p = None \<or> lock p = Some i" "lock p' = (if holds_lock pc then Some i else None)"
    and "workers p' = (workers p)(i := pc)" "pc \<noteq> Will_Wait" "i < n"
  shows "lock_ok n p'"
proof -
  have "\<not> holds_lock (workers p j)" if "j \<noteq> i" for j
    using assms(1,2) that by (auto simp: lock_ok_def)
  then have "holds_lock (workers p' j) \<longleftrightarrow> lock p' = Some j" and "workers p' j \<noteq> Will_Wait" for j
    using assms(3-5) by (cases "j = i"; auto simp: holds_lock_def)+
  with assms(3,6) show ?thesis by (auto simp: lock_ok_def split: if_splits)
qed

lemma lock_of_holder: "lock_ok n p \<Longrightarrow> holds_lock (workers p i) \<Longrightarrow> lock p = Some i"
  by (simp add: lock_ok_def)

lemma worker_keeps_lock:
  assumes "worker_next mx i p = Some p'" "queue_ok (queue p)" "lock_ok n p" "i < n"
  shows "lock_ok n p'"
  using assms(1-3)
proof (cases rule: worker_next_cases)
  case wait
  then show ?thesis
    by (intro lock_ok_same [OF assms(3), of p' i Will_Wait]) (auto simp: set_worker_def holds_lock_def must_wait_def)
next
  case (popped q m t)
  then have "lock p = None \<or> lock p = Some i" using lock_of_holder [OF assms(3)] by (auto simp: holds_lock_def)
  with popped(5) show ?thesis
    by (intro lock_ok_change [OF assms(3), of i p' "Working t"]) (simp_all add: set_worker_def holds_lock_def assms(4))
next
  case enter
  then show ?thesis
    by (intro lock_ok_change [OF assms(3), of i p' Testing]) (simp_all add: set_worker_def holds_lock_def assms(4))
next
  case sleep
  then have "lock p = Some i" using lock_of_holder [OF assms(3)] by (simp add: holds_lock_def)
  with sleep show ?thesis
    by (intro lock_ok_change [OF assms(3), of i p' "if interrupted p then Ended else Asleep"])
      (simp_all add: set_worker_def holds_lock_def assms(4))
next
  case stopped
  then have "lock p = Some i" using lock_of_holder [OF assms(3)] by (simp add: holds_lock_def)
  with stopped show ?thesis
    by (intro lock_ok_change [OF assms(3), of i p' Ended]) (simp_all add: set_worker_def holds_lock_def assms(4))
next
  case loop
  then show ?thesis
    by (intro lock_ok_same [OF assms(3), of p' i "workers p' i"])
      (simp_all add: set_worker_def holds_lock_def split: if_splits)
qed (rule lock_ok_same [OF assms(3), of p' i "workers p' i"]; simp add: set_worker_def holds_lock_def)+

lemma worker_keeps_stop:
  assumes "worker_next mx i p = Some p'" "queue_ok (queue p)" "lock_ok n p" "stop_ok n p"
  shows "stop_ok n p'"
  using assms(1-3)
  by (cases rule: worker_next_cases) (use assms(4) in \<open>auto simp: stop_ok_def\<close>)

lemma worker_keeps_awake:
  assumes "worker_next mx i p = Some p'" "queue_ok (queue p)" "lock_ok n p" "stop_ok n p" "i < n"
  shows "awake_ok n p'"
  using assms(1-3)
proof (cases rule: worker_next_cases)
  case sleep
  with assms(3) have "deque (queue p) = []" by (auto simp: lock_ok_def)
  with sleep show ?thesis by (simp add: awake_ok_def)
next
  case loop
  with assms(4,5) show ?thesis
    by (auto simp: stop_ok_def awake_ok_def intro!: exI [of _ i], auto simp: active_def)
next
  case cancelled
  with assms(4) show ?thesis by (simp add: stop_ok_def awake_ok_def)
next
  case stopped
  then show ?thesis by (simp add: awake_ok_def)
qed (use assms(5) in \<open>auto intro!: awake_active [of i] simp: active_def\<close>)

lemma worker_keeps_inv:
  assumes "worker_next mx i p = Some p'" "pool_inv n p" "i < n"
  shows "pool_inv n p'"
proof -
  have inv: "queue_ok (queue p)" "handed_ok p" "lock_ok n p" "stop_ok n p"
    using assms(2) by (simp_all add: pool_inv_def)
  from assms(1) inv(1,3) have "queue_ok (queue p') \<and> handed_ok p'"
  proof (cases rule: worker_next_cases)
    case (popped q m t)
    with inv(1,2) show ?thesis
      by (auto intro: queue_ok_tl handed_ok_pop [OF _ popped(2,4)])
  qed (use inv(1,2) in \<open>simp_all add: handed_ok_def\<close>)
  with inv worker_keeps_lock worker_keeps_stop worker_keeps_awake assms show ?thesis
    unfolding pool_inv_def by blast
qed

lemma pool_step_inv:
  assumes "pool_step mx n p p'" "pool_inv n p"
  shows "pool_inv n p'"
  using assms(1)
proof (cases rule: pool_step.cases)
  case (worker i)
  with assms(2) show ?thesis by (auto intro: worker_keeps_inv)
next
  case (push m)
  from assms(2) obtain ds where "pushed p = ds @ deque (queue p)"
    "list_all2 (\<lambda>m t. t = task_of m \<or> t = busy_of m) ds (handed p)"
    by (auto simp: pool_inv_def handed_ok_def)
  with push(1) have "handed_ok p'"
    unfolding handed_ok_def by (intro exI [of _ ds]) (simp add: task_push_def)
  with push assms(2) show ?thesis
    by (auto simp: pool_inv_def queue_ok_def lock_ok_def stop_ok_def awake_ok_def task_push_def holds_lock_def)
next
  case (notify_one i)
  have "lock_ok n p'"
    using assms(2) notify_one
    by (intro lock_ok_same [of n p p' i Woken]) (simp_all add: pool_inv_def set_worker_def holds_lock_def)
  moreover have "awake_ok n p'"
    using notify_one by (intro awake_active [of i]) (simp_all add: active_def)
  ultimately show ?thesis
    using assms(2) notify_one(1) by (auto simp: pool_inv_def handed_ok_def stop_ok_def)
next
  case notify_none
  have "awake_ok n p'"
  proof (cases "n = 0 \<or> stop (queue p)")
    case True
    with notify_none(1) show ?thesis by (auto simp: awake_ok_def)
  next
    case False
    then have "workers p 0 \<noteq> Ended" "workers p 0 \<noteq> Asleep"
      using assms(2) notify_none(3) by (auto simp: pool_inv_def stop_ok_def)
    with False notify_none(1) show ?thesis by (auto simp: awake_ok_def active_def)
  qed
  with assms(2) notify_none(1) show ?thesis
    by (auto simp: pool_inv_def handed_ok_def lock_ok_def stop_ok_def)
next
  case (wakes i)
  have "lock_ok n p'"
    using assms(2) wakes
    by (intro lock_ok_same [of n p p' i Woken]) (simp_all add: pool_inv_def set_worker_def holds_lock_def)
  moreover have "awake_ok n p'"
    using wakes by (intro awake_active [of i]) (simp_all add: active_def)
  ultimately show ?thesis
    using assms(2) wakes(1) by (auto simp: pool_inv_def handed_ok_def stop_ok_def)
next
  case notifies
  have w: "workers p' i = (if workers p i = Asleep then Woken else workers p i)" for i
    using notifies(1) by (simp add: notify_all_def)
  have rest: "queue p' = queue p" "lock p' = lock p" "interrupted p' = interrupted p" "stop_pc p' = 2"
    "pushed p' = pushed p" "handed p' = handed p"
    using notifies(1) by (simp_all add: notify_all_def)
  have "holds_lock (workers p' i) = holds_lock (workers p i)" "workers p' i = Will_Wait \<Longrightarrow> workers p i = Will_Wait" for i
    by (simp_all add: w holds_lock_def split: if_splits)
  then have "lock_ok n p'"
    using assms(2) unfolding pool_inv_def lock_ok_def rest by metis
  moreover have "stop_ok n p'" "awake_ok n p'"
    using assms(2) notifies(2) by (auto simp: pool_inv_def stop_ok_def awake_ok_def w rest split: if_splits)
  ultimately show ?thesis using assms(2) by (simp add: pool_inv_def handed_ok_def rest)
next
  case stops
  then show ?thesis
    using assms(2) by (simp add: pool_inv_def handed_ok_def lock_ok_def stop_ok_def awake_ok_def task_stop_def queue_ok_def)
next
  case interrupts
  then show ?thesis
    using assms(2) by (simp add: pool_inv_def handed_ok_def lock_ok_def stop_ok_def awake_ok_def)
qed

lemma pool_reach_inv: "pool_reach mx n p \<Longrightarrow> pool_inv n p"
  by (induction rule: pool_reach.induct) (auto intro: pool_inv_new pool_step_inv)

subsection \<open>Progress\<close>

lemma lock_holder_steps:
  assumes "pool_inv n p" "lock p = Some i"
  shows "i < n" "worker_next mx i p \<noteq> None"
proof -
  from assms have i: "i < n" "holds_lock (workers p i)" "queue_ok (queue p)"
    by (auto simp: pool_inv_def lock_ok_def)
  then show "i < n" "worker_next mx i p \<noteq> None"
    using pop_enabled(2) [OF i(3)] by (auto simp: holds_lock_def worker_next_def)
qed

text \<open>A worker that is neither asleep nor ended, or is interrupted, is not blocked for good: it or the
  holder of the mutex has a step.\<close>

lemma some_worker_steps:
  assumes "pool_inv n p" "i < n" "active (workers p i) \<or> workers p i = Asleep \<and> interrupted p"
  shows "\<exists>j < n. worker_next mx j p \<noteq> None"
proof (cases "lock p")
  case (Some j)
  with lock_holder_steps [OF assms(1) Some] show ?thesis by blast
next
  case None
  with assms(1) have q: "queue_ok (queue p)" "\<not> holds_lock (workers p i)"
    by (auto simp: pool_inv_def lock_ok_def)
  with None assms(3) pop_enabled(1) [OF q(1), of mx] have "worker_next mx i p \<noteq> None"
    by (cases "workers p i") (auto simp: worker_next_def holds_lock_def active_def)
  with assms(2) show ?thesis by blast
qed

text \<open>The number of steps a worker can still make once it is interrupted.\<close>

fun steps_left :: "worker \<Rightarrow> nat" where
  "steps_left Ended = 0"
| "steps_left Starting = 2"
| "steps_left Loop_Top = 1"
| "steps_left Testing = 3"
| "steps_left Will_Wait = 1"
| "steps_left Woken = 1"
| "steps_left Asleep = 2"
| "steps_left (Working t) = 2"
| "steps_left Entering = 4"
| "steps_left Trying = 5"

definition work_left :: "nat \<Rightarrow> pool \<Rightarrow> nat" where
  "work_left n p = (\<Sum>i < n. steps_left (workers p i))"

lemma steps_left_bound: "steps_left w \<le> 5"
  by (cases w) simp_all

lemma work_left_bound: "work_left n p \<le> 5 * n"
  using sum_bounded_above [of "{..<n}" "\<lambda>i. steps_left (workers p i)" 5]
  by (simp add: work_left_def steps_left_bound mult.commute)

lemma work_left_zero: "work_left n p = 0 \<longleftrightarrow> (\<forall>i < n. workers p i = Ended)"
proof -
  have "steps_left w = 0 \<longleftrightarrow> w = Ended" for w by (cases w) simp_all
  then show ?thesis by (auto simp: work_left_def)
qed

lemma work_left_less:
  assumes "i < n" "workers p' = (workers p)(i := pc)" "steps_left pc < steps_left (workers p i)"
  shows "work_left n p' < work_left n p"
  unfolding work_left_def
  by (rule sum_strict_mono_ex1) (use assms in \<open>auto intro!: bexI [of _ i]\<close>)

lemma worker_step_less:
  assumes "worker_next mx i p = Some p'" "pool_inv n p" "i < n" "interrupted p"
  shows "work_left n p' < work_left n p"
proof -
  have inv: "queue_ok (queue p)" "lock_ok n p" "stop (queue p)"
    using assms(2,4) by (auto simp: pool_inv_def stop_ok_def)
  from assms(1) inv(1,2) show ?thesis
  proof (cases rule: worker_next_cases)
    case wait
    with inv(3) show ?thesis by (simp add: must_wait_def)
  qed (rule work_left_less [OF assms(3), of _ _ "workers p' i"];
       use inv(3) assms(4) in \<open>auto simp: set_worker_def\<close>)+
qed

lemma pool_step_left:
  assumes "pool_step mx n p p'" "pool_inv n p" "interrupted p"
  shows "work_left n p' \<le> work_left n p \<and> interrupted p'"
  using assms(1)
proof (cases rule: pool_step.cases)
  case (worker i)
  have inv: "queue_ok (queue p)" "lock_ok n p" using assms(2) by (simp_all add: pool_inv_def)
  have "interrupted p' = interrupted p"
    using worker(2) inv by (cases rule: worker_next_cases) auto
  with worker worker_step_less assms show ?thesis by (auto intro: less_imp_le)
next
  case (notify_one i)
  then have "work_left n p' < work_left n p"
    by (intro work_left_less [of i n p' p Woken]) (simp_all add: set_worker_def)
  with notify_one(1) assms(3) show ?thesis by simp
next
  case (wakes i)
  then have "work_left n p' < work_left n p"
    by (intro work_left_less [of i n p' p Woken]) (simp_all add: set_worker_def)
  with wakes(1) assms(3) show ?thesis by simp
next
  case notifies
  then show ?thesis using assms(2,3) by (simp add: pool_inv_def stop_ok_def)
qed (use assms(3) in \<open>simp_all add: work_left_def\<close>)

subsection \<open>Properties\<close>

text \<open>C7: Whatever the interleaving of pushes, wake-ups and workers: at most one worker is inside a
  critical section, every message pushed has been handed to a worker exactly once in the order of
  the pushes or is still in the deque in that order, and each was handed over with its own id,
  header and body (or with cmd 1010 in place of its own). No pop ever reads outside a vector.\<close>

theorem tasks_handed_in_order:
  assumes "pool_reach mx n p"
  shows "(\<exists>ds. pushed p = ds @ deque (queue p) \<and>
       list_all2 (\<lambda>m t. t = task_of m \<or> t = busy_of m) ds (handed p)) \<and>
     (\<forall>i j. holds_lock (workers p i) \<and> holds_lock (workers p j) \<longrightarrow> i = j) \<and>
     try_pop mx (queue p) \<noteq> None"
proof -
  have inv: "queue_ok (queue p)" "handed_ok p" "lock_ok n p"
    using pool_reach_inv [OF assms] by (simp_all add: pool_inv_def)
  then have "holds_lock (workers p i) \<and> holds_lock (workers p j) \<longrightarrow> i = j" for i j
    by (auto simp: lock_ok_def)
  with inv pop_enabled(1) [OF inv(1)] show ?thesis by (auto simp: handed_ok_def)
qed

text \<open>C8: No lost wake-up. As long as the server is not stopping, a queued message is never
  stranded: a \<^verbatim>\<open>notify_one\<close> is still to come or some worker can make a step.\<close>

theorem no_lost_wakeup:
  assumes "pool_reach mx n p" "deque (queue p) \<noteq> []" "\<not> stop (queue p)" "0 < n"
  shows "0 < pending p \<or> (\<exists>j < n. worker_next mx j p \<noteq> None)"
  using pool_reach_inv [OF assms(1)] assms(2-4) some_worker_steps [of n p _ mx]
  by (auto simp: pool_inv_def awake_ok_def)

text \<open>C9: \<^verbatim>\<open>io_service_provide::stop\<close> ends every worker. After \<^verbatim>\<open>stop()\<close>, \<^verbatim>\<open>notifiy_all()\<close> and
  \<^verbatim>\<open>interrupt_all()\<close> no step of anybody increases the work left, every step of a worker decreases
  it, it is at most five steps per worker, and as long as a worker has not returned some worker
  can make a step: \<^verbatim>\<open>join_all\<close> returns, although \<^verbatim>\<open>stop_\<close> is set without the mutex and a
  worker may be about to sleep.\<close>

theorem stop_ends_workers:
  assumes "pool_reach mx n p" "stop_pc p = 3"
  shows "work_left n p \<le> 5 * n \<and>
     (\<forall>p'. pool_step mx n p p' \<longrightarrow> work_left n p' \<le> work_left n p) \<and>
     (\<forall>i p'. i < n \<and> worker_next mx i p = Some p' \<longrightarrow> work_left n p' < work_left n p) \<and>
     (work_left n p = 0 \<longleftrightarrow> (\<forall>i < n. workers p i = Ended)) \<and>
     (0 < work_left n p \<longrightarrow> (\<exists>j < n. worker_next mx j p \<noteq> None))"
proof -
  have inv: "pool_inv n p" by (rule pool_reach_inv [OF assms(1)])
  then have int: "interrupted p" using assms(2) by (simp add: pool_inv_def stop_ok_def)
  have "\<exists>j < n. worker_next mx j p \<noteq> None" if left: "0 < work_left n p"
  proof -
    from left obtain i where "i < n" "workers p i \<noteq> Ended"
      using work_left_zero [of n p] by auto
    with int show ?thesis by (intro some_worker_steps [OF inv]) (auto simp: active_def)
  qed
  with work_left_bound work_left_zero pool_step_left [OF _ inv int] worker_step_less [OF _ inv _ int]
  show ?thesis by blast
qed

text \<open>A run of two workers: one message is pushed, worker 0 takes it, the server stops.\<close>

definition demo_msg :: message_format where
  "demo_msg = \<lparr>mf_head = replicate 12 0, mf_body = [7, 8, 9], mf_body_length = 2, mf_magic = 0, mf_len = 14,
     mf_cmd = 200, mf_remote_id = ''client:1'', mf_server_id = []\<rparr>"

definition demo_pushed :: pool where
  "demo_pushed = pool_new\<lparr>queue := task_push demo_msg (queue pool_new),
     pushed := pushed pool_new @ [demo_msg], pending := Suc (pending pool_new)\<rparr>"

definition demo_stopping :: pool where
  "demo_stopping = (notify_all (demo_pushed\<lparr>queue := task_stop (queue demo_pushed), stop_pc := 1\<rparr>))
     \<lparr>stop_pc := 2, interrupted := True, stop_pc := 3\<rparr>"

lemma demo_pushed_reach: "pool_reach mx n demo_pushed"
  unfolding demo_pushed_def
  by (rule pool_reach.step [OF pool_reach.start pool_step.push])
    (simp_all add: pool_new_def body_fits_def demo_msg_def)

lemma demo_stopping_reach: "pool_reach mx n demo_stopping"
proof -
  let ?a = "demo_pushed\<lparr>queue := task_stop (queue demo_pushed), stop_pc := 1\<rparr>"
  let ?b = "(notify_all ?a)\<lparr>stop_pc := 2\<rparr>"
  have "pool_step mx n demo_pushed ?a"
    by (rule pool_step.stops) (simp add: demo_pushed_def pool_new_def)
  moreover have "pool_step mx n ?a ?b" by (rule pool_step.notifies) simp
  moreover have "pool_step mx n ?b (?b\<lparr>interrupted := True, stop_pc := 3\<rparr>)" by (rule pool_step.interrupts) simp
  ultimately have "pool_reach mx n (?b\<lparr>interrupted := True, stop_pc := 3\<rparr>)"
    by (blast intro: pool_reach.step demo_pushed_reach)
  then show ?thesis by (simp add: demo_stopping_def)
qed

theorem tasks_handed_in_order_witness:
  "try_pop 0 (queue demo_pushed) =
     Some (Some (''client:1'', \<lparr>magic = 0, len = 14, cmd = 1010\<rparr>, [7, 8]), task_base_new) \<and>
   try_pop 0 (queue demo_pushed) \<noteq> None"
  using tasks_handed_in_order [OF demo_pushed_reach [of 0 2]]
  by (simp add: demo_pushed_def pool_new_def task_base_new_def queue_defs demo_msg_def meet_head_def)

theorem no_lost_wakeup_witness:
  "0 < pending demo_pushed \<or> (\<exists>j < 2. worker_next 4 j demo_pushed \<noteq> None)"
  by (rule no_lost_wakeup [OF demo_pushed_reach])
    (simp_all add: demo_pushed_def pool_new_def task_base_new_def task_push_def)

theorem stop_ends_workers_witness:
  "0 < work_left 2 demo_stopping \<and> (\<exists>j < 2. worker_next 4 j demo_stopping \<noteq> None)"
proof -
  have "stop_pc demo_stopping = 3" by (simp add: demo_stopping_def)
  moreover have "0 < work_left 2 demo_stopping"
    by (simp add: work_left_def demo_stopping_def demo_pushed_def notify_all_def pool_new_def)
  ultimately show ?thesis using stop_ends_workers [OF demo_stopping_reach [of 4 2]] by blast
qed

end
