(* ===== verification/Wire.thy ===== *)
theory Wire
  imports BPrelude
begin

text \<open>
  The protobuf messages that travel inside the frames: those of proto/connect_server.pb.cc and
  proto/ServicePacket.pb.cc. The generated
  methods follow one scheme, so each message is a record with a table of its fields, and the
  methods are functions on the table. A field may hold a message of its own (\<open>K_Msg\<close>). The protobuf runtime (\<^verbatim>\<open>CodedInputStream\<close>,
  \<^verbatim>\<open>WireFormatLite\<close>, \<^verbatim>\<open>WireFormat\<close>) is a parameter with its documented contract \<open>pb_ok\<close>.
\<close>

subsection \<open>The runtime\<close>

datatype pb_kind = K_Len | K_Int32 | K_Int64 | K_Double | K_Msg

text \<open>Doubles are their bits; a message is its cached size, an int, and its bytes.\<close>

datatype pb_val = V_Len bytes | V_Int32 int32 | V_Int64 int64 | V_Double int64 | V_Msg int32 bytes

fun val_kind :: "pb_val \<Rightarrow> pb_kind" where
  "val_kind (V_Len b) = K_Len"
| "val_kind (V_Int32 i) = K_Int32"
| "val_kind (V_Int64 i) = K_Int64"
| "val_kind (V_Double d) = K_Double"
| "val_kind (V_Msg n b) = K_Msg"

text \<open>
  \<open>read_tag\<close> returns 0 at the end of the input and on a malformed tag; \<open>expect_tag\<close> consumes the
  tag if it sees it next and may always decline; \<open>read_len\<close> gives whether it succeeded, the string
  as it was left and the rest; \<open>read_limited\<close> reads a length and gives the input below that limit and
  what follows it; \<open>skip_field\<close> gives what was added to the unknown fields, in the
  form \<open>SerializeUnknownFields\<close> writes them. The writers give the bytes they append; \<open>write_head\<close>
  writes the tag and the size of a message.
\<close>

record pb_rt =
  read_tag :: "bytes \<Rightarrow> nat \<times> bytes"
  expect_tag :: "nat \<Rightarrow> bytes \<Rightarrow> bytes option"
  expect_at_end :: "bytes \<Rightarrow> bool"
  read_len :: "bytes \<Rightarrow> bool \<times> bytes \<times> bytes"
  read_int32 :: "bytes \<Rightarrow> (int32 \<times> bytes) option"
  read_int64 :: "bytes \<Rightarrow> (int64 \<times> bytes) option"
  read_double :: "bytes \<Rightarrow> (int64 \<times> bytes) option"
  read_limited :: "bytes \<Rightarrow> (bytes \<times> bytes) option"
  skip_field :: "nat \<Rightarrow> bytes \<Rightarrow> (bytes \<times> bytes) option"
  write_len :: "nat \<Rightarrow> bytes \<Rightarrow> bytes"
  write_int32 :: "nat \<Rightarrow> int32 \<Rightarrow> bytes"
  write_int64 :: "nat \<Rightarrow> int64 \<Rightarrow> bytes"
  write_double :: "nat \<Rightarrow> int64 \<Rightarrow> bytes"
  write_head :: "nat \<Rightarrow> nat \<Rightarrow> bytes"
  len_size :: "bytes \<Rightarrow> nat"
  int32_size :: "int32 \<Rightarrow> nat"
  int64_size :: "int64 \<Rightarrow> nat"
  msg_size :: "nat \<Rightarrow> nat"

definition wire_type :: "pb_kind \<Rightarrow> nat" where
  "wire_type k = (case k of K_Len \<Rightarrow> 2 | K_Int32 \<Rightarrow> 0 | K_Int64 \<Rightarrow> 0 | K_Double \<Rightarrow> 1 | K_Msg \<Rightarrow> 2)"

fun write_val :: "pb_rt \<Rightarrow> nat \<Rightarrow> pb_val \<Rightarrow> bytes" where
  "write_val R n (V_Len b) = write_len R n b"
| "write_val R n (V_Int32 i) = write_int32 R n i"
| "write_val R n (V_Int64 i) = write_int64 R n i"
| "write_val R n (V_Double d) = write_double R n d"
| "write_val R n (V_Msg k b) = write_head R n (unat k) @ b"

text \<open>The sizes are ints of 32 bits.\<close>

fun val_size :: "pb_rt \<Rightarrow> pb_val \<Rightarrow> int32" where
  "val_size R (V_Len b) = of_nat (len_size R b)"
| "val_size R (V_Int32 i) = of_nat (int32_size R i)"
| "val_size R (V_Int64 i) = of_nat (int64_size R i)"
| "val_size R (V_Double d) = 8"
| "val_size R (V_Msg k b) = of_nat (msg_size R (unat k))"

text \<open>A value of the kind: whether the read succeeded, the value stored if one is (a string is
  stored and a message exists, has bit set, even when the read fails), and the rest.\<close>

definition read_val :: "pb_rt \<Rightarrow> pb_kind \<Rightarrow> bytes \<Rightarrow> bool \<times> pb_val option \<times> bytes" where
  "read_val R k bs = (case k of
     K_Len \<Rightarrow> (case read_len R bs of (ok, s, r) \<Rightarrow> (ok, Some (V_Len s), r))
   | K_Int32 \<Rightarrow> (case read_int32 R bs of None \<Rightarrow> (False, None, bs) | Some (i, r) \<Rightarrow> (True, Some (V_Int32 i), r))
   | K_Int64 \<Rightarrow> (case read_int64 R bs of None \<Rightarrow> (False, None, bs) | Some (i, r) \<Rightarrow> (True, Some (V_Int64 i), r))
   | K_Double \<Rightarrow> (case read_double R bs of None \<Rightarrow> (False, None, bs) | Some (d, r) \<Rightarrow> (True, Some (V_Double d), r))
   | K_Msg \<Rightarrow> (case read_limited R bs of None \<Rightarrow> (False, Some (V_Msg 0 []), bs)
       | Some (b, r) \<Rightarrow> (True, Some (V_Msg (of_nat (length b)) b), r)))"

fun val_fits :: "pb_val \<Rightarrow> bool" where
  "val_fits (V_Len b) = (length b < 2 ^ 31)"
| "val_fits (V_Int32 i) = True"
| "val_fits (V_Int64 i) = True"
| "val_fits (V_Double d) = True"
| "val_fits (V_Msg k b) = (unat k = length b \<and> length b < 2 ^ 31)"

text \<open>The documented wire format, for the field numbers 1 to 15 the messages use.\<close>

definition pb_reads_ok :: "pb_rt \<Rightarrow> bool" where
  "pb_reads_ok R \<longleftrightarrow>
     read_tag R [] = (0, []) \<and>
     (\<forall>bs t r. read_tag R bs = (t, r) \<and> t \<noteq> 0 \<longrightarrow> length r < length bs) \<and>
     (\<forall>t bs r. expect_tag R t bs = Some r \<longrightarrow> t \<noteq> 0 \<and> read_tag R bs = (t, r)) \<and>
     (\<forall>bs. expect_at_end R bs \<longrightarrow> bs = []) \<and>
     (\<forall>bs s r. read_len R bs = (True, s, r) \<longrightarrow> length r < length bs) \<and>
     (\<forall>bs i r. read_int32 R bs = Some (i, r) \<longrightarrow> length r < length bs) \<and>
     (\<forall>bs i r. read_int64 R bs = Some (i, r) \<longrightarrow> length r < length bs) \<and>
     (\<forall>bs d r. read_double R bs = Some (d, r) \<longrightarrow> length r < length bs) \<and>
     (\<forall>bs b r. read_limited R bs = Some (b, r) \<longrightarrow> length r < length bs) \<and>
     (\<forall>t bs u r. skip_field R t bs = Some (u, r) \<longrightarrow> length r \<le> length bs)"

definition pb_writes_ok :: "pb_rt \<Rightarrow> bool" where
  "pb_writes_ok R \<longleftrightarrow>
     (\<forall>n b r. 0 < n \<and> n < 16 \<and> length b < 2 ^ 31 \<longrightarrow>
        (\<exists>q. read_tag R (write_len R n b @ r) = (8 * n + 2, q) \<and> read_len R q = (True, b, r))) \<and>
     (\<forall>n i r. 0 < n \<and> n < 16 \<longrightarrow>
        (\<exists>q. read_tag R (write_int32 R n i @ r) = (8 * n, q) \<and> read_int32 R q = Some (i, r))) \<and>
     (\<forall>n i r. 0 < n \<and> n < 16 \<longrightarrow>
        (\<exists>q. read_tag R (write_int64 R n i @ r) = (8 * n, q) \<and> read_int64 R q = Some (i, r))) \<and>
     (\<forall>n d r. 0 < n \<and> n < 16 \<longrightarrow>
        (\<exists>q. read_tag R (write_double R n d @ r) = (8 * n + 1, q) \<and> read_double R q = Some (d, r))) \<and>
     (\<forall>n b r. 0 < n \<and> n < 16 \<and> length b < 2 ^ 31 \<longrightarrow>
        (\<exists>q. read_tag R (write_head R n (length b) @ b @ r) = (8 * n + 2, q) \<and> read_limited R q = Some (b, r))) \<and>
     (\<forall>n b. 0 < n \<and> n < 16 \<and> length b < 2 ^ 31 \<longrightarrow> length (write_len R n b) = 1 + len_size R b) \<and>
     (\<forall>n i. 0 < n \<and> n < 16 \<longrightarrow> length (write_int32 R n i) = 1 + int32_size R i) \<and>
     (\<forall>n i. 0 < n \<and> n < 16 \<longrightarrow> length (write_int64 R n i) = 1 + int64_size R i) \<and>
     (\<forall>n d. 0 < n \<and> n < 16 \<longrightarrow> length (write_double R n d) = 1 + 8) \<and>
     (\<forall>n k. 0 < n \<and> n < 16 \<and> k < 2 ^ 31 \<longrightarrow> length (write_head R n k) + k = 1 + msg_size R k)"

definition pb_ok :: "pb_rt \<Rightarrow> bool" where
  "pb_ok R \<longleftrightarrow> pb_reads_ok R \<and> pb_writes_ok R"

subsection \<open>Fields and the generated methods\<close>

text \<open>A field: its number, its kind, its value when its has bit is set, its setter, and whether the
  value is accepted (a message may fail to parse; it is merged into the one that is there).\<close>

record 'm pb_field =
  number :: nat
  kind :: pb_kind
  getf :: "'m \<Rightarrow> pb_val option"
  setf :: "pb_val \<Rightarrow> 'm \<Rightarrow> 'm"
  takes :: "pb_val \<Rightarrow> 'm \<Rightarrow> bool"

record 'm pb_desc =
  fds :: "'m pb_field list"
  cleared :: 'm
  unknown_of :: "'m \<Rightarrow> bytes"
  add_unknown :: "bytes \<Rightarrow> 'm \<Rightarrow> 'm"
  required :: "nat list"

definition field_tag :: "'m pb_field \<Rightarrow> nat" where
  "field_tag f = 8 * number f + wire_type (kind f)"

fun find_from :: "('a \<Rightarrow> bool) \<Rightarrow> nat \<Rightarrow> 'a list \<Rightarrow> nat option" where
  "find_from p i [] = None"
| "find_from p i (x # xs) = (if p x then Some i else find_from p (Suc i) xs)"

text \<open>
  \<^verbatim>\<open>MergePartialFromCodedStream\<close>. A label is the head of the while loop (\<open>None\<close>) or the code after
  \<^verbatim>\<open>parse_x:\<close> of the field at an index of the table; after a field the next field's tag is
  expected, after the last one the end of the input. The result is the returned flag, whether the
  input was left at a legitimate end, and the message; the outer \<open>None\<close> is lack of fuel.
\<close>

fun merge_run :: "pb_rt \<Rightarrow> 'm pb_desc \<Rightarrow> nat \<Rightarrow> nat option \<Rightarrow> 'm \<Rightarrow> bytes \<Rightarrow> (bool \<times> bool \<times> 'm) option" where
  "merge_run R D 0 l m bs = None"
| "merge_run R D (Suc n) None m bs =
     (case read_tag R bs of (tag, r) \<Rightarrow>
        if tag = 0 then Some (True, bs = [], m)
        else case find_from (\<lambda>f. number f = tag div 8 \<and> wire_type (kind f) = tag mod 8) 0 (fds D) of
            Some i \<Rightarrow> merge_run R D n (Some i) m r
          | None \<Rightarrow>
              if tag mod 8 = 4 then Some (True, False, m)
              else case skip_field R tag r of
                  None \<Rightarrow> Some (False, False, m)
                | Some (u, r') \<Rightarrow> merge_run R D n None (add_unknown D u m) r')"
| "merge_run R D (Suc n) (Some i) m bs =
     (case read_val R (kind (fds D ! i)) bs of (ok, v, r) \<Rightarrow>
        let m' = (case v of None \<Rightarrow> m | Some x \<Rightarrow> setf (fds D ! i) x m);
            taken = (case v of None \<Rightarrow> True | Some x \<Rightarrow> takes (fds D ! i) x m)
        in if \<not> (ok \<and> taken) then Some (False, False, m')
           else if Suc i < length (fds D)
           then case expect_tag R (field_tag (fds D ! Suc i)) r of
                  Some r' \<Rightarrow> merge_run R D n (Some (Suc i)) m' r'
                | None \<Rightarrow> merge_run R D n None m' r
           else if expect_at_end R r then Some (True, True, m')
           else merge_run R D n None m' r)"

definition is_initialized :: "'m pb_desc \<Rightarrow> 'm \<Rightarrow> bool" where
  "is_initialized D m \<longleftrightarrow> (\<forall>f \<in> set (fds D). number f \<in> set (required D) \<longrightarrow> getf f m \<noteq> None)"

text \<open>\<^verbatim>\<open>ParseFromString\<close>: clear, merge, the whole input consumed, every required field set.\<close>

definition parse_from :: "pb_rt \<Rightarrow> 'm pb_desc \<Rightarrow> bytes \<Rightarrow> bool \<times> 'm" where
  "parse_from R D bs = (case merge_run R D (Suc (length bs)) None (cleared D) bs of
     Some (ok, at_end, m) \<Rightarrow> (ok \<and> at_end \<and> is_initialized D m, m)
   | None \<Rightarrow> (False, cleared D))"

definition write_field :: "pb_rt \<Rightarrow> 'm pb_field \<Rightarrow> 'm \<Rightarrow> bytes" where
  "write_field R f m = (case getf f m of None \<Rightarrow> [] | Some v \<Rightarrow> write_val R (number f) v)"

text \<open>\<^verbatim>\<open>SerializeWithCachedSizes\<close> and \<^verbatim>\<open>ByteSize\<close>; one-byte tags. \<^verbatim>\<open>ByteSize\<close> adds up an
  \<^verbatim>\<open>int total_size\<close>; where the sum overflows, which C leaves undefined, the model wraps around.\<close>

definition serialize :: "pb_rt \<Rightarrow> 'm pb_desc \<Rightarrow> 'm \<Rightarrow> bytes" where
  "serialize R D m = concat (map (\<lambda>f. write_field R f m) (fds D)) @ unknown_of D m"

definition byte_size :: "pb_rt \<Rightarrow> 'm pb_desc \<Rightarrow> 'm \<Rightarrow> int32" where
  "byte_size R D m =
     sum_list (map (\<lambda>f. case getf f m of None \<Rightarrow> 0 | Some v \<Rightarrow> 1 + val_size R v) (fds D)) +
     of_nat (length (unknown_of D m))"

text \<open>\<^verbatim>\<open>MergeFrom\<close>: the fields set in \<open>src\<close> overwrite, its unknown fields are appended; \<^verbatim>\<open>CopyFrom\<close>
  clears first.\<close>

definition merge_from :: "'m pb_desc \<Rightarrow> 'm \<Rightarrow> 'm \<Rightarrow> 'm" where
  "merge_from D src m = add_unknown D (unknown_of D src)
     (fold (\<lambda>f m. case getf f src of None \<Rightarrow> m | Some v \<Rightarrow> setf f v m) (fds D) m)"

definition copy_from :: "'m pb_desc \<Rightarrow> 'm \<Rightarrow> 'm" where
  "copy_from D src = merge_from D src (cleared D)"

subsection \<open>Running the merge loop\<close>

text \<open>The result of the loop with enough fuel; a result does not depend on the fuel.\<close>

definition merges :: "pb_rt \<Rightarrow> 'm pb_desc \<Rightarrow> nat option \<Rightarrow> 'm \<Rightarrow> bytes \<Rightarrow> bool \<times> bool \<times> 'm \<Rightarrow> bool" where
  "merges R D l m bs res \<longleftrightarrow> (\<exists>n. merge_run R D n l m bs = Some res)"

lemma merge_run_mono:
  "merge_run R D n l m bs = Some res \<Longrightarrow> n \<le> k \<Longrightarrow> merge_run R D k l m bs = Some res"
proof (induction n arbitrary: k l m bs)
  case (Suc n)
  from Suc.prems(2) obtain k' where k: "k = Suc k'" "n \<le> k'" by (cases k) auto
  note IH = Suc.IH [OF _ k(2)]
  show ?case
  proof (cases l)
    case None
    obtain tag r where "read_tag R bs = (tag, r)" by (cases "read_tag R bs")
    with None Suc.prems(1) k(1) IH show ?thesis by (auto split: option.splits if_splits)
  next
    case (Some i)
    obtain ok v r where "read_val R (kind (fds D ! i)) bs = (ok, v, r)"
      by (cases "read_val R (kind (fds D ! i)) bs")
    with Some Suc.prems(1) k(1) IH show ?thesis by (auto simp: Let_def split: option.splits if_splits)
  qed
qed simp

lemma merges_unique:
  assumes "merges R D l m bs res" "merges R D l m bs res'"
  shows "res = res'"
proof -
  from assms obtain n k where "merge_run R D n l m bs = Some res" "merge_run R D k l m bs = Some res'"
    by (auto simp: merges_def)
  then have "merge_run R D (max n k) l m bs = Some res" "merge_run R D (max n k) l m bs = Some res'"
    by (auto intro: merge_run_mono)
  then show ?thesis by simp
qed

lemma pb_okD:
  assumes "pb_ok R"
  shows "read_tag R [] = (0, [])"
    and "fst (read_tag R bs) \<noteq> 0 \<Longrightarrow> length (snd (read_tag R bs)) < length bs"
    and "expect_tag R t bs = Some r \<Longrightarrow> t \<noteq> 0 \<and> read_tag R bs = (t, r)"
    and "expect_at_end R bs \<Longrightarrow> bs = []"
    and "skip_field R t bs = Some (u, r) \<Longrightarrow> length r \<le> length bs"
    and "read_len R bs = (True, s, r) \<Longrightarrow> length r < length bs"
    and "read_int32 R bs = Some (i, r) \<Longrightarrow> length r < length bs"
    and "read_int64 R bs = Some (j, r) \<Longrightarrow> length r < length bs"
    and "read_double R bs = Some (j, r) \<Longrightarrow> length r < length bs"
    and "read_limited R bs = Some (s, r) \<Longrightarrow> length r < length bs"
  using assms unfolding pb_ok_def pb_reads_ok_def
  by (metis prod.collapse, metis prod.collapse, metis, metis, metis, metis, metis, metis, metis, metis)

lemma read_val_shorter:
  "pb_ok R \<Longrightarrow> read_val R k bs = (True, v, r) \<Longrightarrow> length r < length bs"
  by (cases k) (auto simp: read_val_def dest: pb_okD(6,7,8,9,10) split: prod.splits option.splits)

lemma read_val_failed:
  "read_val R k bs = (True, v, r) \<Longrightarrow> v \<noteq> None"
  by (cases k) (auto simp: read_val_def split: prod.splits option.splits)

text \<open>The fuel \<^verbatim>\<open>parse_from\<close> uses is enough: every turn of the loop consumes input.\<close>

lemma merge_run_total:
  "pb_ok R \<Longrightarrow> length bs < n \<Longrightarrow> merge_run R D n l m bs \<noteq> None"
proof (induction n arbitrary: l m bs)
  case (Suc n)
  note R = Suc.prems(1)
  have IH: "length xs < length bs \<Longrightarrow> \<exists>y. merge_run R D n l m xs = Some y" for l m xs
    using Suc by (metis not_None_eq less_trans_Suc not_less_eq order_less_le_trans less_Suc_eq_le)
  show ?case
  proof (cases l)
    case None
    obtain tag r where t: "read_tag R bs = (tag, r)" by (cases "read_tag R bs")
    then have r: "tag \<noteq> 0 \<Longrightarrow> length r < length bs" using pb_okD(2) [OF R, of bs] by simp
    have "\<exists>y. merge_run R D n None m' r' = Some y" if "tag \<noteq> 0" "skip_field R tag r = Some (u, r')" for m' u r'
      using IH [of r'] r [OF that(1)] pb_okD(5) [OF R that(2)] by simp
    with r IH [of r] None t show ?thesis by (auto split: option.split)
  next
    case (Some i)
    obtain ok v r where v: "read_val R (kind (fds D ! i)) bs = (ok, v, r)"
      by (cases "read_val R (kind (fds D ! i)) bs")
    have r: "ok \<Longrightarrow> length r < length bs" using read_val_shorter [OF R] v by simp
    have "\<exists>y. merge_run R D n l m' r' = Some y" if "ok" "expect_tag R t r = Some r'" for l m' t r'
    proof -
      have "length r' < length r" using pb_okD(3) [OF R that(2)] pb_okD(2) [OF R, of r] by auto
      with r [OF that(1)] show ?thesis by (intro IH) simp
    qed
    with r IH [of r] Some v show ?thesis by (auto simp: Let_def split: option.split)
  qed
qed simp

text \<open>
  The jump to the next field is invisible: after a field has been read, the code goes on as from
  the head of the loop, whether or not the next tag is expected.
\<close>

lemma find_from_nth:
  "i < length xs \<Longrightarrow> p (xs ! i) \<Longrightarrow> (\<And>k. k < i \<Longrightarrow> \<not> p (xs ! k)) \<Longrightarrow> find_from p j xs = Some (j + i)"
proof (induction xs arbitrary: i j)
  case (Cons x xs)
  show ?case
  proof (cases i)
    case 0
    with Cons.prems show ?thesis by simp
  next
    case (Suc d)
    with Cons.prems(3) [of 0] have "\<not> p x" by simp
    moreover have "find_from p (Suc j) xs = Some (Suc j + d)"
    proof (rule Cons.IH)
      show "\<not> p (xs ! k)" if "k < d" for k using Cons.prems(3) [of "Suc k"] Suc that by simp
    qed (use Cons.prems(1,2) Suc in auto)
    ultimately show ?thesis using Suc by simp
  qed
qed simp

definition desc_ok :: "'m pb_desc \<Rightarrow> bool" where
  "desc_ok D \<longleftrightarrow> distinct (map number (fds D)) \<and> (\<forall>f \<in> set (fds D). 0 < number f \<and> number f < 16)"

lemma wire_type_less: "wire_type k < 8"
  by (simp add: wire_type_def split: pb_kind.split)

lemma find_field:
  assumes "desc_ok D" "i < length (fds D)"
  shows "find_from (\<lambda>f. number f = field_tag (fds D ! i) div 8 \<and> wire_type (kind f) = field_tag (fds D ! i) mod 8)
    0 (fds D) = Some i"
proof -
  have t: "field_tag (fds D ! i) div 8 = number (fds D ! i)" "field_tag (fds D ! i) mod 8 = wire_type (kind (fds D ! i))"
    using wire_type_less [of "kind (fds D ! i)"] by (simp_all add: field_tag_def)
  have "number (fds D ! k) \<noteq> number (fds D ! i)" if "k < i" for k
    using assms that by (auto simp: desc_ok_def distinct_conv_nth)
  with assms(2) find_from_nth [of i "fds D" _ 0] show ?thesis by (simp add: t)
qed

lemma merges_field:
  assumes R: "pb_ok R" and D: "desc_ok D" "i < length (fds D)"
    and v: "read_val R (kind (fds D ! i)) bs = (True, Some v, r)" "takes (fds D ! i) v m"
    and rest: "merges R D None (setf (fds D ! i) v m) r res"
  shows "merges R D (Some i) m bs res"
proof -
  let ?m = "setf (fds D ! i) v m"
  from rest obtain n where n: "merge_run R D n None ?m r = Some res" by (auto simp: merges_def)
  show ?thesis
  proof (cases "Suc i < length (fds D)")
    case True
    let ?t = "field_tag (fds D ! Suc i)"
    show ?thesis
    proof (cases "expect_tag R ?t r")
      case None
      with n v True have "merge_run R D (Suc n) (Some i) m bs = Some res" by simp
      then show ?thesis unfolding merges_def by blast
    next
      case (Some r')
      with pb_okD(3) [OF R] have t: "?t \<noteq> 0" "read_tag R r = (?t, r')" by auto
      from n obtain n' where n': "n = Suc n'" by (cases n) auto
      with n t find_field [OF D(1) True] have "merge_run R D n' (Some (Suc i)) ?m r' = Some res" by simp
      with v True Some have "merge_run R D (Suc n') (Some i) m bs = Some res" by simp
      then show ?thesis unfolding merges_def by blast
    qed
  next
    case False
    show ?thesis
    proof (cases "expect_at_end R r")
      case True
      then have "r = []" using pb_okD(4) [OF R] by blast
      with n pb_okD(1) [OF R] have "res = (True, True, ?m)" by (cases n) auto
      with v False True have "merge_run R D (Suc 0) (Some i) m bs = Some res" by simp
      then show ?thesis unfolding merges_def by blast
    next
      case no: False
      with n v False have "merge_run R D (Suc n) (Some i) m bs = Some res" by simp
      then show ?thesis unfolding merges_def by blast
    qed
  qed
qed

lemma read_written:
  assumes "pb_ok R" "val_fits v" "0 < n" "n < 16"
  shows "\<exists>q. read_tag R (write_val R n v @ r) = (8 * n + wire_type (val_kind v), q) \<and>
     read_val R (val_kind v) q = (True, Some v, r)"
proof (cases v)
  case (V_Len b)
  with assms have "\<exists>q. read_tag R (write_len R n b @ r) = (8 * n + 2, q) \<and> read_len R q = (True, b, r)"
    unfolding pb_ok_def pb_writes_ok_def by simp
  with V_Len show ?thesis by (auto simp: wire_type_def read_val_def)
next
  case (V_Int32 i)
  with assms have "\<exists>q. read_tag R (write_int32 R n i @ r) = (8 * n, q) \<and> read_int32 R q = Some (i, r)"
    unfolding pb_ok_def pb_writes_ok_def by simp
  with V_Int32 show ?thesis by (auto simp: wire_type_def read_val_def)
next
  case (V_Int64 i)
  with assms have "\<exists>q. read_tag R (write_int64 R n i @ r) = (8 * n, q) \<and> read_int64 R q = Some (i, r)"
    unfolding pb_ok_def pb_writes_ok_def by simp
  with V_Int64 show ?thesis by (auto simp: wire_type_def read_val_def)
next
  case (V_Double d)
  with assms have "\<exists>q. read_tag R (write_double R n d @ r) = (8 * n + 1, q) \<and> read_double R q = Some (d, r)"
    unfolding pb_ok_def pb_writes_ok_def by simp
  with V_Double show ?thesis by (auto simp: wire_type_def read_val_def)
next
  case (V_Msg k b)
  with assms have "unat k = length b" "\<exists>q. read_tag R (write_head R n (length b) @ b @ r) = (8 * n + 2, q) \<and> read_limited R q = Some (b, r)"
    unfolding pb_ok_def pb_writes_ok_def by simp_all
  moreover from this(1) have "of_nat (length b) = k" by (metis word_unat_eq_iff unat_of_nat32 of_nat_unat ucast_id)
  ultimately show ?thesis using V_Msg by (auto simp: wire_type_def read_val_def)
qed

lemma size_written:
  assumes "pb_ok R" "val_fits v" "0 < n" "n < 16"
  shows "of_nat (length (write_val R n v)) = 1 + val_size R v"
proof (cases v)
  case (V_Msg k b)
  with assms have "length (write_head R n (unat k)) + length b = 1 + msg_size R (unat k)"
    unfolding pb_ok_def pb_writes_ok_def by simp
  with V_Msg show ?thesis by (simp flip: of_nat_add)
qed (use assms in \<open>simp_all add: pb_ok_def pb_writes_ok_def\<close>)

lemma merges_written:
  assumes R: "pb_ok R" and D: "desc_ok D" "i < length (fds D)"
    and v: "val_fits v" "val_kind v = kind (fds D ! i)" "takes (fds D ! i) v m"
    and rest: "merges R D None (setf (fds D ! i) v m) r res"
  shows "merges R D None m (write_val R (number (fds D ! i)) v @ r) res"
proof -
  have num: "0 < number (fds D ! i)" "number (fds D ! i) < 16" using D by (auto simp: desc_ok_def)
  from read_written [OF R v(1) num, of r] v(2) obtain q where
    q: "read_tag R (write_val R (number (fds D ! i)) v @ r) = (field_tag (fds D ! i), q)"
    "read_val R (kind (fds D ! i)) q = (True, Some v, r)"
    by (auto simp: field_tag_def)
  from merges_field [OF R D q(2) v(3) rest] obtain n where "merge_run R D n (Some i) m q = Some res"
    by (auto simp: merges_def)
  moreover have "field_tag (fds D ! i) \<noteq> 0" using num by (simp add: field_tag_def)
  ultimately have "merge_run R D (Suc n) None m (write_val R (number (fds D ! i)) v @ r) = Some res"
    using q(1) find_field [OF D] by simp
  then show ?thesis unfolding merges_def by blast
qed

subsection \<open>What a table has to satisfy, and what follows\<close>

definition copy_field :: "'m \<Rightarrow> 'm pb_field \<Rightarrow> 'm \<Rightarrow> 'm" where
  "copy_field src f m = (case getf f src of None \<Rightarrow> m | Some v \<Rightarrow> setf f v m)"

definition msg_fits :: "'m pb_desc \<Rightarrow> 'm \<Rightarrow> bool" where
  "msg_fits D m \<longleftrightarrow> (\<forall>f \<in> set (fds D). \<forall>v. getf f m = Some v \<longrightarrow> val_fits v)"

text \<open>The laws the round trip needs, for messages with a property \<open>good\<close> (its own messages are
  good).\<close>

locale pb_codec =
  fixes D :: "'m pb_desc" and good :: "'m \<Rightarrow> bool"
  assumes desc: "desc_ok D"
    and typed: "f \<in> set (fds D) \<Longrightarrow> getf f m = Some v \<Longrightarrow> val_kind v = kind f"
    and get_set_other: "f \<in> set (fds D) \<Longrightarrow> g \<in> set (fds D) \<Longrightarrow> number g \<noteq> number f \<Longrightarrow>
      getf g (setf f v m) = getf g m"
    and get_cleared: "f \<in> set (fds D) \<Longrightarrow> getf f (cleared D) = None"
    and takes_fresh: "f \<in> set (fds D) \<Longrightarrow> good m \<Longrightarrow> getf f m = Some v \<Longrightarrow> getf f mc = None \<Longrightarrow> takes f v mc"
    and rebuilt: "good m \<Longrightarrow> unknown_of D m = [] \<Longrightarrow> fold (copy_field m) (fds D) (cleared D) = m"
begin

lemma later_unset:
  assumes "k < length (fds D)" "\<forall>f \<in> set (drop k (fds D)). getf f mc = None"
  shows "\<forall>f \<in> set (drop (Suc k) (fds D)). getf f (copy_field m (fds D ! k) mc) = None"
proof
  fix f assume f: "f \<in> set (drop (Suc k) (fds D))"
  then obtain i where "i < length (drop (Suc k) (fds D))" "f = drop (Suc k) (fds D) ! i" by (metis in_set_conv_nth)
  then obtain j where j: "Suc k \<le> j" "j < length (fds D)" "f = fds D ! j"
    by (intro that [of "Suc k + i"]) auto
  then have "number f \<noteq> number (fds D ! k)"
    using desc assms(1) by (auto simp: desc_ok_def distinct_conv_nth)
  moreover have "getf f mc = None" using assms f by (simp add: Cons_nth_drop_Suc [symmetric])
  ultimately show "getf f (copy_field m (fds D ! k) mc) = None"
    using get_set_other [of "fds D ! k" f] assms(1) j by (simp add: copy_field_def split: option.split)
qed

lemma merges_fields:
  assumes "pb_ok R" "msg_fits D m" "good m" "\<forall>f \<in> set (drop k (fds D)). getf f mc = None"
  shows "merges R D None mc (concat (map (\<lambda>f. write_field R f m) (drop k (fds D))))
     (True, True, fold (copy_field m) (drop k (fds D)) mc)"
  using assms(4)
proof (induction "length (fds D) - k" arbitrary: k mc)
  case 0
  then have "merge_run R D (Suc 0) None mc [] = Some (True, True, mc)"
    by (simp add: pb_okD(1) [OF assms(1)])
  then have "merges R D None mc [] (True, True, mc)" unfolding merges_def by blast
  with 0 show ?case by simp
next
  case (Suc d)
  then have k: "k < length (fds D)" by simp
  let ?f = "fds D ! k"
  note drop = Cons_nth_drop_Suc [OF k, symmetric]
  have IH: "merges R D None (copy_field m ?f mc) (concat (map (\<lambda>f. write_field R f m) (drop (Suc k) (fds D))))
     (True, True, fold (copy_field m) (drop (Suc k) (fds D)) (copy_field m ?f mc))"
    using Suc.hyps(2) later_unset [OF k Suc.prems] by (intro Suc.hyps(1)) simp_all
  show ?case
  proof (cases "getf ?f m")
    case None
    with IH show ?thesis by (simp add: drop write_field_def copy_field_def)
  next
    case (Some v)
    have "?f \<in> set (fds D)" "getf ?f mc = None" using k Suc.prems by (simp_all add: drop)
    with Some assms(2,3) have "val_fits v" "val_kind v = kind ?f" "takes ?f v mc"
      by (auto simp: msg_fits_def intro: typed takes_fresh)
    from merges_written [OF assms(1) desc k this] IH Some show ?thesis
      by (simp add: drop write_field_def copy_field_def)
  qed
qed

lemma merges_all:
  assumes "pb_ok R" "msg_fits D m" "good m" "unknown_of D m = []"
  shows "merge_run R D (Suc (length (serialize R D m))) None (cleared D) (serialize R D m) = Some (True, True, m)"
proof -
  have "\<forall>f \<in> set (drop 0 (fds D)). getf f (cleared D) = None" by (simp add: get_cleared)
  from merges_fields [OF assms(1-3) this] assms(4) rebuilt [OF assms(3,4)]
  have m: "merges R D None (cleared D) (serialize R D m) (True, True, m)"
    by (simp add: serialize_def)
  obtain res where res: "merge_run R D (Suc (length (serialize R D m))) None (cleared D) (serialize R D m) = Some res"
    using merge_run_total [OF assms(1) lessI] by (meson not_None_eq)
  then have "merges R D None (cleared D) (serialize R D m) res" unfolding merges_def by blast
  from merges_unique [OF m this] res show ?thesis by simp
qed

text \<open>Round trip: what \<^verbatim>\<open>SerializeToString\<close> writes, \<^verbatim>\<open>ParseFromString\<close> reads back, and it returns
  true exactly when the required fields were set.\<close>

lemma parse_serialize:
  assumes "pb_ok R" "msg_fits D m" "good m" "unknown_of D m = []"
  shows "parse_from R D (serialize R D m) = (is_initialized D m, m)"
  using merges_all [OF assms] by (simp only: parse_from_def option.case prod.case simp_thms)

text \<open>\<^verbatim>\<open>ByteSize\<close> is the number of bytes written modulo \<open>2 ^ 32\<close>, and exactly that number, as an
  int, if they are fewer than \<open>2 ^ 31\<close>.\<close>

lemma byte_size_exact:
  assumes "pb_ok R" "msg_fits D m"
  shows "byte_size R D m = of_nat (length (serialize R D m))"
proof -
  have "(case getf f m of None \<Rightarrow> 0 | Some v \<Rightarrow> 1 + val_size R v) = of_nat (length (write_field R f m))"
    if f: "f \<in> set (fds D)" for f
  proof (cases "getf f m")
    case (Some v)
    have "0 < number f" "number f < 16" using desc f by (auto simp: desc_ok_def)
    moreover have "val_fits v" using assms(2) f Some by (auto simp: msg_fits_def)
    ultimately show ?thesis using size_written [OF assms(1)] Some by (simp add: write_field_def)
  qed (simp add: write_field_def)
  then have "map (\<lambda>f. case getf f m of None \<Rightarrow> 0 | Some v \<Rightarrow> 1 + val_size R v) (fds D) =
      map of_nat (map length (map (\<lambda>f. write_field R f m) (fds D)))"
    unfolding map_map comp_def by (rule map_cong [OF refl])
  moreover have "sum_list (map of_nat ns) = (of_nat (sum_list ns) :: int32)" for ns
    by (induction ns) simp_all
  ultimately show ?thesis unfolding byte_size_def serialize_def length_append length_concat of_nat_add
    by (simp only:)
qed

lemma byte_size_int:
  "pb_ok R \<Longrightarrow> msg_fits D m \<Longrightarrow>
     sint (byte_size R D m) = int (length (serialize R D m)) \<longleftrightarrow> length (serialize R D m) < 2 ^ 31"
  by (simp only: byte_size_exact sint_of_nat32_iff)

end

text \<open>A message whose fields are strings and numbers.\<close>

locale pb_message =
  fixes D :: "'m pb_desc"
  assumes desc: "desc_ok D"
    and typed: "f \<in> set (fds D) \<Longrightarrow> getf f m = Some v \<Longrightarrow> val_kind v = kind f"
    and get_set: "f \<in> set (fds D) \<Longrightarrow> val_kind v = kind f \<Longrightarrow> getf f (setf f v m) = Some v"
    and get_set_other: "f \<in> set (fds D) \<Longrightarrow> g \<in> set (fds D) \<Longrightarrow> number g \<noteq> number f \<Longrightarrow>
      getf g (setf f v m) = getf g m"
    and unknown_set: "f \<in> set (fds D) \<Longrightarrow> unknown_of D (setf f v m) = unknown_of D m"
    and get_cleared: "f \<in> set (fds D) \<Longrightarrow> getf f (cleared D) = None"
    and unknown_cleared: "unknown_of D (cleared D) = []"
    and get_add_unknown: "f \<in> set (fds D) \<Longrightarrow> getf f (add_unknown D u m) = getf f m"
    and unknown_add: "unknown_of D (add_unknown D u m) = unknown_of D m @ u"
    and takes_all: "f \<in> set (fds D) \<Longrightarrow> takes f v m"
    and ext: "\<forall>f \<in> set (fds D). getf f m = getf f m' \<Longrightarrow> unknown_of D m = unknown_of D m' \<Longrightarrow> m = m'"
begin

lemma fold_unknown: "set fs \<subseteq> set (fds D) \<Longrightarrow> unknown_of D (fold (copy_field src) fs m) = unknown_of D m"
  by (induction fs arbitrary: m) (simp_all add: copy_field_def unknown_set split: option.split)

lemma same_number: "f \<in> set (fds D) \<Longrightarrow> g \<in> set (fds D) \<Longrightarrow> number f = number g \<Longrightarrow> f = g"
  using desc unfolding desc_ok_def by (metis distinct_map inj_onD)

lemma get_copy_field:
  assumes "f \<in> set (fds D)" "g \<in> set (fds D)"
  shows "getf g (copy_field src f m) = (if g = f \<and> getf f src \<noteq> None then getf f src else getf g m)"
proof (cases "getf f src")
  case (Some v)
  then have v: "val_kind v = kind f" by (rule typed [OF assms(1)])
  have "getf g (setf f v m) = getf g m" if "g \<noteq> f"
    using same_number [OF assms] that by (intro get_set_other assms) auto
  with Some get_set [OF assms(1) v] show ?thesis by (auto simp: copy_field_def)
qed (simp add: copy_field_def)

lemma fold_get:
  "set fs \<subseteq> set (fds D) \<Longrightarrow> g \<in> set (fds D) \<Longrightarrow>
     getf g (fold (copy_field src) fs m) = (if g \<in> set fs \<and> getf g src \<noteq> None then getf g src else getf g m)"
  by (induction fs arbitrary: m) (auto simp: get_copy_field)

lemma merge_from_fields:
  assumes "g \<in> set (fds D)"
  shows "getf g (merge_from D src m) = (case getf g src of None \<Rightarrow> getf g m | Some v \<Rightarrow> Some v)"
    and "unknown_of D (merge_from D src m) = unknown_of D m @ unknown_of D src"
  using fold_get [OF subset_refl assms, of src m] fold_unknown [OF subset_refl, of src m] assms
  by (auto simp: merge_from_def get_add_unknown unknown_add copy_field_def [abs_def] split: option.split)

lemma copy_exact: "copy_from D src = src"
proof (rule ext)
  show "\<forall>f \<in> set (fds D). getf f (copy_from D src) = getf f src"
    by (simp add: copy_from_def merge_from_fields(1) get_cleared split: option.split)
next
  show "unknown_of D (copy_from D src) = unknown_of D src"
    using fold_unknown [OF subset_refl, of src "cleared D"]
    by (simp add: copy_from_def merge_from_def unknown_add unknown_cleared copy_field_def [abs_def])
qed

end

sublocale pb_message \<subseteq> codec: pb_codec D "\<lambda>_. True"
proof unfold_locales
  show "fold (copy_field m) (fds D) (cleared D) = m" if "unknown_of D m = []" for m
    using fold_get [OF subset_refl, of _ m "cleared D"] fold_unknown [OF subset_refl, of m "cleared D"] that
    by (intro ext) (simp_all add: get_cleared unknown_cleared)
qed (use desc typed get_set_other get_cleared takes_all in \<open>auto\<close>)

text \<open>The laws in the form in which a table given as a list proves them by computation.\<close>

lemma pb_messageI:
  assumes "desc_ok D"
    and "\<forall>f \<in> set (fds D). getf f (cleared D) = None \<and> (\<forall>v m. takes f v m \<and> unknown_of D (setf f v m) = unknown_of D m \<and>
      (getf f m = Some v \<longrightarrow> val_kind v = kind f) \<and> (val_kind v = kind f \<longrightarrow> getf f (setf f v m) = Some v)) \<and>
      (\<forall>u m. getf f (add_unknown D u m) = getf f m)"
    and "\<forall>f \<in> set (fds D). \<forall>g \<in> set (fds D). number g \<noteq> number f \<longrightarrow> (\<forall>v m. getf g (setf f v m) = getf g m)"
    and "unknown_of D (cleared D) = []" "\<And>u m. unknown_of D (add_unknown D u m) = unknown_of D m @ u"
    and "\<And>m m'. \<forall>f \<in> set (fds D). getf f m = getf f m' \<Longrightarrow> unknown_of D m = unknown_of D m' \<Longrightarrow> m = m'"
  shows "pb_message D"
  using assms by unfold_locales metis+

text \<open>A message read as a field: merged into what is there.\<close>

definition sub_merge :: "pb_rt \<Rightarrow> 'm pb_desc \<Rightarrow> bytes \<Rightarrow> 'm \<Rightarrow> bool \<times> 'm" where
  "sub_merge R D b m = (case merge_run R D (Suc (length b)) None m b of
     Some (ok, at_end, m') \<Rightarrow> (ok \<and> at_end, m') | None \<Rightarrow> (False, m))"

end
