(* ===== verification/ConnectServer.thy ===== *)
theory ConnectServer
  imports Wire
begin

text \<open>
  The messages of proto/connect_server.pb.h and proto/connect_server.pb.cc, as
  records with the tables of their generated methods, the proofs that the tables satisfy the
  contract of \<open>Wire\<close>, and a concrete runtime (base-128 varints, length-prefixed strings, eight
  bytes for a double) that satisfies \<open>pb_ok\<close>. The server uses \<^verbatim>\<open>ServiceRequest\<close>, \<^verbatim>\<open>ServiceResponse\<close>
  and \<^verbatim>\<open>SvRegRequest\<close>.
\<close>

subsection \<open>Tables\<close>

definition len_field :: "nat \<Rightarrow> ('m \<Rightarrow> bytes option) \<Rightarrow> ((bytes option \<Rightarrow> bytes option) \<Rightarrow> 'm \<Rightarrow> 'm) \<Rightarrow> 'm pb_field" where
  "len_field n g u = \<lparr>number = n, kind = K_Len, getf = (\<lambda>m. map_option V_Len (g m)),
     setf = (\<lambda>v m. case v of V_Len b \<Rightarrow> u (\<lambda>_. Some b) m | _ \<Rightarrow> m), takes = (\<lambda>_ _. True)\<rparr>"

definition int32_field :: "nat \<Rightarrow> ('m \<Rightarrow> int32 option) \<Rightarrow> ((int32 option \<Rightarrow> int32 option) \<Rightarrow> 'm \<Rightarrow> 'm) \<Rightarrow> 'm pb_field" where
  "int32_field n g u = \<lparr>number = n, kind = K_Int32, getf = (\<lambda>m. map_option V_Int32 (g m)),
     setf = (\<lambda>v m. case v of V_Int32 i \<Rightarrow> u (\<lambda>_. Some i) m | _ \<Rightarrow> m), takes = (\<lambda>_ _. True)\<rparr>"

definition int64_field :: "nat \<Rightarrow> ('m \<Rightarrow> int64 option) \<Rightarrow> ((int64 option \<Rightarrow> int64 option) \<Rightarrow> 'm \<Rightarrow> 'm) \<Rightarrow> 'm pb_field" where
  "int64_field n g u = \<lparr>number = n, kind = K_Int64, getf = (\<lambda>m. map_option V_Int64 (g m)),
     setf = (\<lambda>v m. case v of V_Int64 i \<Rightarrow> u (\<lambda>_. Some i) m | _ \<Rightarrow> m), takes = (\<lambda>_ _. True)\<rparr>"

definition double_field :: "nat \<Rightarrow> ('m \<Rightarrow> int64 option) \<Rightarrow> ((int64 option \<Rightarrow> int64 option) \<Rightarrow> 'm \<Rightarrow> 'm) \<Rightarrow> 'm pb_field" where
  "double_field n g u = \<lparr>number = n, kind = K_Double, getf = (\<lambda>m. map_option V_Double (g m)),
     setf = (\<lambda>v m. case v of V_Double i \<Rightarrow> u (\<lambda>_. Some i) m | _ \<Rightarrow> m), takes = (\<lambda>_ _. True)\<rparr>"

text \<open>\<^verbatim>\<open>ServiceRequest\<close>: an option is the value with its has bit; the accessor of an unset field gives
  the default.\<close>

record service_request =
  sq_sessid :: "bytes option"
  sq_service_type :: "int32 option"
  sq_sn :: "bytes option"
  sq_payload :: "bytes option"
  sq_unknown :: bytes

definition service_request_new :: service_request where
  "service_request_new = \<lparr>sq_sessid = None, sq_service_type = None, sq_sn = None, sq_payload = None, sq_unknown = []\<rparr>"

definition service_request_desc :: "service_request pb_desc" where
  "service_request_desc =
     \<lparr>fds = [len_field 1 sq_sessid sq_sessid_update, int32_field 2 sq_service_type sq_service_type_update,
        len_field 3 sq_sn sq_sn_update, len_field 4 sq_payload sq_payload_update],
      cleared = service_request_new, unknown_of = sq_unknown,
      add_unknown = (\<lambda>u. sq_unknown_update (\<lambda>x. x @ u)), required = [1, 2, 3]\<rparr>"

record service_response =
  sp_sessid :: "bytes option"
  sp_service_type :: "int32 option"
  sp_sn :: "bytes option"
  sp_status :: "int32 option"
  sp_payload :: "bytes option"
  sp_unknown :: bytes

definition service_response_new :: service_response where
  "service_response_new = \<lparr>sp_sessid = None, sp_service_type = None, sp_sn = None, sp_status = None,
     sp_payload = None, sp_unknown = []\<rparr>"

definition service_response_desc :: "service_response pb_desc" where
  "service_response_desc =
     \<lparr>fds = [len_field 1 sp_sessid sp_sessid_update, int32_field 2 sp_service_type sp_service_type_update,
        len_field 3 sp_sn sp_sn_update, int32_field 4 sp_status sp_status_update,
        len_field 5 sp_payload sp_payload_update],
      cleared = service_response_new, unknown_of = sp_unknown,
      add_unknown = (\<lambda>u. sp_unknown_update (\<lambda>x. x @ u)), required = [1, 2, 3, 4]\<rparr>"

record sv_reg_request =
  rg_service_type :: "int32 option"
  rg_unknown :: bytes

definition sv_reg_request_desc :: "sv_reg_request pb_desc" where
  "sv_reg_request_desc =
     \<lparr>fds = [int32_field 1 rg_service_type rg_service_type_update],
      cleared = \<lparr>rg_service_type = None, rg_unknown = []\<rparr>, unknown_of = rg_unknown,
      add_unknown = (\<lambda>u. rg_unknown_update (\<lambda>x. x @ u)), required = [1]\<rparr>"

record login_request =
  lq_cid :: "bytes option"
  lq_device_type :: "int32 option"
  lq_unknown :: bytes

definition login_request_desc :: "login_request pb_desc" where
  "login_request_desc =
     \<lparr>fds = [len_field 1 lq_cid lq_cid_update, int32_field 2 lq_device_type lq_device_type_update],
      cleared = \<lparr>lq_cid = None, lq_device_type = None, lq_unknown = []\<rparr>, unknown_of = lq_unknown,
      add_unknown = (\<lambda>u. lq_unknown_update (\<lambda>x. x @ u)), required = [1]\<rparr>"

record login_response =
  ls_status :: "int32 option"
  ls_sessid :: "bytes option"
  ls_unknown :: bytes

definition login_response_desc :: "login_response pb_desc" where
  "login_response_desc =
     \<lparr>fds = [int32_field 1 ls_status ls_status_update, len_field 2 ls_sessid ls_sessid_update],
      cleared = \<lparr>ls_status = None, ls_sessid = None, ls_unknown = []\<rparr>, unknown_of = ls_unknown,
      add_unknown = (\<lambda>u. ls_unknown_update (\<lambda>x. x @ u)), required = [1]\<rparr>"

record sv_reg_response =
  rp_status :: "int32 option"
  rp_unknown :: bytes

definition sv_reg_response_desc :: "sv_reg_response pb_desc" where
  "sv_reg_response_desc =
     \<lparr>fds = [int32_field 1 rp_status rp_status_update],
      cleared = \<lparr>rp_status = None, rp_unknown = []\<rparr>, unknown_of = rp_unknown,
      add_unknown = (\<lambda>u. rp_unknown_update (\<lambda>x. x @ u)), required = [1]\<rparr>"

record kick_cli_request =
  kq_reason :: "bytes option"
  kq_unknown :: bytes

definition kick_cli_request_desc :: "kick_cli_request pb_desc" where
  "kick_cli_request_desc =
     \<lparr>fds = [len_field 1 kq_reason kq_reason_update],
      cleared = \<lparr>kq_reason = None, kq_unknown = []\<rparr>, unknown_of = kq_unknown,
      add_unknown = (\<lambda>u. kq_unknown_update (\<lambda>x. x @ u)), required = []\<rparr>"

text \<open>The tags the generated code expects (\<^verbatim>\<open>ExpectTag(16)\<close> and so on).\<close>

lemma expected_tags:
  "map field_tag (fds service_request_desc) = [10, 16, 26, 34]"
  "map field_tag (fds service_response_desc) = [10, 16, 26, 32, 42]"
  "map field_tag (fds sv_reg_request_desc) = [8]"
  by (simp_all add: service_request_desc_def service_response_desc_def sv_reg_request_desc_def
      field_tag_def len_field_def int32_field_def wire_type_def)

lemma len_field_simps [simp]:
  "number (len_field n g u) = n" "kind (len_field n g u) = K_Len"
  "getf (len_field n g u) m = map_option V_Len (g m)" "takes (len_field n g u) v m"
  "setf (len_field n g u) v m = (case v of V_Len b \<Rightarrow> u (\<lambda>_. Some b) m | _ \<Rightarrow> m)"
  by (simp_all add: len_field_def)

lemma int32_field_simps [simp]:
  "number (int32_field n g u) = n" "kind (int32_field n g u) = K_Int32"
  "getf (int32_field n g u) m = map_option V_Int32 (g m)" "takes (int32_field n g u) v m"
  "setf (int32_field n g u) v m = (case v of V_Int32 i \<Rightarrow> u (\<lambda>_. Some i) m | _ \<Rightarrow> m)"
  by (simp_all add: int32_field_def)

lemma int64_field_simps [simp]:
  "number (int64_field n g u) = n" "kind (int64_field n g u) = K_Int64"
  "getf (int64_field n g u) m = map_option V_Int64 (g m)" "takes (int64_field n g u) v m"
  "setf (int64_field n g u) v m = (case v of V_Int64 i \<Rightarrow> u (\<lambda>_. Some i) m | _ \<Rightarrow> m)"
  by (simp_all add: int64_field_def)

lemma double_field_simps [simp]:
  "number (double_field n g u) = n" "kind (double_field n g u) = K_Double"
  "getf (double_field n g u) m = map_option V_Double (g m)" "takes (double_field n g u) v m"
  "setf (double_field n g u) v m = (case v of V_Double d \<Rightarrow> u (\<lambda>_. Some d) m | _ \<Rightarrow> m)"
  by (simp_all add: double_field_def)

lemma map_option_kind [simp]:
  "map_option V_Len x = Some v \<longleftrightarrow> (\<exists>b. x = Some b \<and> v = V_Len b)"
  "map_option V_Int32 y = Some v \<longleftrightarrow> (\<exists>i. y = Some i \<and> v = V_Int32 i)"
  "map_option V_Int64 z = Some v \<longleftrightarrow> (\<exists>i. z = Some i \<and> v = V_Int64 i)"
  "map_option V_Double z = Some v \<longleftrightarrow> (\<exists>i. z = Some i \<and> v = V_Double i)"
  by auto

lemma map_option_same [simp]:
  "map_option V_Len x = map_option V_Len x' \<longleftrightarrow> x = x'"
  "map_option V_Int32 y = map_option V_Int32 y' \<longleftrightarrow> y = y'"
  "map_option V_Int64 z = map_option V_Int64 z' \<longleftrightarrow> z = z'"
  "map_option V_Double z = map_option V_Double z' \<longleftrightarrow> z = z'"
  by (rule inj_eq [OF option.inj_map], simp add: inj_def)+

lemma val_kind_iff [simp]:
  "val_kind v = K_Len \<longleftrightarrow> (\<exists>b. v = V_Len b)" "val_kind v = K_Int32 \<longleftrightarrow> (\<exists>i. v = V_Int32 i)"
  "val_kind v = K_Int64 \<longleftrightarrow> (\<exists>i. v = V_Int64 i)" "val_kind v = K_Double \<longleftrightarrow> (\<exists>i. v = V_Double i)"
  by (cases v; simp)+

interpretation sq: pb_message service_request_desc
  by (rule pb_messageI) (auto simp: service_request_desc_def service_request_new_def desc_ok_def split: pb_val.split)

interpretation sp: pb_message service_response_desc
  by (rule pb_messageI) (auto simp: service_response_desc_def service_response_new_def desc_ok_def split: pb_val.split)

interpretation rg: pb_message sv_reg_request_desc
  by (rule pb_messageI) (auto simp: sv_reg_request_desc_def desc_ok_def split: pb_val.split)

interpretation lq: pb_message login_request_desc
  by (rule pb_messageI) (auto simp: login_request_desc_def desc_ok_def split: pb_val.split)

interpretation ls: pb_message login_response_desc
  by (rule pb_messageI) (auto simp: login_response_desc_def desc_ok_def split: pb_val.split)

interpretation rp: pb_message sv_reg_response_desc
  by (rule pb_messageI) (auto simp: sv_reg_response_desc_def desc_ok_def split: pb_val.split)

interpretation kq: pb_message kick_cli_request_desc
  by (rule pb_messageI) (auto simp: kick_cli_request_desc_def desc_ok_def split: pb_val.split)

subsection \<open>A runtime that satisfies the contract\<close>

fun varint :: "nat \<Rightarrow> bytes" where
  "varint n = (if n < 128 then [of_nat n] else of_nat (n mod 128 + 128) # varint (n div 128))"

declare varint.simps [simp del]

fun read_varint :: "bytes \<Rightarrow> (nat \<times> bytes) option" where
  "read_varint [] = None"
| "read_varint (b # bs) = (if unat b < 128 then Some (unat b, bs)
     else map_option (\<lambda>(n, r). (unat b - 128 + 128 * n, r)) (read_varint bs))"

lemma read_varint_varint [simp]: "read_varint (varint n @ r) = Some (n, r)"
proof (induction n rule: varint.induct)
  case (1 n)
  show ?case
  proof (cases "n < 128")
    case True
    then show ?thesis by (simp add: varint.simps [of n] unat_of_nat)
  next
    case False
    have m: "n mod 128 < 128" by simp
    have "unat (of_nat (n mod 128 + 128) :: byte) = n mod 128 + 128"
      unfolding unat_of_nat using m by simp
    with False 1 show ?thesis by (simp add: varint.simps [of n] del: of_nat_add)
  qed
qed

lemma read_varint_shorter: "read_varint bs = Some (n, r) \<Longrightarrow> length r < length bs"
  by (induction bs arbitrary: n) (auto split: if_splits intro: less_SucI)

definition demo_int32 :: "int32 \<Rightarrow> nat" where
  "demo_int32 i = unat (scast i :: int64)"

definition demo_read_len :: "bytes \<Rightarrow> bool \<times> bytes \<times> bytes" where
  "demo_read_len bs = (case read_varint bs of None \<Rightarrow> (False, [], bs)
     | Some (n, r) \<Rightarrow> if n \<le> length r then (True, take n r, drop n r) else (False, r, []))"

definition demo_skip :: "nat \<Rightarrow> bytes \<Rightarrow> (bytes \<times> bytes) option" where
  "demo_skip t bs =
     (if t mod 8 = 0 then map_option (\<lambda>(n, r). (varint t @ varint n, r)) (read_varint bs)
      else if t mod 8 = 2 then (case demo_read_len bs of (ok, s, r) \<Rightarrow>
        if ok then Some (varint t @ varint (length s) @ s, r) else None)
      else if t mod 8 = 1 \<and> 8 \<le> length bs then Some (varint t @ take 8 bs, drop 8 bs)
      else if t mod 8 = 5 \<and> 4 \<le> length bs then Some (varint t @ take 4 bs, drop 4 bs)
      else None)"

definition demo_read_tag :: "bytes \<Rightarrow> nat \<times> bytes" where
  "demo_read_tag bs = (case read_varint bs of None \<Rightarrow> (0, bs) | Some p \<Rightarrow> p)"

text \<open>Eight bytes, the lowest first.\<close>

definition bytes_le :: "int64 \<Rightarrow> bytes" where
  "bytes_le d = [ucast d, ucast (drop_bit 8 d), ucast (drop_bit 16 d), ucast (drop_bit 24 d),
     ucast (drop_bit 32 d), ucast (drop_bit 40 d), ucast (drop_bit 48 d), ucast (drop_bit 56 d)]"

definition le_bytes :: "bytes \<Rightarrow> int64" where
  "le_bytes bs = foldr (\<lambda>b a. push_bit 8 a OR ucast b) bs 0"

lemma length_bytes_le [simp]: "length (bytes_le d) = 8"
  by (simp add: bytes_le_def)

lemma le_bytes_bytes_le [simp]: "le_bytes (bytes_le d) = d"
proof (rule bit_word_eqI)
  fix n assume "n < LENGTH(64)"
  then consider "n < 8" | "8 \<le> n" "n < 16" | "16 \<le> n" "n < 24" | "24 \<le> n" "n < 32" | "32 \<le> n" "n < 40" | "40 \<le> n" "n < 48" |
    "48 \<le> n" "n < 56" | "56 \<le> n" "n < 64" by (simp, linarith)
  then show "bit (le_bytes (bytes_le d)) n \<longleftrightarrow> bit d n"
    by cases (auto simp: le_bytes_def bytes_le_def bit_simps)
qed

definition demo_rt :: pb_rt where
  "demo_rt =
     \<lparr>read_tag = demo_read_tag,
      expect_tag = (\<lambda>t bs. if t \<noteq> 0 \<and> fst (demo_read_tag bs) = t then Some (snd (demo_read_tag bs)) else None),
      expect_at_end = (\<lambda>bs. bs = []),
      read_len = demo_read_len,
      read_int32 = (\<lambda>bs. map_option (\<lambda>(n, r). (of_nat n, r)) (read_varint bs)),
      read_int64 = (\<lambda>bs. map_option (\<lambda>(n, r). (of_nat n, r)) (read_varint bs)),
      read_double = (\<lambda>bs. if 8 \<le> length bs then Some (le_bytes (take 8 bs), drop 8 bs) else None),
      read_limited = (\<lambda>bs. map_option (\<lambda>(n, r). (take n r, drop n r)) (read_varint bs)),
      skip_field = demo_skip,
      write_len = (\<lambda>n b. varint (8 * n + 2) @ varint (length b) @ b),
      write_int32 = (\<lambda>n i. varint (8 * n) @ varint (demo_int32 i)),
      write_int64 = (\<lambda>n i. varint (8 * n) @ varint (unat i)),
      write_double = (\<lambda>n d. varint (8 * n + 1) @ bytes_le d),
      write_head = (\<lambda>n k. varint (8 * n + 2) @ varint k),
      len_size = (\<lambda>b. length (varint (length b)) + length b),
      int32_size = (\<lambda>i. length (varint (demo_int32 i))),
      int64_size = (\<lambda>i. length (varint (unat i))),
      msg_size = (\<lambda>k. length (varint k) + k)\<rparr>"

lemma of_nat_demo_int32: "(of_nat (demo_int32 i) :: int32) = i"
proof -
  have "(of_nat (demo_int32 i) :: int32) = ucast (scast i :: int64)"
    by (simp add: demo_int32_def)
  also have "\<dots> = i" by (rule bit_word_eqI) (simp add: bit_ucast_iff bit_simps)
  finally show ?thesis .
qed

lemma short_tag: "n < 16 \<Longrightarrow> k < 8 \<Longrightarrow> length (varint (8 * n + k)) = Suc 0"
  by (subst varint.simps) simp

lemma demo_read_len_shorter: "demo_read_len bs = (True, s, r) \<Longrightarrow> length r < length bs"
  by (auto simp: demo_read_len_def split: option.splits if_splits dest!: read_varint_shorter)

lemma demo_skip_shorter: "demo_skip t bs = Some (u, r) \<Longrightarrow> length r \<le> length bs"
  by (auto simp: demo_skip_def split: if_splits prod.splits
      dest: read_varint_shorter demo_read_len_shorter intro: less_imp_le)

lemma pb_ok_demo: "pb_ok demo_rt"
proof -
  have "pb_reads_ok demo_rt"
    unfolding pb_reads_ok_def
    by (auto simp: demo_rt_def demo_read_tag_def dest: read_varint_shorter demo_read_len_shorter demo_skip_shorter
        split: option.splits if_splits)
  moreover have "pb_writes_ok demo_rt"
    unfolding pb_writes_ok_def
    by (auto simp: demo_rt_def demo_read_tag_def demo_read_len_def of_nat_demo_int32
        short_tag [of _ 2, simplified] short_tag [of _ 0, simplified] short_tag [of _ 1, simplified])
  ultimately show ?thesis by (simp add: pb_ok_def)
qed

subsection \<open>Properties\<close>

text \<open>C14: Round trip of the messages. What \<^verbatim>\<open>SerializeToString\<close> writes for a \<^verbatim>\<open>ServiceRequest\<close> or a
  \<^verbatim>\<open>ServiceResponse\<close> without unknown fields, \<^verbatim>\<open>ParseFromString\<close> reads back field by field, has
  bits included, and it reports success exactly when the required fields were set (for the
  response: sessid, service_type, sn and status).\<close>

theorem messages_roundtrip:
  assumes "pb_ok R"
  shows "(msg_fits service_request_desc q \<and> sq_unknown q = [] \<longrightarrow>
      parse_from R service_request_desc (serialize R service_request_desc q) =
        (sq_sessid q \<noteq> None \<and> sq_service_type q \<noteq> None \<and> sq_sn q \<noteq> None, q)) \<and>
    (msg_fits service_response_desc p \<and> sp_unknown p = [] \<longrightarrow>
      parse_from R service_response_desc (serialize R service_response_desc p) =
        (sp_sessid p \<noteq> None \<and> sp_service_type p \<noteq> None \<and> sp_sn p \<noteq> None \<and> sp_status p \<noteq> None, p))"
proof (intro conjI impI; elim conjE)
  assume "msg_fits service_request_desc q" "sq_unknown q = []"
  then show "parse_from R service_request_desc (serialize R service_request_desc q) =
      (sq_sessid q \<noteq> None \<and> sq_service_type q \<noteq> None \<and> sq_sn q \<noteq> None, q)"
    by (subst sq.codec.parse_serialize [OF assms]) (simp_all add: is_initialized_def service_request_desc_def)
next
  assume "msg_fits service_response_desc p" "sp_unknown p = []"
  then show "parse_from R service_response_desc (serialize R service_response_desc p) =
      (sp_sessid p \<noteq> None \<and> sp_service_type p \<noteq> None \<and> sp_sn p \<noteq> None \<and> sp_status p \<noteq> None, p)"
    by (subst sp.codec.parse_serialize [OF assms]) (simp_all add: is_initialized_def service_response_desc_def)
qed

text \<open>The messages the server does not use.\<close>

lemma other_messages_roundtrip:
  assumes "pb_ok R"
  shows "msg_fits login_request_desc a \<Longrightarrow> lq_unknown a = [] \<Longrightarrow>
      parse_from R login_request_desc (serialize R login_request_desc a) = (lq_cid a \<noteq> None, a)"
    and "msg_fits login_response_desc b \<Longrightarrow> ls_unknown b = [] \<Longrightarrow>
      parse_from R login_response_desc (serialize R login_response_desc b) = (ls_status b \<noteq> None, b)"
    and "rp_unknown c = [] \<Longrightarrow>
      parse_from R sv_reg_response_desc (serialize R sv_reg_response_desc c) = (rp_status c \<noteq> None, c)"
    and "msg_fits kick_cli_request_desc d \<Longrightarrow> kq_unknown d = [] \<Longrightarrow>
      parse_from R kick_cli_request_desc (serialize R kick_cli_request_desc d) = (True, d)"
proof -
  have "msg_fits sv_reg_response_desc c" by (auto simp: msg_fits_def sv_reg_response_desc_def)
  then show "rp_unknown c = [] \<Longrightarrow>
      parse_from R sv_reg_response_desc (serialize R sv_reg_response_desc c) = (rp_status c \<noteq> None, c)"
    by (subst rp.codec.parse_serialize [OF assms]) (simp_all add: is_initialized_def sv_reg_response_desc_def)
qed (subst lq.codec.parse_serialize [OF assms] ls.codec.parse_serialize [OF assms] kq.codec.parse_serialize [OF assms];
    simp add: is_initialized_def login_request_desc_def login_response_desc_def kick_cli_request_desc_def)+

text \<open>A response without its status, as the default \<^verbatim>\<open>task_responser::parser\<close> builds it.\<close>

definition demo_response :: service_response where
  "demo_response = service_response_new\<lparr>sp_sessid := Some [115], sp_service_type := Some 600,
     sp_sn := Some [110, 49], sp_payload := Some []\<rparr>"

lemma demo_response_fits: "msg_fits service_response_desc demo_response"
  by (simp add: msg_fits_def service_response_desc_def demo_response_def service_response_new_def)

theorem messages_roundtrip_witness:
  "parse_from demo_rt service_response_desc (serialize demo_rt service_response_desc demo_response) =
     (False, demo_response) \<and>
   parse_from demo_rt service_response_desc (serialize demo_rt service_response_desc (demo_response\<lparr>sp_status := Some (-1)\<rparr>)) =
     (True, demo_response\<lparr>sp_status := Some (-1)\<rparr>)"
proof -
  have "msg_fits service_response_desc (demo_response\<lparr>sp_status := Some (-1)\<rparr>)"
    by (simp add: msg_fits_def service_response_desc_def demo_response_def service_response_new_def)
  then show ?thesis
    using messages_roundtrip [OF pb_ok_demo, of service_request_new demo_response]
      messages_roundtrip [OF pb_ok_demo, of service_request_new "demo_response\<lparr>sp_status := Some (-1)\<rparr>"]
      demo_response_fits
    by (simp add: demo_response_def service_response_new_def)
qed

text \<open>C37: \<^verbatim>\<open>ByteSize\<close>, an int, is the number of bytes \<^verbatim>\<open>SerializeWithCachedSizes\<close> writes, unknown
  fields included, exactly when they are fewer than \<open>2 ^ 31\<close>, for \<^verbatim>\<open>ServiceRequest\<close>,
  \<^verbatim>\<open>ServiceResponse\<close> and \<^verbatim>\<open>SvRegRequest\<close> with strings of fewer than \<open>2 ^ 31\<close> bytes each: below
  that the buffer that is sized by it is filled and not overrun, beyond it the sum overflows although
  every string is short enough.\<close>

theorem byte_size_is_length:
  assumes "pb_ok R"
  shows "(msg_fits service_request_desc q \<longrightarrow>
      (sint (byte_size R service_request_desc q) = int (length (serialize R service_request_desc q)) \<longleftrightarrow>
       length (serialize R service_request_desc q) < 2 ^ 31)) \<and>
    (msg_fits service_response_desc p \<longrightarrow>
      (sint (byte_size R service_response_desc p) = int (length (serialize R service_response_desc p)) \<longleftrightarrow>
       length (serialize R service_response_desc p) < 2 ^ 31)) \<and>
    (sint (byte_size R sv_reg_request_desc r) = int (length (serialize R sv_reg_request_desc r)) \<longleftrightarrow>
       length (serialize R sv_reg_request_desc r) < 2 ^ 31)"
proof -
  have "msg_fits sv_reg_request_desc r"
    by (auto simp: msg_fits_def sv_reg_request_desc_def)
  with sq.codec.byte_size_int [OF assms] sp.codec.byte_size_int [OF assms] rg.codec.byte_size_int [OF assms]
  show ?thesis by blast
qed

theorem byte_size_is_length_witness:
  "sint (byte_size demo_rt service_response_desc demo_response) = 12 \<and>
   length (serialize demo_rt service_response_desc demo_response) = 12"
proof -
  have "length (serialize demo_rt service_response_desc demo_response) = 12" by code_simp
  then show ?thesis
    using byte_size_is_length [OF pb_ok_demo, of service_request_new demo_response] demo_response_fits by simp
qed

end
