(* ===== verification/JsonData.thy ===== *)
theory JsonData
  imports BPrelude "HOL-Library.AList"
begin

text \<open>
  The JSON helpers: \<^verbatim>\<open>json_parser\<close> (src/json_parser.cpp), \<^verbatim>\<open>service_request_json_data\<close>
  (src/service_request_json_data.cpp) and \<^verbatim>\<open>json_push_packet\<close> (src/json_push_packet.cpp,
  include/json_push_packet.h). jsoncpp itself is a parameter: a type of values with the calls the
  code makes; a call on a value of the wrong type may throw. \<open>json_ok\<close> states what its
  documentation promises for objects of string members.
\<close>

subsection \<open>jsoncpp\<close>

text \<open>\<open>j_index\<close> is the non-const \<^verbatim>\<open>operator[]\<close>, which inserts a null member; it gives the member
  and the object afterwards. \<open>j_parse\<close> gives the returned flag and the value as it was left.\<close>

record 'j json_api =
  j_parse :: "string \<Rightarrow> 'j \<Rightarrow> bool outcome \<times> 'j"
  j_write :: "'j \<Rightarrow> string outcome"
  j_null :: 'j
  j_string :: "string \<Rightarrow> 'j"
  j_int :: "int \<Rightarrow> 'j"
  j_uint :: "nat \<Rightarrow> 'j"
  j_is_null :: "'j \<Rightarrow> bool"
  j_is_object :: "'j \<Rightarrow> bool"
  j_is_string :: "'j \<Rightarrow> bool"
  j_is_int :: "'j \<Rightarrow> bool"
  j_is_array :: "'j \<Rightarrow> bool"
  j_size :: "'j \<Rightarrow> nat"
  j_is_member :: "string \<Rightarrow> 'j \<Rightarrow> bool outcome"
  j_index :: "string \<Rightarrow> 'j \<Rightarrow> ('j \<times> 'j) outcome"
  j_get :: "string \<Rightarrow> 'j \<Rightarrow> 'j \<Rightarrow> 'j outcome"
  j_elem :: "nat \<Rightarrow> 'j \<Rightarrow> 'j outcome"
  j_as_string :: "'j \<Rightarrow> string outcome"
  j_as_int :: "'j \<Rightarrow> int outcome"
  j_as_uint :: "'j \<Rightarrow> nat outcome"
  j_put :: "string \<Rightarrow> 'j \<Rightarrow> 'j \<Rightarrow> 'j"

text \<open>Calls on the state: a query, and \<^verbatim>\<open>operator[]\<close> on it.\<close>

definition ask :: "('j \<Rightarrow> 'a outcome) \<Rightarrow> ('j, 'a) action" where
  "ask f v = (f v, v)"

definition ask_index :: "'j json_api \<Rightarrow> string \<Rightarrow> ('j, 'j) action" where
  "ask_index J k v = (case j_index J k v of Ret (x, v') \<Rightarrow> (Ret x, v') | Throws \<Rightarrow> (Throws, v))"

lemmas ask_defs = ask_def ask_index_def

subsection \<open>\<^verbatim>\<open>json_parser\<close>\<close>

definition json_decode :: "'j json_api \<Rightarrow> string \<Rightarrow> 'j \<Rightarrow> int \<times> 'j" where
  "json_decode J json_str v =
     (case j_parse J json_str v of
        (Throws, v') \<Rightarrow> (-1, v')
      | (Ret ok, v') \<Rightarrow>
          if \<not> ok then (-1, v')
          else if j_is_null J v' \<or> \<not> j_is_object J v' then (-1, v')
          else (0, v'))"

definition json_encode :: "'j json_api \<Rightarrow> 'j \<Rightarrow> string" where
  "json_encode J v = (case j_write J v of Ret s \<Rightarrow> s | Throws \<Rightarrow> [])"

subsection \<open>\<^verbatim>\<open>service_request_json_data\<close>\<close>

text \<open>The constructor; the status of \<^verbatim>\<open>decode\<close> is not looked at.\<close>

definition json_data_new :: "'j json_api \<Rightarrow> string \<Rightarrow> 'j" where
  "json_data_new J json = snd (json_decode J json (j_null J))"

text \<open>The common text of \<^verbatim>\<open>cid()\<close>, \<^verbatim>\<open>service_id()\<close> and \<^verbatim>\<open>data()\<close>.\<close>

definition string_member :: "'j json_api \<Rightarrow> string \<Rightarrow> ('j, string) action" where
  "string_member J k v =
     (if 0 < j_size J v
      then act_bind (ask (j_is_member J k)) (\<lambda>mem.
           if mem
           then act_bind (ask_index J k) (\<lambda>x.
                if j_is_string J x
                then act_bind (ask (j_get J k (j_string J []))) (\<lambda>y. ask (\<lambda>_. j_as_string J y))
                else act_ret [])
           else act_ret []) v
      else act_ret [] v)"

definition json_cid :: "'j json_api \<Rightarrow> ('j, string) action" where
  "json_cid J = string_member J ''cid''"

definition json_service_id :: "'j json_api \<Rightarrow> ('j, string) action" where
  "json_service_id J = string_member J ''service_id''"

definition json_data :: "'j json_api \<Rightarrow> ('j, string) action" where
  "json_data J = string_member J ''data''"

definition to_service_request :: "'j json_api \<Rightarrow> string \<Rightarrow> string \<Rightarrow> string \<Rightarrow> string" where
  "to_service_request J cid sid data =
     (let pt = j_put J ''service_id'' (j_string J sid) (j_null J);
          pt = j_put J ''cid'' (j_string J cid) pt;
          pt = j_put J ''data'' (j_string J data) pt
      in json_encode J pt)"

subsection \<open>\<^verbatim>\<open>json_push_packet\<close>\<close>

record 'j push_packet =
  pk_value :: 'j
  pk_type :: int
  pk_device_id :: int
  pk_sn :: string
  pt_helper :: 'j

text \<open>\<^verbatim>\<open>init_packet_type\<close>, on the parsed value and the packet.\<close>

definition int_member_or :: "'j json_api \<Rightarrow> string \<Rightarrow> int \<Rightarrow> int \<Rightarrow> ('j, int) action" where
  "int_member_or J k d old =
     act_bind (ask_index J k) (\<lambda>x.
       if j_is_int J x then act_bind (ask (j_get J k (j_int J d))) (\<lambda>y. ask (\<lambda>_. j_as_int J y)) else act_ret old)"

definition init_packet_type :: "'j json_api \<Rightarrow> 'j push_packet \<Rightarrow> 'j push_packet outcome" where
  "init_packet_type J p =
     (case act_bind (int_member_or J ''type'' 0 (pk_type p)) (\<lambda>t.
        act_bind (int_member_or J ''device'' 1 (pk_device_id p)) (\<lambda>d.
        act_bind (act_bind (ask_index J ''sn'') (\<lambda>x.
            if j_is_string J x
            then act_bind (ask (j_get J ''sn'' (j_string J []))) (\<lambda>y. ask (\<lambda>_. j_as_string J y))
            else act_ret (pk_sn p))) (\<lambda>s.
        act_bind (if t = 10 then ask_index J ''push_req''
                  else if t = 11 then ask_index J ''push_resp''
                  else act_ret (pt_helper p)) (\<lambda>h.
        act_ret (t, d, s, h))))) (pk_value p) of
        (Ret (t, d, s, h), v) \<Rightarrow>
          Ret (p\<lparr>pk_value := v, pk_type := t, pk_device_id := d, pk_sn := s, pt_helper := h\<rparr>)
      | (Throws, v) \<Rightarrow> Throws)"

definition push_packet_new :: "'j json_api \<Rightarrow> string \<Rightarrow> 'j push_packet outcome" where
  "push_packet_new J json =
     (case json_decode J json (j_null J) of (st, v) \<Rightarrow>
        let p = \<lparr>pk_value = v, pk_type = 0, pk_device_id = 1, pk_sn = [], pt_helper = j_null J\<rparr>
        in if st = 0 then init_packet_type J p else Ret p)"

text \<open>The accessors, on \<^verbatim>\<open>pt_helper_\<close>.\<close>

fun cid_elements :: "'j json_api \<Rightarrow> nat \<Rightarrow> nat \<Rightarrow> ('j, string list) action" where
  "cid_elements J i 0 = act_ret []"
| "cid_elements J i (Suc n) =
     act_bind (ask_index J ''cid'') (\<lambda>a.
     act_bind (ask (\<lambda>_. j_elem J i a)) (\<lambda>x.
     act_bind (ask (\<lambda>_. j_as_string J x)) (\<lambda>s.
     act_bind (cid_elements J (Suc i) n) (\<lambda>ss. act_ret (s # ss)))))"

definition packet_cid :: "'j json_api \<Rightarrow> ('j, string list) action" where
  "packet_cid J v =
     (if 0 < j_size J v
      then act_bind (ask_index J ''cid'') (\<lambda>a.
           if j_is_array J a then cid_elements J 0 (j_size J a)
           else act_bind (ask (j_get J ''cid'' (j_string J []))) (\<lambda>y.
                act_bind (ask (\<lambda>_. j_as_string J y)) (\<lambda>s. act_ret [s]))) v
      else act_ret [] v)"

definition packet_type_text :: "'j json_api \<Rightarrow> ('j, string) action" where
  "packet_type_text J v =
     (if 0 < j_size J v
      then act_bind (ask_index J ''type'') (\<lambda>a.
           if j_is_string J a
           then act_bind (ask (j_get J ''type'' (j_string J []))) (\<lambda>y. ask (\<lambda>_. j_as_string J y))
           else act_bind (ask_index J ''type'') (\<lambda>b.
             if j_is_int J b
             then act_bind (ask (j_get J ''type'' (j_int J 0))) (\<lambda>y.
                  act_bind (ask (\<lambda>_. j_as_int J y)) (\<lambda>n. act_ret (show_int n)))
             else act_ret [])) v
      else act_ret [] v)"

definition packet_uint :: "'j json_api \<Rightarrow> string \<Rightarrow> ('j, int) action" where
  "packet_uint J k v =
     (if 0 < j_size J v
      then act_bind (ask (j_get J k (j_int J 0))) (\<lambda>y.
           act_bind (ask (\<lambda>_. j_as_uint J y)) (\<lambda>n. act_ret (int n))) v
      else act_ret (-1) v)"

definition packet_msgid :: "'j json_api \<Rightarrow> ('j, int) action" where
  "packet_msgid J = packet_uint J ''msgid''"

definition packet_expiry :: "'j json_api \<Rightarrow> ('j, int) action" where
  "packet_expiry J = packet_uint J ''expiry''"

definition packet_data :: "'j json_api \<Rightarrow> ('j, string) action" where
  "packet_data J v =
     (if 0 < j_size J v
      then act_bind (ask (j_get J ''data'' (j_string J []))) (\<lambda>y. ask (\<lambda>_. j_as_string J y)) v
      else act_ret [] v)"

text \<open>\<^verbatim>\<open>to_push_packet_response\<close>; the message id is cut to 32 bits.\<close>

definition to_push_packet_response :: "'j json_api \<Rightarrow> string \<Rightarrow> string \<Rightarrow> int64 \<Rightarrow> string" where
  "to_push_packet_response J cid type msgid =
     (let pt_packet = j_put J ''type'' (j_int J 11) (j_null J);
          pt_response = j_put J ''cid'' (j_string J cid) (j_null J);
          pt_response = j_put J ''type'' (j_string J type) pt_response;
          pt_response = j_put J ''msgid'' (j_uint J (unat (ucast msgid :: 32 word))) pt_response;
          pt_packet = j_put J ''push_resp'' pt_response pt_packet
      in json_encode J pt_packet)"

subsection \<open>What the documentation promises\<close>

definition json_obj :: "'j json_api \<Rightarrow> (string \<times> string) list \<Rightarrow> 'j" where
  "json_obj J fs = fold (\<lambda>(k, s) v. j_put J k (j_string J s) v) fs (j_null J)"

text \<open>Text of 7-bit characters without NUL; other strings may be altered by the writer.\<close>

definition json_text :: "string \<Rightarrow> bool" where
  "json_text s \<longleftrightarrow> (\<forall>c \<in> set s. 0 < (of_char c :: nat) \<and> (of_char c :: nat) < 128)"

definition json_ok :: "'j json_api \<Rightarrow> bool" where
  "json_ok J \<longleftrightarrow>
     (\<forall>s. j_is_string J (j_string J s) \<and> (json_text s \<longrightarrow> j_as_string J (j_string J s) = Ret s)) \<and>
     (\<forall>fs. fs \<noteq> [] \<and> (\<forall>(k, s) \<in> set fs. json_text k \<and> json_text s) \<longrightarrow>
        (\<exists>t. j_write J (json_obj J fs) = Ret t \<and> (\<forall>v. j_parse J t v = (Ret True, json_obj J fs))) \<and>
        \<not> j_is_null J (json_obj J fs) \<and> j_is_object J (json_obj J fs) \<and> 0 < j_size J (json_obj J fs) \<and>
        (\<forall>k. j_is_member J k (json_obj J fs) = Ret (k \<in> fst ` set fs)) \<and>
        (\<forall>k s. map_of (rev fs) k = Some s \<longrightarrow>
           j_index J k (json_obj J fs) = Ret (j_string J s, json_obj J fs) \<and>
           (\<forall>d. j_get J k d (json_obj J fs) = Ret (j_string J s))))"

lemma string_member_obj:
  assumes "json_ok J" "\<forall>(k, s) \<in> set fs. json_text k \<and> json_text s" "map_of (rev fs) k = Some s"
  shows "string_member J k (json_obj J fs) = (Ret s, json_obj J fs)"
proof -
  from map_of_SomeD [OF assms(3)] have k: "(k, s) \<in> set fs" by simp
  then have "k \<in> fst ` set fs" "fs \<noteq> []" "json_text s" using assms(2) by force+
  then show ?thesis
    using assms unfolding json_ok_def by (simp add: string_member_def act_defs ask_defs)
qed

lemma decode_encoded:
  assumes "json_ok J" "fs \<noteq> []" "\<forall>(k, s) \<in> set fs. json_text k \<and> json_text s"
  shows "json_decode J (json_encode J (json_obj J fs)) v = (0, json_obj J fs)"
proof -
  from assms obtain t where "j_write J (json_obj J fs) = Ret t" "\<forall>v. j_parse J t v = (Ret True, json_obj J fs)"
    "\<not> j_is_null J (json_obj J fs)" "j_is_object J (json_obj J fs)"
    unfolding json_ok_def by meson
  then show ?thesis by (simp add: json_decode_def json_encode_def)
qed

lemma to_service_request_obj:
  "to_service_request J cid sid data = json_encode J (json_obj J [(''service_id'', sid), (''cid'', cid), (''data'', data)])"
  by (simp add: to_service_request_def json_obj_def)

lemma json_text_keys: "json_text ''service_id''" "json_text ''cid''" "json_text ''data''"
  by (simp_all add: json_text_def)

subsection \<open>A value type that satisfies the contract\<close>

datatype demo_json = JNull | JInt int | JString string | JObject "(string \<times> demo_json) list"

fun put_string :: "string \<Rightarrow> string" where
  "put_string [] = ''0''"
| "put_string (c # cs) = CHR ''1'' # c # put_string cs"

fun take_string :: "string \<Rightarrow> (string \<times> string) option" where
  "take_string [] = None"
| "take_string [c] = (if c = CHR ''0'' then Some ([], []) else None)"
| "take_string (c # d # ds) =
     (if c = CHR ''0'' then Some ([], d # ds) else map_option (\<lambda>(s, r). (d # s, r)) (take_string ds))"

lemma take_string_put [simp]: "take_string (put_string s @ r) = Some (s, r)"
  by (induction s) (cases r; simp)+

fun put_members :: "(string \<times> demo_json) list \<Rightarrow> string option" where
  "put_members [] = Some []"
| "put_members ((k, JString s) # fs) = map_option (\<lambda>t. put_string k @ put_string s @ t) (put_members fs)"
| "put_members (f # fs) = None"

fun take_members :: "nat \<Rightarrow> string \<Rightarrow> (string \<times> demo_json) list option" where
  "take_members 0 t = None"
| "take_members (Suc n) t =
     (if t = [] then Some []
      else case take_string t of None \<Rightarrow> None
        | Some (k, t1) \<Rightarrow> (case take_string t1 of None \<Rightarrow> None
            | Some (s, t2) \<Rightarrow> map_option (\<lambda>fs. (k, JString s) # fs) (take_members n t2)))"

definition strings_only :: "(string \<times> demo_json) list \<Rightarrow> bool" where
  "strings_only fs \<longleftrightarrow> (\<forall>x \<in> snd ` set fs. \<exists>s. x = JString s)"

lemma put_string_length: "0 < length (put_string s)"
  by (cases s) simp_all

lemma members_roundtrip:
  "strings_only fs \<Longrightarrow> \<exists>t. put_members fs = Some t \<and> (\<forall>n. length t < n \<longrightarrow> take_members n t = Some fs)"
proof (induction fs)
  case Nil
  have "take_members n [] = Some []" if "0 < n" for n using that by (cases n) simp_all
  then show ?case by simp
next
  case (Cons f fs)
  then obtain k s where f: "f = (k, JString s)" by (cases f) (auto simp: strings_only_def)
  from Cons obtain t where t: "put_members fs = Some t" "\<forall>n. length t < n \<longrightarrow> take_members n t = Some fs"
    by (auto simp: strings_only_def)
  let ?t = "put_string k @ put_string s @ t"
  have "take_members n ?t = Some (f # fs)" if n: "length ?t < n" for n
  proof -
    from n obtain n' where n': "n = Suc n'" by (cases n) auto
    with n put_string_length [of k] have "length t < n'" unfolding length_append by linarith
    with t(2) have "take_members n' t = Some fs" by blast
    with n' f put_string_length [of k] show ?thesis by auto
  qed
  with f t(1) show ?case by auto
qed

definition demo_json_api :: "demo_json json_api" where
  "demo_json_api =
     \<lparr>j_parse = (\<lambda>t v. case take_members (Suc (length t)) t of
         None \<Rightarrow> (Ret False, v) | Some fs \<Rightarrow> (Ret True, JObject fs)),
      j_write = (\<lambda>v. case v of JObject fs \<Rightarrow> (case put_members fs of None \<Rightarrow> Throws | Some t \<Rightarrow> Ret t) | _ \<Rightarrow> Throws),
      j_null = JNull, j_string = JString, j_int = JInt, j_uint = (\<lambda>n. JInt (int n)),
      j_is_null = (\<lambda>v. v = JNull), j_is_object = (\<lambda>v. case v of JObject fs \<Rightarrow> True | _ \<Rightarrow> False),
      j_is_string = (\<lambda>v. case v of JString s \<Rightarrow> True | _ \<Rightarrow> False),
      j_is_int = (\<lambda>v. case v of JInt i \<Rightarrow> True | _ \<Rightarrow> False), j_is_array = (\<lambda>v. False),
      j_size = (\<lambda>v. case v of JObject fs \<Rightarrow> length fs | _ \<Rightarrow> 0),
      j_is_member = (\<lambda>k v. case v of JObject fs \<Rightarrow> Ret (map_of fs k \<noteq> None) | JNull \<Rightarrow> Ret False | _ \<Rightarrow> Throws),
      j_index = (\<lambda>k v. case v of
         JObject fs \<Rightarrow> (case map_of fs k of Some x \<Rightarrow> Ret (x, v) | None \<Rightarrow> Ret (JNull, JObject (fs @ [(k, JNull)])))
       | JNull \<Rightarrow> Ret (JNull, JObject [(k, JNull)]) | _ \<Rightarrow> Throws),
      j_get = (\<lambda>k d v. case v of JObject fs \<Rightarrow> Ret (case map_of fs k of Some x \<Rightarrow> x | None \<Rightarrow> d)
        | JNull \<Rightarrow> Ret d | _ \<Rightarrow> Throws),
      j_elem = (\<lambda>i v. Throws),
      j_as_string = (\<lambda>v. case v of JString s \<Rightarrow> Ret s | JNull \<Rightarrow> Ret [] | _ \<Rightarrow> Throws),
      j_as_int = (\<lambda>v. case v of JInt i \<Rightarrow> Ret i | JNull \<Rightarrow> Ret 0 | _ \<Rightarrow> Throws),
      j_as_uint = (\<lambda>v. case v of JInt i \<Rightarrow> if 0 \<le> i then Ret (nat i) else Throws | JNull \<Rightarrow> Ret 0 | _ \<Rightarrow> Throws),
      j_put = (\<lambda>k x v. case v of JObject fs \<Rightarrow> JObject (AList.update k x fs) | _ \<Rightarrow> JObject [(k, x)])\<rparr>"

lemma demo_obj:
  assumes "fs \<noteq> []"
  shows "\<exists>ms. json_obj demo_json_api fs = JObject ms \<and> strings_only ms \<and> ms \<noteq> [] \<and>
     (\<forall>k. map_of ms k = map_option JString (map_of (rev fs) k))"
  using assms
proof (induction fs rule: rev_induct)
  case (snoc f fs)
  obtain k s where f: "f = (k, s)" by (cases f)
  show ?case
  proof (cases "fs = []")
    case True
    with f show ?thesis by (simp add: json_obj_def demo_json_api_def strings_only_def)
  next
    case False
    with snoc obtain ms where ms: "json_obj demo_json_api fs = JObject ms" "strings_only ms" "ms \<noteq> []"
      "\<forall>k. map_of ms k = map_option JString (map_of (rev fs) k)" by auto
    have "json_obj demo_json_api (fs @ [f]) = JObject (AList.update k (JString s) ms)"
      using ms(1) f by (simp add: json_obj_def) (simp add: demo_json_api_def)
    moreover have "strings_only (AList.update k (JString s) ms)"
      using ms(2) unfolding strings_only_def by (induction ms) auto
    moreover have "AList.update k (JString s) ms \<noteq> []" by (cases ms) auto
    ultimately show ?thesis using ms(4) f by (simp add: update_conv')
  qed
qed simp

lemma json_ok_demo: "json_ok demo_json_api"
  unfolding json_ok_def
proof (intro conjI allI impI; (elim conjE)?)
  fix fs :: "(string \<times> string) list" assume "fs \<noteq> []"
  then obtain ms where ms: "json_obj demo_json_api fs = JObject ms" "strings_only ms" "ms \<noteq> []"
    "\<forall>k. map_of ms k = map_option JString (map_of (rev fs) k)" using demo_obj by blast
  from members_roundtrip [OF ms(2)] obtain t where "put_members ms = Some t" "take_members (Suc (length t)) t = Some ms"
    by blast
  with ms(1) show "\<exists>t. j_write demo_json_api (json_obj demo_json_api fs) = Ret t \<and>
      (\<forall>v. j_parse demo_json_api t v = (Ret True, json_obj demo_json_api fs))"
    by (intro exI [of _ t]) (simp add: demo_json_api_def)
  show "\<not> j_is_null demo_json_api (json_obj demo_json_api fs)" "j_is_object demo_json_api (json_obj demo_json_api fs)"
    "0 < j_size demo_json_api (json_obj demo_json_api fs)"
    unfolding ms(1) using ms(3) by (simp_all add: demo_json_api_def)
  fix k
  show "j_is_member demo_json_api k (json_obj demo_json_api fs) = Ret (k \<in> fst ` set fs)"
    unfolding ms(1) using ms(4) map_of_eq_None_iff [of "rev fs" k]
    by (auto simp: demo_json_api_def)
  fix s assume s: "map_of (rev fs) k = Some s"
  show "j_index demo_json_api k (json_obj demo_json_api fs) =
      Ret (j_string demo_json_api s, json_obj demo_json_api fs)"
    and "j_get demo_json_api k d (json_obj demo_json_api fs) = Ret (j_string demo_json_api s)" for d
    unfolding ms(1) using ms(4) s by (simp_all add: demo_json_api_def)
qed (simp_all add: demo_json_api_def)

subsection \<open>Properties\<close>

text \<open>C38: Round trip of the service requests: what \<^verbatim>\<open>to_service_request\<close> writes for a client, a
  service and a text, all of 7-bit characters other than NUL, the accessors of
  \<^verbatim>\<open>service_request_json_data\<close> read back from it.\<close>

theorem service_request_json_roundtrip:
  assumes "json_ok J" "json_text cid" "json_text sid" "json_text data"
    and "v = json_data_new J (to_service_request J cid sid data)"
  shows "json_cid J v = (Ret cid, v) \<and> json_service_id J v = (Ret sid, v) \<and> json_data J v = (Ret data, v)"
proof -
  let ?fs = "[(''service_id'', sid), (''cid'', cid), (''data'', data)]"
  have fs: "\<forall>(k, s) \<in> set ?fs. json_text k \<and> json_text s" using assms(2-4) by (simp add: json_text_keys)
  have "v = json_obj J ?fs"
    using assms(5) decode_encoded [OF assms(1) _ fs] by (simp add: json_data_new_def to_service_request_obj)
  then show ?thesis
    unfolding json_cid_def json_service_id_def json_data_def
    using string_member_obj [OF assms(1) fs] by simp
qed

theorem service_request_json_roundtrip_witness:
  "fst (json_cid demo_json_api (json_data_new demo_json_api (to_service_request demo_json_api ''c7'' ''s'' ''hi''))) = Ret ''c7''"
proof -
  have "json_text ''c7''" "json_text ''s''" "json_text ''hi''" by (simp_all add: json_text_def)
  from service_request_json_roundtrip [OF json_ok_demo this refl] show ?thesis by simp
qed

end
