(* ===== verification/HttpClient.thy ===== *)
theory HttpClient
  imports BPrelude
begin

text \<open>
  The HTTP client of httpclient/curl_base.cpp and the text filter of
  embeded_python/python_func_service_responser.h. libcurl is a parameter: whether a handle can be
  made, and for the options set on it the result code and the pieces handed to the write callback.
\<close>

subsection \<open>\<^verbatim>\<open>curl_base\<close>\<close>

text \<open>The options the code sets on a handle; \<open>None\<close> for an option that is left at its default.\<close>

record http_request =
  rq_url :: string
  rq_headers :: "string list option"
  rq_post :: "string option"
  rq_nosignal :: bool
  rq_connect_timeout :: nat
  rq_timeout :: nat

record curl_lib =
  curl_init_ok :: bool
  curl_perform :: "http_request \<Rightarrow> int \<times> string list"

type_synonym curl_headers = "string list"

text \<open>\<^verbatim>\<open>c_str()\<close> hands over the text up to the first NUL.\<close>

definition c_str :: "string \<Rightarrow> string" where
  "c_str s = takeWhile (\<lambda>c. c \<noteq> CHR 0x00) s"

definition init_json_header :: "curl_headers \<Rightarrow> curl_headers" where
  "init_json_header hs = hs @ [''Content-type: application/json'', ''Accept: application/json'',
     ''Cache-Control: no-cache'', ''Pragma: no-cache'']"

fun add_header :: "string list \<Rightarrow> curl_headers \<Rightarrow> curl_headers" where
  "add_header [] hs = hs"
| "add_header (x # xs) hs = add_header xs (hs @ [c_str x])"

definition curl_on_write_data :: "string \<Rightarrow> string \<Rightarrow> string" where
  "curl_on_write_data buffer str = str @ buffer"

definition curle_failed_init :: int where
  "curle_failed_init = 2"

definition curl_post :: "curl_lib \<Rightarrow> curl_headers \<Rightarrow> string \<Rightarrow> string \<Rightarrow> string \<Rightarrow> int \<times> string" where
  "curl_post L hs addr request_data response_data =
     (if \<not> curl_init_ok L then (curle_failed_init, response_data)
      else case curl_perform L \<lparr>rq_url = c_str addr, rq_headers = Some hs, rq_post = Some (c_str request_data),
             rq_nosignal = True, rq_connect_timeout = 3, rq_timeout = 5\<rparr> of
           (res, pieces) \<Rightarrow> (res, fold curl_on_write_data pieces response_data))"

definition curl_get :: "curl_lib \<Rightarrow> curl_headers \<Rightarrow> string \<Rightarrow> string \<Rightarrow> int \<times> string" where
  "curl_get L hs str_url response_data =
     (if \<not> curl_init_ok L then (curle_failed_init, response_data)
      else case curl_perform L \<lparr>rq_url = c_str str_url, rq_headers = None, rq_post = None,
             rq_nosignal = True, rq_connect_timeout = 3, rq_timeout = 5\<rparr> of
           (res, pieces) \<Rightarrow> (res, fold curl_on_write_data pieces response_data))"

lemma fold_curl_on_write: "fold curl_on_write_data ps s = s @ concat ps"
  by (induction ps arbitrary: s) (simp_all add: curl_on_write_data_def)

text \<open>The exchange the three http tasks share: JSON headers, the Authorization header if there is
  one, GET for an empty body and POST otherwise. The status is only logged.\<close>

definition http_exchange :: "curl_lib \<Rightarrow> string \<Rightarrow> string \<Rightarrow> string \<Rightarrow> string" where
  "http_exchange L url authorization request_data =
     (let headers = (if authorization \<noteq> [] then [''Authorization:'' @ authorization] else []);
          hs = add_header headers (init_json_header [])
      in snd (if request_data = [] then curl_get L hs url [] else curl_post L hs url request_data []))"

subsection \<open>\<^verbatim>\<open>replace_all\<close>\<close>

text \<open>\<^verbatim>\<open>str.find(src, pos)\<close>, and the loop; it does not end when \<open>src\<close> is empty.\<close>

fun find_at :: "string \<Rightarrow> nat \<Rightarrow> string \<Rightarrow> nat option" where
  "find_at src i [] = (if src = [] then Some i else None)"
| "find_at src i (c # cs) = (if starts_with src (c # cs) then Some i else find_at src (Suc i) cs)"

definition str_find :: "string \<Rightarrow> string \<Rightarrow> nat \<Rightarrow> nat option" where
  "str_find str src pos = (if length str < pos then None else find_at src pos (drop pos str))"

partial_function (option) replace_loop :: "string \<Rightarrow> string \<Rightarrow> string \<Rightarrow> nat \<Rightarrow> string option" where
  "replace_loop src dst str pos =
     (case str_find str src pos of
        None \<Rightarrow> Some str
      | Some p \<Rightarrow> replace_loop src dst (take p str @ dst @ drop (p + length src) str) (p + length dst))"

definition replace_all :: "string \<Rightarrow> string \<Rightarrow> string \<Rightarrow> string option" where
  "replace_all str src dst = replace_loop src dst str 0"

lemma find_at_Some: "find_at src i s = Some p \<Longrightarrow> i \<le> p \<and> p + length src \<le> i + length s"
proof (induction s arbitrary: i)
  case (Cons c cs)
  show ?case
  proof (cases "starts_with src (c # cs)")
    case True
    then obtain t where "c # cs = src @ t" by (auto simp: starts_with_iff)
    then have "length src \<le> length (c # cs)" by simp
    with True Cons.prems show ?thesis by simp
  next
    case False
    with Cons.IH [of "Suc i"] Cons.prems show ?thesis by simp
  qed
qed (simp split: if_splits)

lemma str_find_Some: "str_find str src pos = Some p \<Longrightarrow> pos \<le> p \<and> p + length src \<le> length str"
  using find_at_Some [of src pos "drop pos str" p] by (auto simp: str_find_def split: if_splits)

text \<open>Every turn shortens what is left behind the position, so the loop ends.\<close>

lemma replace_loop_ends:
  assumes "src \<noteq> []"
  shows "\<exists>r. replace_loop src dst str pos = Some r"
proof (induction "length str - pos" arbitrary: str pos rule: less_induct)
  case less
  show ?case
  proof (cases "str_find str src pos")
    case None
    then show ?thesis by (simp add: replace_loop.simps)
  next
    case (Some p)
    from str_find_Some [OF Some] assms
    have "length (take p str @ dst @ drop (p + length src) str) - (p + length dst) < length str - pos"
      by (cases src) auto
    from less [OF this] Some show ?thesis by (subst replace_loop.simps) simp
  qed
qed

definition subst_char :: "char \<Rightarrow> string \<Rightarrow> string \<Rightarrow> string" where
  "subst_char c dst s = concat (map (\<lambda>x. if x = c then dst else [x]) s)"

lemma find_at_char:
  "find_at [c] i s = (if c \<in> set s then Some (i + length (takeWhile (\<lambda>x. x \<noteq> c) s)) else None)"
  by (induction s arbitrary: i) auto

lemma subst_char_absent: "c \<notin> set s \<Longrightarrow> subst_char c dst s = s"
proof (induction s)
  case (Cons x xs)
  then have "subst_char c dst xs = xs" "x \<noteq> c" by auto
  then show ?case by (simp add: subst_char_def)
qed (simp add: subst_char_def)

lemma replace_loop_char:
  "replace_loop [c] dst (pre @ rest) (length pre) = Some (pre @ subst_char c dst rest)"
proof (induction "length rest" arbitrary: pre rest rule: less_induct)
  case less
  show ?case
  proof (cases "c \<in> set rest")
    case False
    then have "str_find (pre @ rest) [c] (length pre) = None" by (simp add: str_find_def find_at_char)
    with False show ?thesis by (simp add: replace_loop.simps subst_char_absent)
  next
    case True
    then obtain a b where ab: "rest = a @ c # b" "c \<notin> set a" by (metis split_list_first)
    have t: "takeWhile (\<lambda>x. x \<noteq> c) (a @ c # b) = a"
      using ab(2) by (subst takeWhile_append2) auto
    have f: "str_find (pre @ rest) [c] (length pre) = Some (length (pre @ a))"
      using ab(1) by (simp add: str_find_def find_at_char t)
    have "replace_loop [c] dst ((pre @ a @ dst) @ b) (length (pre @ a @ dst)) =
        Some ((pre @ a @ dst) @ subst_char c dst b)"
      using ab(1) by (intro less) simp
    moreover have "subst_char c dst (a @ c # b) = a @ dst @ subst_char c dst b"
      using subst_char_absent [OF ab(2), of dst] by (simp add: subst_char_def)
    ultimately show ?thesis
      using f ab(1) by (subst replace_loop.simps) (simp add: add.assoc)
  qed
qed

subsection \<open>Properties\<close>

text \<open>\<^verbatim>\<open>replace_all\<close> returns for every nonempty pattern, whatever the replacement (also one that
  contains the pattern), and for a one-character pattern it replaces exactly the occurrences of
  that character: the error text of a failed Python call loses its line ends.\<close>

lemma replace_all_exact:
  assumes "src \<noteq> []"
  shows "(\<exists>r. replace_all str src dst = Some r) \<and> replace_all str [c] dst = Some (subst_char c dst str)"
  using replace_loop_ends [OF assms] replace_loop_char [of c dst "[]" str]
  by (simp add: replace_all_def)

lemma replace_all_exact_witness:
  "replace_all ''a-b--'' ''-'' ''+-'' = Some ''a+-b+-+-''"
proof -
  have "subst_char (CHR ''-'') ''+-'' ''a-b--'' = ''a+-b+-+-''" by code_simp
  then show ?thesis using replace_all_exact [of "''-''" "''a-b--''" "''+-''" "CHR ''-''"] by simp
qed

text \<open>An exchange with a body is a POST with the JSON headers followed by the Authorization
  header; one without a body is a GET on which no header is set at all, so the Authorization
  header that was prepared is not sent. Either way the answer is the concatenation of the pieces
  libcurl delivered, also when the transfer failed.\<close>

lemma http_exchange_request:
  assumes "curl_init_ok L" "auth \<noteq> []" "CHR 0x00 \<notin> set auth"
  shows "http_exchange L url auth data =
     concat (snd (curl_perform L
       \<lparr>rq_url = c_str url,
        rq_headers = (if data = [] then None else Some [''Content-type: application/json'',
          ''Accept: application/json'', ''Cache-Control: no-cache'', ''Pragma: no-cache'', ''Authorization:'' @ auth]),
        rq_post = (if data = [] then None else Some (c_str data)),
        rq_nosignal = True, rq_connect_timeout = 3, rq_timeout = 5\<rparr>))"
proof -
  have "c_str (''Authorization:'' @ auth) = ''Authorization:'' @ auth"
    using assms(3) unfolding c_str_def by (intro takeWhile_eq_all_conv [THEN iffD2]) auto
  with assms(1,2) show ?thesis
    by (simp add: http_exchange_def curl_get_def curl_post_def init_json_header_def Let_def
        fold_curl_on_write split: prod.split)
qed

definition demo_curl :: curl_lib where
  "demo_curl = \<lparr>curl_init_ok = True, curl_perform = (\<lambda>r. (0, [''['', case rq_post r of None \<Rightarrow> ''none'' | Some d \<Rightarrow> d, '']'']))\<rparr>"


end
