(* ===== verification/Packets.thy ===== *)
theory Packets
  imports BPrelude
begin

text \<open>
  The messages of proto/ServicePacket.pb.h as the responsers see them. A request holds what its
  accessors return (the default for an unset field); in a response an option is a value with its
  has bit. Doubles are only passed on and are kept as their 64 bits.
\<close>

record reply_request =
  rr_cid :: string
  rr_type :: string
  rr_expiry :: int64
  rr_topic_id :: string
  rr_sign :: string
  rr_v :: string
  rr_platform :: string
  rr_device_id :: string
  rr_authorization :: string
  rr_data :: string

record reply_response =
  rs_cid :: "string option"
  rs_type :: "string option"
  rs_data :: "string option"

record post_topic_request =
  tq_cid :: string
  tq_type :: string
  tq_expiry :: int64
  tq_forum_id :: string
  tq_sign :: string
  tq_v :: string
  tq_platform :: string
  tq_device_id :: string
  tq_authorization :: string
  tq_data :: string

record post_topic_response =
  ts_cid :: "string option"
  ts_type :: "string option"
  ts_data :: "string option"

record public_service_request =
  uq_cid :: string
  uq_service_id :: string
  uq_data :: string

record public_service_response =
  us_cid :: "string option"
  us_service_id :: "string option"
  us_data :: "string option"
  us_time :: "int64 option"

record group_near_request =
  nq_cid :: string
  nq_lat :: int64
  nq_long :: int64
  nq_start :: int32
  nq_limit :: int32
  nq_max_distance :: int32

record group_near_response =
  ns_cid :: "string option"
  ns_status :: "int32 option"
  ns_data :: "string option"

record group_city_request =
  yq_cid :: string
  yq_city :: string
  yq_start :: int32
  yq_limit :: int32

record group_city_response =
  ys_cid :: "string option"
  ys_status :: "int32 option"
  ys_data :: "string option"

record python_core_request =
  hq_cid :: string
  hq_json_request :: string
  hq_module_name :: string
  hq_function_name :: string

record python_core_response =
  hs_cid :: "string option"
  hs_json_response :: "string option"
  hs_status :: "int32 option"

record service_packet =
  p_type :: "int32 option"
  reply_req :: "reply_request option"
  reply_resp :: "reply_response option"
  post_req :: "post_topic_request option"
  post_resp :: "post_topic_response option"
  public_req :: "public_service_request option"
  public_resp :: "public_service_response option"
  near_req :: "group_near_request option"
  near_resp :: "group_near_response option"
  city_req :: "group_city_request option"
  city_resp :: "group_city_response option"
  python_req :: "python_core_request option"
  python_resp :: "python_core_response option"

definition packet_new :: service_packet where
  "packet_new = \<lparr>p_type = None, reply_req = None, reply_resp = None, post_req = None, post_resp = None,
     public_req = None, public_resp = None, near_req = None, near_resp = None, city_req = None,
     city_resp = None, python_req = None, python_resp = None\<rparr>"

text \<open>The accessors; an absent message reads as its default instance.\<close>

definition packet_type_of :: "service_packet \<Rightarrow> int32" where
  "packet_type_of p = (case p_type p of None \<Rightarrow> 0 | Some t \<Rightarrow> t)"

definition get_reply :: "service_packet \<Rightarrow> reply_request" where
  "get_reply p = (case reply_req p of Some r \<Rightarrow> r | None \<Rightarrow>
     \<lparr>rr_cid = [], rr_type = [], rr_expiry = 0, rr_topic_id = [], rr_sign = [], rr_v = [], rr_platform = [],
      rr_device_id = [], rr_authorization = [], rr_data = []\<rparr>)"

definition get_post :: "service_packet \<Rightarrow> post_topic_request" where
  "get_post p = (case post_req p of Some r \<Rightarrow> r | None \<Rightarrow>
     \<lparr>tq_cid = [], tq_type = [], tq_expiry = 0, tq_forum_id = [], tq_sign = [], tq_v = [], tq_platform = [],
      tq_device_id = [], tq_authorization = [], tq_data = []\<rparr>)"

definition get_public :: "service_packet \<Rightarrow> public_service_request" where
  "get_public p = (case public_req p of Some r \<Rightarrow> r | None \<Rightarrow> \<lparr>uq_cid = [], uq_service_id = [], uq_data = []\<rparr>)"

definition get_near :: "service_packet \<Rightarrow> group_near_request" where
  "get_near p = (case near_req p of Some r \<Rightarrow> r | None \<Rightarrow>
     \<lparr>nq_cid = [], nq_lat = 0, nq_long = 0, nq_start = 0, nq_limit = 0, nq_max_distance = 0\<rparr>)"

definition get_city :: "service_packet \<Rightarrow> group_city_request" where
  "get_city p = (case city_req p of Some r \<Rightarrow> r | None \<Rightarrow> \<lparr>yq_cid = [], yq_city = [], yq_start = 0, yq_limit = 0\<rparr>)"

definition get_python :: "service_packet \<Rightarrow> python_core_request" where
  "get_python p = (case python_req p of Some r \<Rightarrow> r | None \<Rightarrow>
     \<lparr>hq_cid = [], hq_json_request = [], hq_module_name = [], hq_function_name = []\<rparr>)"

end
