(* ===== verification/PacketCodec.thy ===== *)
theory PacketCodec
  imports ConnectServer Packets
begin

text \<open>
  The generated codec of proto/ServicePacket.pb.cc: twelve messages and the packet that holds them, as
  tables over the methods of \<open>Wire\<close>; what the responsers read from a parsed packet (\<open>Packets\<close>), and the
  packet they fill. Strings of the wire are bytes, those of the responsers characters; a double is its bits.
\<close>

subsection \<open>The messages inside a packet\<close>

record reply_request_pb =
  rr_pb_cid :: "bytes option"
  rr_pb_type :: "bytes option"
  rr_pb_expiry :: "int64 option"
  rr_pb_topic_id :: "bytes option"
  rr_pb_sign :: "bytes option"
  rr_pb_v :: "bytes option"
  rr_pb_platform :: "bytes option"
  rr_pb_device_id :: "bytes option"
  rr_pb_authorization :: "bytes option"
  rr_pb_data :: "bytes option"
  rr_pb_unknown :: bytes

definition reply_request_pb_new :: reply_request_pb where
  "reply_request_pb_new = \<lparr>rr_pb_cid = None, rr_pb_type = None, rr_pb_expiry = None, rr_pb_topic_id = None, rr_pb_sign = None,
     rr_pb_v = None, rr_pb_platform = None, rr_pb_device_id = None, rr_pb_authorization = None,
     rr_pb_data = None, rr_pb_unknown = []\<rparr>"

definition reply_request_desc :: "reply_request_pb pb_desc" where
  "reply_request_desc =
     \<lparr>fds = [len_field 1 rr_pb_cid rr_pb_cid_update, len_field 2 rr_pb_type rr_pb_type_update,
        int64_field 3 rr_pb_expiry rr_pb_expiry_update, len_field 4 rr_pb_topic_id rr_pb_topic_id_update,
        len_field 5 rr_pb_sign rr_pb_sign_update, len_field 6 rr_pb_v rr_pb_v_update,
        len_field 7 rr_pb_platform rr_pb_platform_update,
        len_field 8 rr_pb_device_id rr_pb_device_id_update,
        len_field 9 rr_pb_authorization rr_pb_authorization_update,
        len_field 10 rr_pb_data rr_pb_data_update],
      cleared = reply_request_pb_new, unknown_of = rr_pb_unknown,
      add_unknown = (\<lambda>u. rr_pb_unknown_update (\<lambda>x. x @ u)), required = []\<rparr>"

record reply_response_pb =
  rs_pb_cid :: "bytes option"
  rs_pb_type :: "bytes option"
  rs_pb_data :: "bytes option"
  rs_pb_unknown :: bytes

definition reply_response_pb_new :: reply_response_pb where
  "reply_response_pb_new = \<lparr>rs_pb_cid = None, rs_pb_type = None, rs_pb_data = None, rs_pb_unknown = []\<rparr>"

definition reply_response_desc :: "reply_response_pb pb_desc" where
  "reply_response_desc =
     \<lparr>fds = [len_field 1 rs_pb_cid rs_pb_cid_update, len_field 2 rs_pb_type rs_pb_type_update,
        len_field 3 rs_pb_data rs_pb_data_update],
      cleared = reply_response_pb_new, unknown_of = rs_pb_unknown,
      add_unknown = (\<lambda>u. rs_pb_unknown_update (\<lambda>x. x @ u)), required = []\<rparr>"

record post_topic_request_pb =
  tq_pb_cid :: "bytes option"
  tq_pb_type :: "bytes option"
  tq_pb_expiry :: "int64 option"
  tq_pb_forum_id :: "bytes option"
  tq_pb_sign :: "bytes option"
  tq_pb_v :: "bytes option"
  tq_pb_platform :: "bytes option"
  tq_pb_device_id :: "bytes option"
  tq_pb_authorization :: "bytes option"
  tq_pb_data :: "bytes option"
  tq_pb_unknown :: bytes

definition post_topic_request_pb_new :: post_topic_request_pb where
  "post_topic_request_pb_new = \<lparr>tq_pb_cid = None, tq_pb_type = None, tq_pb_expiry = None, tq_pb_forum_id = None, tq_pb_sign = None,
     tq_pb_v = None, tq_pb_platform = None, tq_pb_device_id = None, tq_pb_authorization = None,
     tq_pb_data = None, tq_pb_unknown = []\<rparr>"

definition post_topic_request_desc :: "post_topic_request_pb pb_desc" where
  "post_topic_request_desc =
     \<lparr>fds = [len_field 1 tq_pb_cid tq_pb_cid_update, len_field 2 tq_pb_type tq_pb_type_update,
        int64_field 3 tq_pb_expiry tq_pb_expiry_update, len_field 4 tq_pb_forum_id tq_pb_forum_id_update,
        len_field 5 tq_pb_sign tq_pb_sign_update, len_field 6 tq_pb_v tq_pb_v_update,
        len_field 7 tq_pb_platform tq_pb_platform_update,
        len_field 8 tq_pb_device_id tq_pb_device_id_update,
        len_field 9 tq_pb_authorization tq_pb_authorization_update,
        len_field 10 tq_pb_data tq_pb_data_update],
      cleared = post_topic_request_pb_new, unknown_of = tq_pb_unknown,
      add_unknown = (\<lambda>u. tq_pb_unknown_update (\<lambda>x. x @ u)), required = []\<rparr>"

record post_topic_response_pb =
  ts_pb_cid :: "bytes option"
  ts_pb_type :: "bytes option"
  ts_pb_data :: "bytes option"
  ts_pb_unknown :: bytes

definition post_topic_response_pb_new :: post_topic_response_pb where
  "post_topic_response_pb_new = \<lparr>ts_pb_cid = None, ts_pb_type = None, ts_pb_data = None, ts_pb_unknown = []\<rparr>"

definition post_topic_response_desc :: "post_topic_response_pb pb_desc" where
  "post_topic_response_desc =
     \<lparr>fds = [len_field 1 ts_pb_cid ts_pb_cid_update, len_field 2 ts_pb_type ts_pb_type_update,
        len_field 3 ts_pb_data ts_pb_data_update],
      cleared = post_topic_response_pb_new, unknown_of = ts_pb_unknown,
      add_unknown = (\<lambda>u. ts_pb_unknown_update (\<lambda>x. x @ u)), required = []\<rparr>"

record public_service_request_pb =
  uq_pb_cid :: "bytes option"
  uq_pb_service_id :: "bytes option"
  uq_pb_data :: "bytes option"
  uq_pb_unknown :: bytes

definition public_service_request_pb_new :: public_service_request_pb where
  "public_service_request_pb_new = \<lparr>uq_pb_cid = None, uq_pb_service_id = None, uq_pb_data = None, uq_pb_unknown = []\<rparr>"

definition public_service_request_desc :: "public_service_request_pb pb_desc" where
  "public_service_request_desc =
     \<lparr>fds = [len_field 1 uq_pb_cid uq_pb_cid_update, len_field 2 uq_pb_service_id uq_pb_service_id_update,
        len_field 3 uq_pb_data uq_pb_data_update],
      cleared = public_service_request_pb_new, unknown_of = uq_pb_unknown,
      add_unknown = (\<lambda>u. uq_pb_unknown_update (\<lambda>x. x @ u)), required = []\<rparr>"

record public_service_response_pb =
  us_pb_cid :: "bytes option"
  us_pb_service_id :: "bytes option"
  us_pb_data :: "bytes option"
  us_pb_time :: "int64 option"
  us_pb_unknown :: bytes

definition public_service_response_pb_new :: public_service_response_pb where
  "public_service_response_pb_new = \<lparr>us_pb_cid = None, us_pb_service_id = None, us_pb_data = None, us_pb_time = None, us_pb_unknown = []\<rparr>"

definition public_service_response_desc :: "public_service_response_pb pb_desc" where
  "public_service_response_desc =
     \<lparr>fds = [len_field 1 us_pb_cid us_pb_cid_update, len_field 2 us_pb_service_id us_pb_service_id_update,
        len_field 3 us_pb_data us_pb_data_update, int64_field 4 us_pb_time us_pb_time_update],
      cleared = public_service_response_pb_new, unknown_of = us_pb_unknown,
      add_unknown = (\<lambda>u. us_pb_unknown_update (\<lambda>x. x @ u)), required = []\<rparr>"

record group_near_request_pb =
  nq_pb_cid :: "bytes option"
  nq_pb_lat :: "int64 option"
  nq_pb_long :: "int64 option"
  nq_pb_start :: "int32 option"
  nq_pb_limit :: "int32 option"
  nq_pb_max_distance :: "int32 option"
  nq_pb_unknown :: bytes

definition group_near_request_pb_new :: group_near_request_pb where
  "group_near_request_pb_new = \<lparr>nq_pb_cid = None, nq_pb_lat = None, nq_pb_long = None, nq_pb_start = None, nq_pb_limit = None,
     nq_pb_max_distance = None, nq_pb_unknown = []\<rparr>"

definition group_near_request_desc :: "group_near_request_pb pb_desc" where
  "group_near_request_desc =
     \<lparr>fds = [len_field 1 nq_pb_cid nq_pb_cid_update, double_field 2 nq_pb_lat nq_pb_lat_update,
        double_field 3 nq_pb_long nq_pb_long_update, int32_field 4 nq_pb_start nq_pb_start_update,
        int32_field 5 nq_pb_limit nq_pb_limit_update,
        int32_field 6 nq_pb_max_distance nq_pb_max_distance_update],
      cleared = group_near_request_pb_new, unknown_of = nq_pb_unknown,
      add_unknown = (\<lambda>u. nq_pb_unknown_update (\<lambda>x. x @ u)), required = []\<rparr>"

record group_near_response_pb =
  ns_pb_cid :: "bytes option"
  ns_pb_status :: "int32 option"
  ns_pb_data :: "bytes option"
  ns_pb_unknown :: bytes

definition group_near_response_pb_new :: group_near_response_pb where
  "group_near_response_pb_new = \<lparr>ns_pb_cid = None, ns_pb_status = None, ns_pb_data = None, ns_pb_unknown = []\<rparr>"

definition group_near_response_desc :: "group_near_response_pb pb_desc" where
  "group_near_response_desc =
     \<lparr>fds = [len_field 1 ns_pb_cid ns_pb_cid_update, int32_field 2 ns_pb_status ns_pb_status_update,
        len_field 3 ns_pb_data ns_pb_data_update],
      cleared = group_near_response_pb_new, unknown_of = ns_pb_unknown,
      add_unknown = (\<lambda>u. ns_pb_unknown_update (\<lambda>x. x @ u)), required = []\<rparr>"

record group_city_request_pb =
  yq_pb_cid :: "bytes option"
  yq_pb_city :: "bytes option"
  yq_pb_start :: "int32 option"
  yq_pb_limit :: "int32 option"
  yq_pb_unknown :: bytes

definition group_city_request_pb_new :: group_city_request_pb where
  "group_city_request_pb_new = \<lparr>yq_pb_cid = None, yq_pb_city = None, yq_pb_start = None, yq_pb_limit = None, yq_pb_unknown = []\<rparr>"

definition group_city_request_desc :: "group_city_request_pb pb_desc" where
  "group_city_request_desc =
     \<lparr>fds = [len_field 1 yq_pb_cid yq_pb_cid_update, len_field 2 yq_pb_city yq_pb_city_update,
        int32_field 3 yq_pb_start yq_pb_start_update, int32_field 4 yq_pb_limit yq_pb_limit_update],
      cleared = group_city_request_pb_new, unknown_of = yq_pb_unknown,
      add_unknown = (\<lambda>u. yq_pb_unknown_update (\<lambda>x. x @ u)), required = []\<rparr>"

record group_city_response_pb =
  ys_pb_cid :: "bytes option"
  ys_pb_status :: "int32 option"
  ys_pb_data :: "bytes option"
  ys_pb_unknown :: bytes

definition group_city_response_pb_new :: group_city_response_pb where
  "group_city_response_pb_new = \<lparr>ys_pb_cid = None, ys_pb_status = None, ys_pb_data = None, ys_pb_unknown = []\<rparr>"

definition group_city_response_desc :: "group_city_response_pb pb_desc" where
  "group_city_response_desc =
     \<lparr>fds = [len_field 1 ys_pb_cid ys_pb_cid_update, int32_field 2 ys_pb_status ys_pb_status_update,
        len_field 3 ys_pb_data ys_pb_data_update],
      cleared = group_city_response_pb_new, unknown_of = ys_pb_unknown,
      add_unknown = (\<lambda>u. ys_pb_unknown_update (\<lambda>x. x @ u)), required = []\<rparr>"

record python_core_request_pb =
  hq_pb_cid :: "bytes option"
  hq_pb_json_request :: "bytes option"
  hq_pb_module_name :: "bytes option"
  hq_pb_function_name :: "bytes option"
  hq_pb_unknown :: bytes

definition python_core_request_pb_new :: python_core_request_pb where
  "python_core_request_pb_new = \<lparr>hq_pb_cid = None, hq_pb_json_request = None, hq_pb_module_name = None, hq_pb_function_name = None,
     hq_pb_unknown = []\<rparr>"

definition python_core_request_desc :: "python_core_request_pb pb_desc" where
  "python_core_request_desc =
     \<lparr>fds = [len_field 1 hq_pb_cid hq_pb_cid_update, len_field 2 hq_pb_json_request hq_pb_json_request_update,
        len_field 3 hq_pb_module_name hq_pb_module_name_update,
        len_field 4 hq_pb_function_name hq_pb_function_name_update],
      cleared = python_core_request_pb_new, unknown_of = hq_pb_unknown,
      add_unknown = (\<lambda>u. hq_pb_unknown_update (\<lambda>x. x @ u)), required = []\<rparr>"

record python_core_response_pb =
  hs_pb_cid :: "bytes option"
  hs_pb_json_response :: "bytes option"
  hs_pb_status :: "int32 option"
  hs_pb_unknown :: bytes

definition python_core_response_pb_new :: python_core_response_pb where
  "python_core_response_pb_new = \<lparr>hs_pb_cid = None, hs_pb_json_response = None, hs_pb_status = None, hs_pb_unknown = []\<rparr>"

definition python_core_response_desc :: "python_core_response_pb pb_desc" where
  "python_core_response_desc =
     \<lparr>fds = [len_field 1 hs_pb_cid hs_pb_cid_update, len_field 2 hs_pb_json_response hs_pb_json_response_update,
        int32_field 3 hs_pb_status hs_pb_status_update],
      cleared = python_core_response_pb_new, unknown_of = hs_pb_unknown,
      add_unknown = (\<lambda>u. hs_pb_unknown_update (\<lambda>x. x @ u)), required = []\<rparr>"

interpretation rr: pb_message reply_request_desc
  by (rule pb_messageI) (auto simp: reply_request_desc_def reply_request_pb_new_def desc_ok_def split: pb_val.split)

interpretation rs: pb_message reply_response_desc
  by (rule pb_messageI) (auto simp: reply_response_desc_def reply_response_pb_new_def desc_ok_def split: pb_val.split)

interpretation tq: pb_message post_topic_request_desc
  by (rule pb_messageI) (auto simp: post_topic_request_desc_def post_topic_request_pb_new_def desc_ok_def split: pb_val.split)

interpretation ts: pb_message post_topic_response_desc
  by (rule pb_messageI) (auto simp: post_topic_response_desc_def post_topic_response_pb_new_def desc_ok_def split: pb_val.split)

interpretation uq: pb_message public_service_request_desc
  by (rule pb_messageI) (auto simp: public_service_request_desc_def public_service_request_pb_new_def desc_ok_def split: pb_val.split)

interpretation us: pb_message public_service_response_desc
  by (rule pb_messageI) (auto simp: public_service_response_desc_def public_service_response_pb_new_def desc_ok_def split: pb_val.split)

interpretation nq: pb_message group_near_request_desc
  by (rule pb_messageI) (auto simp: group_near_request_desc_def group_near_request_pb_new_def desc_ok_def split: pb_val.split)

interpretation ns: pb_message group_near_response_desc
  by (rule pb_messageI) (auto simp: group_near_response_desc_def group_near_response_pb_new_def desc_ok_def split: pb_val.split)

interpretation yq: pb_message group_city_request_desc
  by (rule pb_messageI) (auto simp: group_city_request_desc_def group_city_request_pb_new_def desc_ok_def split: pb_val.split)

interpretation ys: pb_message group_city_response_desc
  by (rule pb_messageI) (auto simp: group_city_response_desc_def group_city_response_pb_new_def desc_ok_def split: pb_val.split)

interpretation hq: pb_message python_core_request_desc
  by (rule pb_messageI) (auto simp: python_core_request_desc_def python_core_request_pb_new_def desc_ok_def split: pb_val.split)

interpretation hs: pb_message python_core_response_desc
  by (rule pb_messageI) (auto simp: python_core_response_desc_def python_core_response_pb_new_def desc_ok_def split: pb_val.split)

subsection \<open>A message as a field\<close>

text \<open>\<^verbatim>\<open>ReadMessageNoVirtual\<close> merges what is below the limit into the message that is there, or a new one;
  \<^verbatim>\<open>WriteMessageMaybeToArray\<close> writes the size \<^verbatim>\<open>ByteSize\<close> has computed before.\<close>

definition msg_field ::
  "pb_rt \<Rightarrow> 's pb_desc \<Rightarrow> nat \<Rightarrow> ('m \<Rightarrow> 's option) \<Rightarrow> (('s option \<Rightarrow> 's option) \<Rightarrow> 'm \<Rightarrow> 'm) \<Rightarrow> 'm pb_field" where
  "msg_field R S n g u = \<lparr>number = n, kind = K_Msg,
     getf = (\<lambda>m. map_option (\<lambda>s. V_Msg (byte_size R S s) (serialize R S s)) (g m)),
     setf = (\<lambda>v m. case v of
        V_Msg k b \<Rightarrow> u (\<lambda>s. Some (snd (sub_merge R S b (case s of None \<Rightarrow> cleared S | Some s \<Rightarrow> s)))) m | _ \<Rightarrow> m),
     takes = (\<lambda>v m. case v of
        V_Msg k b \<Rightarrow> fst (sub_merge R S b (case g m of None \<Rightarrow> cleared S | Some s \<Rightarrow> s)) | _ \<Rightarrow> True)\<rparr>"

record service_packet_pb =
  pk_type :: "int32 option"
  pk_reply_req :: "reply_request_pb option"
  pk_reply_resp :: "reply_response_pb option"
  pk_post_req :: "post_topic_request_pb option"
  pk_post_resp :: "post_topic_response_pb option"
  pk_public_req :: "public_service_request_pb option"
  pk_public_resp :: "public_service_response_pb option"
  pk_near_req :: "group_near_request_pb option"
  pk_near_resp :: "group_near_response_pb option"
  pk_city_req :: "group_city_request_pb option"
  pk_city_resp :: "group_city_response_pb option"
  pk_python_req :: "python_core_request_pb option"
  pk_python_resp :: "python_core_response_pb option"
  pk_unknown :: bytes

definition service_packet_pb_new :: service_packet_pb where
  "service_packet_pb_new = \<lparr>pk_type = None, pk_reply_req = None, pk_reply_resp = None, pk_post_req = None, pk_post_resp = None,
     pk_public_req = None, pk_public_resp = None, pk_near_req = None, pk_near_resp = None,
     pk_city_req = None, pk_city_resp = None, pk_python_req = None, pk_python_resp = None,
     pk_unknown = []\<rparr>"

definition service_packet_desc :: "pb_rt \<Rightarrow> service_packet_pb pb_desc" where
  "service_packet_desc R =
     \<lparr>fds = [int32_field 1 pk_type pk_type_update, msg_field R reply_request_desc 2 pk_reply_req pk_reply_req_update,
        msg_field R reply_response_desc 3 pk_reply_resp pk_reply_resp_update,
        msg_field R post_topic_request_desc 4 pk_post_req pk_post_req_update,
        msg_field R post_topic_response_desc 5 pk_post_resp pk_post_resp_update,
        msg_field R public_service_request_desc 6 pk_public_req pk_public_req_update,
        msg_field R public_service_response_desc 7 pk_public_resp pk_public_resp_update,
        msg_field R group_near_request_desc 8 pk_near_req pk_near_req_update,
        msg_field R group_near_response_desc 9 pk_near_resp pk_near_resp_update,
        msg_field R group_city_request_desc 10 pk_city_req pk_city_req_update,
        msg_field R group_city_response_desc 11 pk_city_resp pk_city_resp_update,
        msg_field R python_core_request_desc 12 pk_python_req pk_python_req_update,
        msg_field R python_core_response_desc 13 pk_python_resp pk_python_resp_update],
      cleared = service_packet_pb_new, unknown_of = pk_unknown,
      add_unknown = (\<lambda>u. pk_unknown_update (\<lambda>x. x @ u)), required = [1]\<rparr>"

text \<open>The tags the generated code expects.\<close>

lemma expected_packet_tags:
  "map field_tag (fds (service_packet_desc R)) = [8, 18, 26, 34, 42, 50, 58, 66, 74, 82, 90, 98, 106]"
  "map field_tag (fds group_near_request_desc) = [10, 17, 25, 32, 40, 48]"
  by (simp_all add: service_packet_desc_def group_near_request_desc_def field_tag_def msg_field_def wire_type_def)

subsection \<open>What the responsers read and fill\<close>

definition opt_str :: "bytes option \<Rightarrow> string" where
  "opt_str b = (case b of None \<Rightarrow> [] | Some b \<Rightarrow> str_of b)"

definition opt_num :: "'a::zero option \<Rightarrow> 'a" where
  "opt_num n = (case n of None \<Rightarrow> 0 | Some n \<Rightarrow> n)"

definition view_reply_request :: "reply_request_pb \<Rightarrow> reply_request" where
  "view_reply_request m = \<lparr>rr_cid = opt_str (rr_pb_cid m), rr_type = opt_str (rr_pb_type m),
     rr_expiry = opt_num (rr_pb_expiry m), rr_topic_id = opt_str (rr_pb_topic_id m),
     rr_sign = opt_str (rr_pb_sign m), rr_v = opt_str (rr_pb_v m),
     rr_platform = opt_str (rr_pb_platform m), rr_device_id = opt_str (rr_pb_device_id m),
     rr_authorization = opt_str (rr_pb_authorization m), rr_data = opt_str (rr_pb_data m)\<rparr>"

definition build_reply_request :: "reply_request \<Rightarrow> reply_request_pb" where
  "build_reply_request r = \<lparr>rr_pb_cid = Some (bytes_of (rr_cid r)), rr_pb_type = Some (bytes_of (rr_type r)),
     rr_pb_expiry = Some (rr_expiry r), rr_pb_topic_id = Some (bytes_of (rr_topic_id r)),
     rr_pb_sign = Some (bytes_of (rr_sign r)), rr_pb_v = Some (bytes_of (rr_v r)),
     rr_pb_platform = Some (bytes_of (rr_platform r)),
     rr_pb_device_id = Some (bytes_of (rr_device_id r)),
     rr_pb_authorization = Some (bytes_of (rr_authorization r)),
     rr_pb_data = Some (bytes_of (rr_data r)), rr_pb_unknown = []\<rparr>"

definition view_reply_response :: "reply_response_pb \<Rightarrow> reply_response" where
  "view_reply_response m = \<lparr>rs_cid = map_option str_of (rs_pb_cid m), rs_type = map_option str_of (rs_pb_type m),
     rs_data = map_option str_of (rs_pb_data m)\<rparr>"

definition build_reply_response :: "reply_response \<Rightarrow> reply_response_pb" where
  "build_reply_response r = \<lparr>rs_pb_cid = map_option bytes_of (rs_cid r), rs_pb_type = map_option bytes_of (rs_type r),
     rs_pb_data = map_option bytes_of (rs_data r), rs_pb_unknown = []\<rparr>"

definition view_post_topic_request :: "post_topic_request_pb \<Rightarrow> post_topic_request" where
  "view_post_topic_request m = \<lparr>tq_cid = opt_str (tq_pb_cid m), tq_type = opt_str (tq_pb_type m),
     tq_expiry = opt_num (tq_pb_expiry m), tq_forum_id = opt_str (tq_pb_forum_id m),
     tq_sign = opt_str (tq_pb_sign m), tq_v = opt_str (tq_pb_v m),
     tq_platform = opt_str (tq_pb_platform m), tq_device_id = opt_str (tq_pb_device_id m),
     tq_authorization = opt_str (tq_pb_authorization m), tq_data = opt_str (tq_pb_data m)\<rparr>"

definition build_post_topic_request :: "post_topic_request \<Rightarrow> post_topic_request_pb" where
  "build_post_topic_request r = \<lparr>tq_pb_cid = Some (bytes_of (tq_cid r)), tq_pb_type = Some (bytes_of (tq_type r)),
     tq_pb_expiry = Some (tq_expiry r), tq_pb_forum_id = Some (bytes_of (tq_forum_id r)),
     tq_pb_sign = Some (bytes_of (tq_sign r)), tq_pb_v = Some (bytes_of (tq_v r)),
     tq_pb_platform = Some (bytes_of (tq_platform r)),
     tq_pb_device_id = Some (bytes_of (tq_device_id r)),
     tq_pb_authorization = Some (bytes_of (tq_authorization r)),
     tq_pb_data = Some (bytes_of (tq_data r)), tq_pb_unknown = []\<rparr>"

definition view_post_topic_response :: "post_topic_response_pb \<Rightarrow> post_topic_response" where
  "view_post_topic_response m = \<lparr>ts_cid = map_option str_of (ts_pb_cid m), ts_type = map_option str_of (ts_pb_type m),
     ts_data = map_option str_of (ts_pb_data m)\<rparr>"

definition build_post_topic_response :: "post_topic_response \<Rightarrow> post_topic_response_pb" where
  "build_post_topic_response r = \<lparr>ts_pb_cid = map_option bytes_of (ts_cid r), ts_pb_type = map_option bytes_of (ts_type r),
     ts_pb_data = map_option bytes_of (ts_data r), ts_pb_unknown = []\<rparr>"

definition view_public_service_request :: "public_service_request_pb \<Rightarrow> public_service_request" where
  "view_public_service_request m = \<lparr>uq_cid = opt_str (uq_pb_cid m), uq_service_id = opt_str (uq_pb_service_id m),
     uq_data = opt_str (uq_pb_data m)\<rparr>"

definition build_public_service_request :: "public_service_request \<Rightarrow> public_service_request_pb" where
  "build_public_service_request r = \<lparr>uq_pb_cid = Some (bytes_of (uq_cid r)), uq_pb_service_id = Some (bytes_of (uq_service_id r)),
     uq_pb_data = Some (bytes_of (uq_data r)), uq_pb_unknown = []\<rparr>"

definition view_public_service_response :: "public_service_response_pb \<Rightarrow> public_service_response" where
  "view_public_service_response m = \<lparr>us_cid = map_option str_of (us_pb_cid m), us_service_id = map_option str_of (us_pb_service_id m),
     us_data = map_option str_of (us_pb_data m), us_time = us_pb_time m\<rparr>"

definition build_public_service_response :: "public_service_response \<Rightarrow> public_service_response_pb" where
  "build_public_service_response r = \<lparr>us_pb_cid = map_option bytes_of (us_cid r),
     us_pb_service_id = map_option bytes_of (us_service_id r),
     us_pb_data = map_option bytes_of (us_data r), us_pb_time = us_time r, us_pb_unknown = []\<rparr>"

definition view_group_near_request :: "group_near_request_pb \<Rightarrow> group_near_request" where
  "view_group_near_request m = \<lparr>nq_cid = opt_str (nq_pb_cid m), nq_lat = opt_num (nq_pb_lat m), nq_long = opt_num (nq_pb_long m),
     nq_start = opt_num (nq_pb_start m), nq_limit = opt_num (nq_pb_limit m),
     nq_max_distance = opt_num (nq_pb_max_distance m)\<rparr>"

definition build_group_near_request :: "group_near_request \<Rightarrow> group_near_request_pb" where
  "build_group_near_request r = \<lparr>nq_pb_cid = Some (bytes_of (nq_cid r)), nq_pb_lat = Some (nq_lat r), nq_pb_long = Some (nq_long r),
     nq_pb_start = Some (nq_start r), nq_pb_limit = Some (nq_limit r),
     nq_pb_max_distance = Some (nq_max_distance r), nq_pb_unknown = []\<rparr>"

definition view_group_near_response :: "group_near_response_pb \<Rightarrow> group_near_response" where
  "view_group_near_response m = \<lparr>ns_cid = map_option str_of (ns_pb_cid m), ns_status = ns_pb_status m,
     ns_data = map_option str_of (ns_pb_data m)\<rparr>"

definition build_group_near_response :: "group_near_response \<Rightarrow> group_near_response_pb" where
  "build_group_near_response r = \<lparr>ns_pb_cid = map_option bytes_of (ns_cid r), ns_pb_status = ns_status r,
     ns_pb_data = map_option bytes_of (ns_data r), ns_pb_unknown = []\<rparr>"

definition view_group_city_request :: "group_city_request_pb \<Rightarrow> group_city_request" where
  "view_group_city_request m = \<lparr>yq_cid = opt_str (yq_pb_cid m), yq_city = opt_str (yq_pb_city m),
     yq_start = opt_num (yq_pb_start m), yq_limit = opt_num (yq_pb_limit m)\<rparr>"

definition build_group_city_request :: "group_city_request \<Rightarrow> group_city_request_pb" where
  "build_group_city_request r = \<lparr>yq_pb_cid = Some (bytes_of (yq_cid r)), yq_pb_city = Some (bytes_of (yq_city r)),
     yq_pb_start = Some (yq_start r), yq_pb_limit = Some (yq_limit r), yq_pb_unknown = []\<rparr>"

definition view_group_city_response :: "group_city_response_pb \<Rightarrow> group_city_response" where
  "view_group_city_response m = \<lparr>ys_cid = map_option str_of (ys_pb_cid m), ys_status = ys_pb_status m,
     ys_data = map_option str_of (ys_pb_data m)\<rparr>"

definition build_group_city_response :: "group_city_response \<Rightarrow> group_city_response_pb" where
  "build_group_city_response r = \<lparr>ys_pb_cid = map_option bytes_of (ys_cid r), ys_pb_status = ys_status r,
     ys_pb_data = map_option bytes_of (ys_data r), ys_pb_unknown = []\<rparr>"

definition view_python_core_request :: "python_core_request_pb \<Rightarrow> python_core_request" where
  "view_python_core_request m = \<lparr>hq_cid = opt_str (hq_pb_cid m), hq_json_request = opt_str (hq_pb_json_request m),
     hq_module_name = opt_str (hq_pb_module_name m), hq_function_name = opt_str (hq_pb_function_name m)\<rparr>"

definition build_python_core_request :: "python_core_request \<Rightarrow> python_core_request_pb" where
  "build_python_core_request r = \<lparr>hq_pb_cid = Some (bytes_of (hq_cid r)), hq_pb_json_request = Some (bytes_of (hq_json_request r)),
     hq_pb_module_name = Some (bytes_of (hq_module_name r)),
     hq_pb_function_name = Some (bytes_of (hq_function_name r)), hq_pb_unknown = []\<rparr>"

definition view_python_core_response :: "python_core_response_pb \<Rightarrow> python_core_response" where
  "view_python_core_response m = \<lparr>hs_cid = map_option str_of (hs_pb_cid m),
     hs_json_response = map_option str_of (hs_pb_json_response m), hs_status = hs_pb_status m\<rparr>"

definition build_python_core_response :: "python_core_response \<Rightarrow> python_core_response_pb" where
  "build_python_core_response r = \<lparr>hs_pb_cid = map_option bytes_of (hs_cid r),
     hs_pb_json_response = map_option bytes_of (hs_json_response r), hs_pb_status = hs_status r,
     hs_pb_unknown = []\<rparr>"

definition packet_view :: "service_packet_pb \<Rightarrow> service_packet" where
  "packet_view m = \<lparr>p_type = pk_type m, reply_req = map_option view_reply_request (pk_reply_req m),
     reply_resp = map_option view_reply_response (pk_reply_resp m),
     post_req = map_option view_post_topic_request (pk_post_req m),
     post_resp = map_option view_post_topic_response (pk_post_resp m),
     public_req = map_option view_public_service_request (pk_public_req m),
     public_resp = map_option view_public_service_response (pk_public_resp m),
     near_req = map_option view_group_near_request (pk_near_req m),
     near_resp = map_option view_group_near_response (pk_near_resp m),
     city_req = map_option view_group_city_request (pk_city_req m),
     city_resp = map_option view_group_city_response (pk_city_resp m),
     python_req = map_option view_python_core_request (pk_python_req m),
     python_resp = map_option view_python_core_response (pk_python_resp m)\<rparr>"

definition packet_build :: "service_packet \<Rightarrow> service_packet_pb" where
  "packet_build p = \<lparr>pk_type = p_type p, pk_reply_req = map_option build_reply_request (reply_req p),
     pk_reply_resp = map_option build_reply_response (reply_resp p),
     pk_post_req = map_option build_post_topic_request (post_req p),
     pk_post_resp = map_option build_post_topic_response (post_resp p),
     pk_public_req = map_option build_public_service_request (public_req p),
     pk_public_resp = map_option build_public_service_response (public_resp p),
     pk_near_req = map_option build_group_near_request (near_req p),
     pk_near_resp = map_option build_group_near_response (near_resp p),
     pk_city_req = map_option build_group_city_request (city_req p),
     pk_city_resp = map_option build_group_city_response (city_resp p),
     pk_python_req = map_option build_python_core_request (python_req p),
     pk_python_resp = map_option build_python_core_response (python_resp p), pk_unknown = []\<rparr>"

text \<open>\<^verbatim>\<open>ParseFromString\<close> as the responsers see it, and \<^verbatim>\<open>SerializeToString\<close> of the packet they fill.\<close>

definition packet_of_bytes :: "pb_rt \<Rightarrow> bytes \<Rightarrow> bool \<times> service_packet" where
  "packet_of_bytes R data = (case parse_from R (service_packet_desc R) data of (ok, m) \<Rightarrow> (ok, packet_view m))"

definition bytes_of_packet :: "pb_rt \<Rightarrow> service_packet \<Rightarrow> bytes" where
  "bytes_of_packet R p = serialize R (service_packet_desc R) (packet_build p)"

subsection \<open>Laws of the packet\<close>

text \<open>A message of a field is good when it has no unknown fields and its strings can be written.\<close>

definition good_msg :: "'s pb_desc \<Rightarrow> 's option \<Rightarrow> bool" where
  "good_msg S s = (case s of None \<Rightarrow> True | Some x \<Rightarrow> msg_fits S x \<and> unknown_of S x = [])"

definition merge_into :: "pb_rt \<Rightarrow> 's pb_desc \<Rightarrow> 's option \<Rightarrow> 's option \<Rightarrow> 's option" where
  "merge_into R S src s = (case src of None \<Rightarrow> s | Some x \<Rightarrow>
     Some (snd (sub_merge R S (serialize R S x) (case s of None \<Rightarrow> cleared S | Some s \<Rightarrow> s))))"

lemma msg_field_simps [simp]:
  "number (msg_field R S n g u) = n" "kind (msg_field R S n g u) = K_Msg"
  "getf (msg_field R S n g u) m = map_option (\<lambda>s. V_Msg (byte_size R S s) (serialize R S s)) (g m)"
  "takes (msg_field R S n g u) v m = (case v of
     V_Msg k b \<Rightarrow> fst (sub_merge R S b (case g m of None \<Rightarrow> cleared S | Some s \<Rightarrow> s)) | _ \<Rightarrow> True)"
  "setf (msg_field R S n g u) v m = (case v of
     V_Msg k b \<Rightarrow> u (\<lambda>s. Some (snd (sub_merge R S b (case s of None \<Rightarrow> cleared S | Some s \<Rightarrow> s)))) m | _ \<Rightarrow> m)"
  by (simp_all add: msg_field_def)

lemma copy_msg_field:
  assumes "u (\<lambda>s. s) mc = mc"
  shows "copy_field m (msg_field R S n g u) mc = u (merge_into R S (g m)) mc"
  using assms by (cases "g m") (simp_all add: copy_field_def merge_into_def [abs_def])

context pb_message
begin

lemma sub_written:
  assumes "pb_ok R" "good_msg D (Some s)"
  shows "sub_merge R D (serialize R D s) (cleared D) = (True, s)"
  using codec.merges_all [OF assms(1), of s] assms(2) unfolding good_msg_def sub_merge_def by simp

lemma sub_rebuilt: "pb_ok R \<Longrightarrow> good_msg D s \<Longrightarrow> merge_into R D s None = s"
  by (cases s) (simp_all add: merge_into_def sub_written)

lemma sub_taken: "pb_ok R \<Longrightarrow> good_msg D (Some s) \<Longrightarrow> fst (sub_merge R D (serialize R D s) (cleared D))"
  by (simp add: sub_written)

lemma sub_fits:
  "pb_ok R \<Longrightarrow> good_msg D (Some s) \<Longrightarrow> val_fits (V_Msg (byte_size R D s) (serialize R D s)) \<longleftrightarrow> length (serialize R D s) < 2 ^ 31"
  using codec.byte_size_exact [of R s] by (auto simp: good_msg_def unat_of_nat32)

end

definition good_packet :: "pb_rt \<Rightarrow> service_packet_pb \<Rightarrow> bool" where
  "good_packet R m \<longleftrightarrow> pb_ok R \<and> good_msg reply_request_desc (pk_reply_req m) \<and> good_msg reply_response_desc (pk_reply_resp m) \<and>
     good_msg post_topic_request_desc (pk_post_req m) \<and>
     good_msg post_topic_response_desc (pk_post_resp m) \<and>
     good_msg public_service_request_desc (pk_public_req m) \<and>
     good_msg public_service_response_desc (pk_public_resp m) \<and>
     good_msg group_near_request_desc (pk_near_req m) \<and>
     good_msg group_near_response_desc (pk_near_resp m) \<and>
     good_msg group_city_request_desc (pk_city_req m) \<and>
     good_msg group_city_response_desc (pk_city_resp m) \<and>
     good_msg python_core_request_desc (pk_python_req m) \<and>
     good_msg python_core_response_desc (pk_python_resp m)"

lemmas subs_taken = rr.sub_taken rs.sub_taken tq.sub_taken ts.sub_taken uq.sub_taken us.sub_taken nq.sub_taken ns.sub_taken
  yq.sub_taken ys.sub_taken hq.sub_taken hs.sub_taken

lemmas subs_rebuilt = rr.sub_rebuilt rs.sub_rebuilt tq.sub_rebuilt ts.sub_rebuilt uq.sub_rebuilt us.sub_rebuilt nq.sub_rebuilt
  ns.sub_rebuilt yq.sub_rebuilt ys.sub_rebuilt hq.sub_rebuilt hs.sub_rebuilt

lemma rebuilt_packet:
  assumes "good_packet R m" "pk_unknown m = []"
  shows "fold (copy_field m) (fds (service_packet_desc R)) (cleared (service_packet_desc R)) = m"
proof -
  have copy_type: "copy_field x (int32_field n pk_type pk_type_update) mc =
      (case pk_type x of None \<Rightarrow> mc | Some t \<Rightarrow> mc\<lparr>pk_type := Some t\<rparr>)" for x n mc
    by (simp add: copy_field_def split: option.split)
  show ?thesis
    using assms subs_rebuilt
    by (cases m; cases "pk_type m") (simp_all add: service_packet_desc_def copy_type copy_msg_field service_packet_pb_new_def good_packet_def)
qed

interpretation pk: pb_codec "service_packet_desc R" "good_packet R" for R
proof unfold_locales
  show "takes f v mc" if "f \<in> set (fds (service_packet_desc R))" "good_packet R m" "getf f m = Some v" "getf f mc = None" for f m v mc
    using that subs_taken by (auto simp: service_packet_desc_def good_packet_def)
  show "fold (copy_field m) (fds (service_packet_desc R)) (cleared (service_packet_desc R)) = m"
    if "good_packet R m" "unknown_of (service_packet_desc R) m = []" for m
    using that by (intro rebuilt_packet) (simp_all add: service_packet_desc_def)
qed (auto simp: service_packet_desc_def service_packet_pb_new_def desc_ok_def split: pb_val.split)

subsection \<open>Round trip\<close>

lemma message_views:
  "view_reply_request (build_reply_request x0) = x0"
  "view_reply_response (build_reply_response x1) = x1"
  "view_post_topic_request (build_post_topic_request x2) = x2"
  "view_post_topic_response (build_post_topic_response x3) = x3"
  "view_public_service_request (build_public_service_request x4) = x4"
  "view_public_service_response (build_public_service_response x5) = x5"
  "view_group_near_request (build_group_near_request x6) = x6"
  "view_group_near_response (build_group_near_response x7) = x7"
  "view_group_city_request (build_group_city_request x8) = x8"
  "view_group_city_response (build_group_city_response x9) = x9"
  "view_python_core_request (build_python_core_request x10) = x10"
  "view_python_core_response (build_python_core_response x11) = x11"
  by (simp_all add: opt_str_def opt_num_def option.map_comp comp_def option.map_ident
    view_reply_request_def build_reply_request_def view_reply_response_def build_reply_response_def
    view_post_topic_request_def build_post_topic_request_def
    view_post_topic_response_def build_post_topic_response_def
    view_public_service_request_def build_public_service_request_def
    view_public_service_response_def build_public_service_response_def
    view_group_near_request_def build_group_near_request_def
    view_group_near_response_def build_group_near_response_def
    view_group_city_request_def build_group_city_request_def
    view_group_city_response_def build_group_city_response_def
    view_python_core_request_def build_python_core_request_def
    view_python_core_response_def build_python_core_response_def)

lemma view_build: "packet_view (packet_build p) = p"
  by (cases p) (simp add: packet_view_def packet_build_def option.map_comp comp_def message_views option.map_ident)

text \<open>A packet whose strings and messages have fewer than \<open>2 ^ 31\<close> bytes.\<close>

definition packet_fits :: "pb_rt \<Rightarrow> service_packet \<Rightarrow> bool" where
  "packet_fits R p \<longleftrightarrow> good_packet R (packet_build p) \<and> msg_fits (service_packet_desc R) (packet_build p)"

lemma packet_read_back:
  assumes "packet_fits R p"
  shows "packet_of_bytes R (bytes_of_packet R p) = (p_type p \<noteq> None, p)"
proof -
  have R: "pb_ok R" using assms by (simp add: packet_fits_def good_packet_def)
  have "is_initialized (service_packet_desc R) (packet_build p) \<longleftrightarrow> p_type p \<noteq> None"
    by (simp add: is_initialized_def service_packet_desc_def packet_build_def)
  moreover have "unknown_of (service_packet_desc R) (packet_build p) = []"
    by (simp add: service_packet_desc_def packet_build_def)
  ultimately show ?thesis
    using pk.parse_serialize [OF R, where m = "packet_build p"] assms
    by (simp add: packet_of_bytes_def bytes_of_packet_def packet_fits_def view_build)
qed

text \<open>C13: Round trip of the packets. A packet without unknown fields, whatever messages it holds, is
  read back from what \<^verbatim>\<open>SerializeToString\<close> writes, the messages inside it field by field with their has
  bits, and \<^verbatim>\<open>ParseFromString\<close> succeeds exactly when its type was set, if it takes fewer than
  \<open>2 ^ 31\<close> bytes in all; the int \<^verbatim>\<open>ByteSize\<close> adds up is then the number of bytes written, as are the
  sizes that precede the messages inside. So what the responsers fill in is what the other side
  reads.\<close>

theorem packet_roundtrip:
  assumes "good_packet R m" "msg_fits (service_packet_desc R) m" "pk_unknown m = []"
    and "length (serialize R (service_packet_desc R) m) < 2 ^ 31"
  shows "parse_from R (service_packet_desc R) (serialize R (service_packet_desc R) m) = (pk_type m \<noteq> None, m) \<and>
    sint (byte_size R (service_packet_desc R) m) = int (length (serialize R (service_packet_desc R) m)) \<and>
    (m = packet_build p \<longrightarrow> packet_of_bytes R (bytes_of_packet R p) = (p_type p \<noteq> None, p))"
proof (intro conjI impI)
  have R: "pb_ok R" using assms(1) by (simp add: good_packet_def)
  have u: "unknown_of (service_packet_desc R) m = []" using assms(3) by (simp add: service_packet_desc_def)
  show "parse_from R (service_packet_desc R) (serialize R (service_packet_desc R) m) = (pk_type m \<noteq> None, m)"
    using pk.parse_serialize [OF R assms(2,1) u] by (simp add: is_initialized_def service_packet_desc_def)
  show "sint (byte_size R (service_packet_desc R) m) = int (length (serialize R (service_packet_desc R) m))"
    using pk.byte_size_int [OF R assms(2)] assms(4) by simp
  show "packet_of_bytes R (bytes_of_packet R p) = (p_type p \<noteq> None, p)" if "m = packet_build p"
    using that assms(1,2) by (intro packet_read_back) (simp add: packet_fits_def)
qed

definition demo_packet :: service_packet where
  "demo_packet = packet_new\<lparr>p_type := Some 32,
     python_resp := Some \<lparr>hs_cid = Some ''c'', hs_json_response = Some ''{}'', hs_status = Some 1\<rparr>\<rparr>"

lemma demo_packet_fits: "packet_fits demo_rt demo_packet"
proof -
  let ?s = "build_python_core_response \<lparr>hs_cid = Some ''c'', hs_json_response = Some ''{}'', hs_status = Some 1\<rparr>"
  have good: "good_msg python_core_response_desc (Some ?s)"
    by (simp add: good_msg_def msg_fits_def python_core_response_desc_def build_python_core_response_def)
  moreover have "length (serialize demo_rt python_core_response_desc ?s) = 9" by code_simp
  then have "val_fits (V_Msg (byte_size demo_rt python_core_response_desc ?s) (serialize demo_rt python_core_response_desc ?s))"
    by (subst hs.sub_fits [OF pb_ok_demo good]) simp
  ultimately show ?thesis
    by (simp add: packet_fits_def good_packet_def pb_ok_demo good_msg_def msg_fits_def service_packet_desc_def
        demo_packet_def packet_new_def packet_build_def)
qed

text \<open>Requests that hold no more than their type.\<close>

lemma demo_types:
  "packet_of_bytes demo_rt [8, 27] = (True, packet_new\<lparr>p_type := Some 27\<rparr>)"
  "packet_of_bytes demo_rt [8, 31] = (True, packet_new\<lparr>p_type := Some 31\<rparr>)"
  by code_simp+

lemma packet_roundtrip_witness:
  "packet_of_bytes demo_rt [8, 32, 106, 9, 10, 1, 99, 18, 2, 123, 125, 24, 1] = (True, demo_packet)"
proof -
  have "bytes_of_packet demo_rt demo_packet = [8, 32, 106, 9, 10, 1, 99, 18, 2, 123, 125, 24, 1]" by code_simp
  moreover have "pk_unknown (packet_build demo_packet) = []" by (simp add: packet_build_def)
  ultimately show ?thesis
    using packet_roundtrip [of demo_rt "packet_build demo_packet" demo_packet] demo_packet_fits
    by (simp add: packet_fits_def demo_packet_def bytes_of_packet_def)
qed

end
