(* ===== verification/Sessions.thy ===== *)
theory Sessions
  imports SessionBase PeerHandleMap ConfigWrap TaskQueue ConnectServer
begin

text \<open>
  The network core: the handlers of src/session_base.cpp with the overrides of
  src/client_session.cpp and src/server_session.cpp, outgoing connections
  (src/peer_handle_client.cpp), accepted ones (src/peer_handle_server.cpp), and
  \<^verbatim>\<open>logic_deal_processing::after_body_get\<close>, which feeds the task queue. They share the state
  \<open>world\<close>: the session objects, the two registries, the task queue, the writes posted to the
  io services and the configuration. asio's services are arguments: \<open>resolve\<close>, \<open>connect_ok\<close>
  (indexed by the number of the new session, so every attempt may turn out differently), the
  uninitialised header fields of a new message, and the protobuf runtime. A
  handler is one atomic step on the state: the locks it takes are the maps' and the session's
  own.
\<close>

subsection \<open>Data\<close>

record net_ext = cfg_ext +
  resolve :: "nat \<Rightarrow> string \<Rightarrow> string \<Rightarrow> (string \<times> nat) option"
  connect_ok :: "nat \<Rightarrow> bool"
  uninit_head :: "nat \<Rightarrow> head"
  rt :: pb_rt

record world =
  sessions :: "nat \<Rightarrow> session"
  next_session :: nat
  peers :: peer_map
  cpeers :: client_map
  tasks :: "message_format list"
  posted :: "(nat \<times> message_format) list"
  config :: configwrap

definition upd_session :: "nat \<Rightarrow> (session \<Rightarrow> session) \<Rightarrow> world \<Rightarrow> world" where
  "upd_session i f w = w\<lparr>sessions := (sessions w)(i := f (sessions w i))\<rparr>"

subsection \<open>Writing\<close>

text \<open>\<^verbatim>\<open>session_base::write\<close> called through a pointer, and \<^verbatim>\<open>post_write\<close>, which hands the call to
  the session's io service.\<close>

definition world_write :: "nat \<Rightarrow> message_format \<Rightarrow> world \<Rightarrow> world" where
  "world_write i m w = upd_session i (session_write m) w"

definition post_write :: "nat \<Rightarrow> message_format \<Rightarrow> world \<Rightarrow> world" where
  "post_write i m w = w\<lparr>posted := posted w @ [(i, m)]\<rparr>"

subsection \<open>Opening and reading\<close>

text \<open>\<^verbatim>\<open>server_session::open\<close>; \<^verbatim>\<open>remote_endpoint()\<close> without an error argument throws when the
  socket is not connected.\<close>

definition server_open :: "nat \<Rightarrow> (world, int) action" where
  "server_open i w =
     (case remote_endpoint (sessions w i) of
        None \<Rightarrow> (Throws, w)
      | Some (addr, port) \<Rightarrow>
          let key = ''client:'' @ addr @ '':'' @ show_nat port;
              w1 = upd_session i (\<lambda>s. s\<lparr>s_id := key,
                     read_msg := (read_msg s)\<lparr>mf_remote_id := key\<rparr>\<rparr>) w
          in (Ret 0, w1\<lparr>peers := snd (peer_set key (Some i) (peers w1))\<rparr>))"

text \<open>\<^verbatim>\<open>client_session::open\<close>.\<close>

definition client_open :: "nat \<Rightarrow> (world, int) action" where
  "client_open i w =
     (let s = sessions w i
      in if fix_connect s
         then let (st, c) = fix_set (server_id s) (s_id s) (Some i) (cpeers w) in (Ret st, w\<lparr>cpeers := c\<rparr>)
         else case remote_endpoint s of
             None \<Rightarrow> (Throws, w)
           | Some (addr, port) \<Rightarrow>
               let srv = ''server:'' @ addr @ '':'' @ show_nat port;
                   (key, c) = client_set (connect_count (config w)) srv (Some i) (cpeers w);
                   w1 = (upd_session i (\<lambda>s. s\<lparr>server_id := srv, s_id := key\<rparr>) w)\<lparr>cpeers := c\<rparr>
               in if key = [] then (Ret (-1), w1)
                  else (Ret 0, upd_session i (\<lambda>s. s\<lparr>read_msg :=
                         (read_msg s)\<lparr>mf_remote_id := key, mf_server_id := srv\<rparr>\<rparr>) w1))"

definition session_open :: "nat \<Rightarrow> (world, int) action" where
  "session_open i w = (case s_kind (sessions w i) of
     Server_Session \<Rightarrow> server_open i w | Client_Session \<Rightarrow> client_open i w)"

text \<open>\<^verbatim>\<open>on_close\<close> without the reconnection branch, and \<^verbatim>\<open>close\<close> over it: what \<^verbatim>\<open>close\<close> does for
  every session whose \<^verbatim>\<open>is_auto_reconnect_\<close> is false.\<close>

definition on_close_erase :: "nat \<Rightarrow> world \<Rightarrow> world" where
  "on_close_erase i w =
     (let s = sessions w i
      in case s_kind s of
           Server_Session \<Rightarrow> w\<lparr>peers := peer_erase (s_id s) (peers w)\<rparr>
         | Client_Session \<Rightarrow> w\<lparr>cpeers := client_erase_in (server_id s) (s_id s) (cpeers w)\<rparr>)"

definition close_plain :: "nat \<Rightarrow> world \<Rightarrow> world" where
  "close_plain i w = on_close_erase i (upd_session i (\<lambda>s. s\<lparr>sock_shutdown := True\<rparr>) w)"

text \<open>\<^verbatim>\<open>session_base::start\<close>; the status of \<^verbatim>\<open>open\<close> is not reported to the caller.\<close>

definition session_start :: "nat \<Rightarrow> (world, unit) action" where
  "session_start i =
     act_bind (session_open i) (\<lambda>status.
       if status = -1 then act_do (close_plain i) (act_ret ())
       else act_do (upd_session i (\<lambda>s. s\<lparr>connected := True,
              reading := reading s @ [Read_Head message_head_length]\<rparr>)) (act_ret ()))"

definition handle_connect :: "bool \<Rightarrow> nat \<Rightarrow> (world, int) action" where
  "handle_connect error i =
     (if \<not> error then act_bind (session_start i) (\<lambda>_. act_ret 0)
      else act_do (close_plain i) (act_ret (-1)))"

definition handle_connect_fix_id :: "bool \<Rightarrow> string \<Rightarrow> string \<Rightarrow> nat \<Rightarrow> (world, int) action" where
  "handle_connect_fix_id error srv remote_id i =
     act_do (upd_session i (\<lambda>s. s\<lparr>fix_connect := True, s_id := remote_id, server_id := srv,
         read_msg := (read_msg s)\<lparr>mf_remote_id := remote_id, mf_server_id := srv\<rparr>\<rparr>))
       (handle_connect error i)"

subsection \<open>Outgoing connections\<close>

text \<open>
  The two constructors of \<^verbatim>\<open>peer_handle_client\<close>: a new \<^verbatim>\<open>client_session\<close> (never auto-reconnecting)
  is connected and \<^verbatim>\<open>conected_\<close> is what \<^verbatim>\<open>handle_connect\<close> returned. The session's number and
  \<^verbatim>\<open>conected_\<close> stand for the object.
\<close>

definition new_client_session :: "('x) net_ext_scheme \<Rightarrow> string \<times> nat \<Rightarrow> world \<Rightarrow> world" where
  "new_client_session x ep w =
     (let i = next_session w
      in w\<lparr>next_session := Suc i,
           sessions := (sessions w)(i := session_new Client_Session False (uninit_head x i)
              (if connect_ok x i then Some ep else None))\<rparr>)"

definition peer_handle_client_new ::
  "('x) net_ext_scheme \<Rightarrow> string \<times> nat \<Rightarrow> (world, nat \<times> int) action" where
  "peer_handle_client_new x ep w =
     (let i = next_session w
      in act_bind (handle_connect (\<not> connect_ok x i) i) (\<lambda>conected. act_ret (i, conected))
           (new_client_session x ep w))"

definition peer_handle_client_fix ::
  "('x) net_ext_scheme \<Rightarrow> string \<times> nat \<Rightarrow> string \<Rightarrow> string \<Rightarrow> (world, nat \<times> int) action" where
  "peer_handle_client_fix x ep srv fix_id w =
     (let i = next_session w
      in act_bind (handle_connect_fix_id (\<not> connect_ok x i) srv fix_id i) (\<lambda>conected. act_ret (i, conected))
           (new_client_session x ep w))"

definition reg_request :: "('x) net_ext_scheme \<Rightarrow> bytes" where
  "reg_request x = serialize (rt x) sv_reg_request_desc \<lparr>rg_service_type = Some 600, rg_unknown = []\<rparr>"

definition registe :: "('x) net_ext_scheme \<Rightarrow> nat \<times> int \<Rightarrow> world \<Rightarrow> world" where
  "registe x c w =
     (if snd c \<noteq> 0 then w
      else let out = reg_request x;
               hh = \<lparr>magic = 0, len = of_nat (12 + length out), cmd = 300\<rparr>
           in post_write (fst c) (make_frame hh out (message_format_new (uninit_head x (fst c)))) w)"

definition peer_handle_client_write :: "message_format \<Rightarrow> nat \<times> int \<Rightarrow> world \<Rightarrow> world" where
  "peer_handle_client_write m c w = post_write (fst c) m w"

subsection \<open>Closing\<close>

text \<open>\<^verbatim>\<open>client_session::on_close\<close> in full: after the erase, an auto-reconnecting session with both
  ids resolves its server's address and connects a new session under its own id.\<close>

definition reconnects :: "session \<Rightarrow> bool" where
  "reconnects s \<longleftrightarrow> s_kind s = Client_Session \<and> is_auto_reconnect s \<and> server_id s \<noteq> [] \<and> s_id s \<noteq> []"

definition on_close :: "('x) net_ext_scheme \<Rightarrow> nat \<Rightarrow> (world, int) action" where
  "on_close x i w =
     (let s = sessions w i; w1 = on_close_erase i w
      in if reconnects s
         then let sp = split_str x (CHR '':'') (server_id s)
              in if length sp \<noteq> 3 then (Ret 0, w1)
                 else case resolve x (next_session w1) (sp ! 1) (sp ! 2) of
                     None \<Rightarrow> (Throws, w1)
                   | Some ep \<Rightarrow> act_bind (peer_handle_client_fix x ep (server_id s) (s_id s))
                       (\<lambda>c. act_do (registe x c) (act_ret 0)) w1
         else (Ret 0, w1))"

definition session_close :: "('x) net_ext_scheme \<Rightarrow> nat \<Rightarrow> (world, int) action" where
  "session_close x i = act_do (upd_session i (\<lambda>s. s\<lparr>sock_shutdown := True\<rparr>))
     (act_bind (on_close x i) (\<lambda>_. act_ret 0))"

subsection \<open>Completion handlers\<close>

definition handle_write :: "('x) net_ext_scheme \<Rightarrow> bool \<Rightarrow> nat \<Rightarrow> (world, int) action" where
  "handle_write x error i =
     (if \<not> error then act_do (upd_session i handle_write_ok) (act_ret 0) else session_close x i)"

text \<open>\<^verbatim>\<open>after_body_get\<close>: keep-alive answers (cmd 1) are dropped, everything else is queued.\<close>

definition after_body_get :: "message_format \<Rightarrow> world \<Rightarrow> world" where
  "after_body_get m w = (if cmd (meet_head m) = 1 then w else w\<lparr>tasks := tasks w @ [m]\<rparr>)"

definition do_head :: "nat \<Rightarrow> world \<Rightarrow> int \<times> world" where
  "do_head i w = (case decode_header (read_msg (sessions w i)) of
     (res, h, m) \<Rightarrow> (res, upd_session i (\<lambda>s. s\<lparr>read_msg := m\<rparr>) w))"

definition do_body :: "nat \<Rightarrow> world \<Rightarrow> int \<times> world" where
  "do_body i w = (0, after_body_get (read_msg (sessions w i)) w)"

definition async_read :: "nat \<Rightarrow> read_op \<Rightarrow> world \<Rightarrow> world" where
  "async_read i r = upd_session i (\<lambda>s. s\<lparr>reading := reading s @ [r]\<rparr>)"

definition handle_read_body :: "('x) net_ext_scheme \<Rightarrow> bool \<Rightarrow> nat \<Rightarrow> (world, int) action" where
  "handle_read_body x error i w =
     (if \<not> error
      then let (logic_status, w1) = do_body i w
           in if logic_status = 0 then (Ret 0, async_read i (Read_Head message_head_length) w1)
              else (Ret 0, w1)
      else session_close x i w)"

definition handle_read_header :: "('x) net_ext_scheme \<Rightarrow> bool \<Rightarrow> nat \<Rightarrow> (world, int) action" where
  "handle_read_header x error i w =
     (if \<not> error
      then let (logic_status, w1) = do_head i w;
               n = mf_body_length (read_msg (sessions w1 i))
           in if logic_status = 0
              then if n = 0 then handle_read_body x error i w1
                   else (Ret 0, async_read i (Read_Body n) w1)
              else if logic_status = -1 then session_close x i w1
              else (Ret 0, w1)
      else session_close x i w)"

subsection \<open>Accepted connections\<close>

text \<open>\<^verbatim>\<open>peer_handle_server::start_accept\<close> creates the next session; \<^verbatim>\<open>handle_accept\<close> starts it
  when the accept succeeded and accepts again in any case (unless \<^verbatim>\<open>start\<close> throws).\<close>

definition start_accept :: "('x) net_ext_scheme \<Rightarrow> world \<Rightarrow> nat \<times> world" where
  "start_accept x w =
     (let i = next_session w
      in (i, w\<lparr>next_session := Suc i,
               sessions := (sessions w)(i := session_new Server_Session False (uninit_head x i) None)\<rparr>))"

definition handle_accept :: "('x) net_ext_scheme \<Rightarrow> bool \<Rightarrow> nat \<Rightarrow> (world, nat) action" where
  "handle_accept x error i =
     (if \<not> error
      then act_bind (session_start i) (\<lambda>_ w. case start_accept x w of (j, w1) \<Rightarrow> (Ret j, w1))
      else (\<lambda>w. case start_accept x w of (j, w1) \<Rightarrow> (Ret j, w1)))"

lemmas handler_defs = session_start_def handle_connect_def handle_connect_fix_id_def
  session_open_def act_defs

subsection \<open>What asio does\<close>

text \<open>The socket delivers the bytes a pending read asked for: they fill the buffer the read was
  given, and its handler runs. A failed operation runs its handler with the error.\<close>

definition fill :: "bytes \<Rightarrow> bytes \<Rightarrow> bytes" where
  "fill bs v = bs @ drop (length bs) v"

definition read_done :: "('x) net_ext_scheme \<Rightarrow> nat \<Rightarrow> bytes \<Rightarrow> (world, int) action" where
  "read_done x i bs w =
     (case reading (sessions w i) of
        [] \<Rightarrow> (Ret 0, w)
      | Read_Head n # rs \<Rightarrow> handle_read_header x False i (upd_session i (\<lambda>s. s\<lparr>reading := rs,
            read_msg := (read_msg s)\<lparr>mf_head := fill bs (mf_head (read_msg s))\<rparr>\<rparr>) w)
      | Read_Body n # rs \<Rightarrow> handle_read_body x False i (upd_session i (\<lambda>s. s\<lparr>reading := rs,
            read_msg := (read_msg s)\<lparr>mf_body := fill bs (mf_body (read_msg s))\<rparr>\<rparr>) w))"

definition read_failed :: "('x) net_ext_scheme \<Rightarrow> nat \<Rightarrow> (world, int) action" where
  "read_failed x i w =
     (case reading (sessions w i) of
        [] \<Rightarrow> (Ret 0, w)
      | Read_Head n # rs \<Rightarrow> handle_read_header x True i (upd_session i (\<lambda>s. s\<lparr>reading := rs\<rparr>) w)
      | Read_Body n # rs \<Rightarrow> handle_read_body x True i (upd_session i (\<lambda>s. s\<lparr>reading := rs\<rparr>) w))"

text \<open>A byte stream arriving at session \<open>i\<close>: pending reads complete as long as enough bytes are
  there; what is left over is returned.\<close>

function recv :: "('x) net_ext_scheme \<Rightarrow> nat \<Rightarrow> bytes \<Rightarrow> world \<Rightarrow> world \<times> bytes" where
  "recv x i bs w =
     (let n = (case reading (sessions w i) of [] \<Rightarrow> 0 | Read_Head n # _ \<Rightarrow> n | Read_Body n # _ \<Rightarrow> n)
      in if n = 0 \<or> length bs < n then (w, bs)
         else recv x i (drop n bs) (snd (read_done x i (take n bs) w)))"
  by pat_completeness auto
termination
  by (relation "measure (\<lambda>(x, i, bs, w). length bs)") auto

declare recv.simps [simp del]

text \<open>The stream arrives in segments of any sizes; what one leaves over is read with the next.\<close>

fun deliver :: "('x) net_ext_scheme \<Rightarrow> nat \<Rightarrow> bytes list \<Rightarrow> world \<Rightarrow> bytes \<Rightarrow> world \<times> bytes" where
  "deliver x i [] w left = (w, left)"
| "deliver x i (s # segs) w left = (case recv x i (left @ s) w of (w1, r) \<Rightarrow> deliver x i segs w1 r)"

text \<open>What the stream means, independently of sessions, buffers and reads: the frames in it, and
  whether it runs into a head whose length field is not 12 to 12 + 1 MiB. A frame that is not
  complete is not in it yet.\<close>

definition stream_head :: "bytes \<Rightarrow> head" where
  "stream_head bs = \<lparr>magic = be32 (take 4 bs), len = be32 (take 4 (drop 4 bs)), cmd = be32 (take 4 (drop 8 bs))\<rparr>"

definition bad_length :: "int32 \<Rightarrow> bool" where
  "bad_length l \<longleftrightarrow> \<not> (12 \<le> sint l \<and> sint l \<le> 12 + 1024 * 1024)"

function frames_in :: "bytes \<Rightarrow> (head \<times> bytes) list \<times> bool" where
  "frames_in bs =
     (let h = stream_head bs; n = nat (sint (len h))
      in if length bs < 12 then ([], False)
         else if bad_length (len h) then ([], True)
         else if length bs < n then ([], False)
         else case frames_in (drop n bs) of (fs, bad) \<Rightarrow> ((h, take (n - 12) (drop 12 bs)) # fs, bad))"
  by pat_completeness auto
termination
  by (relation "measure length") (auto simp: bad_length_def)

declare frames_in.simps [simp del]

text \<open>What \<^verbatim>\<open>on_close\<close> leaves of a session that does not reconnect: its id is in its registry no more,
  the other registry is untouched.\<close>

definition unregistered :: "session \<Rightarrow> world \<Rightarrow> world \<Rightarrow> bool" where
  "unregistered s w' w \<longleftrightarrow> (case s_kind s of
     Server_Session \<Rightarrow> peer_get (s_id s) (peers w') = None \<and> cpeers w' = cpeers w
   | Client_Session \<Rightarrow> fix_get (s_id s) (cpeers w') = None \<and> peers w' = peers w)"

subsection \<open>Frames through the reader\<close>

definition frame_task :: "string \<Rightarrow> head \<times> bytes \<Rightarrow> string \<times> head \<times> bytes" where
  "frame_task rid f = (rid, (fst f)\<lparr>len := of_nat (12 + length (snd f))\<rparr>, snd f)"

definition ready :: "nat \<Rightarrow> world \<Rightarrow> bool" where
  "ready i w \<longleftrightarrow> reading (sessions w i) = [Read_Head 12] \<and> length (mf_head (read_msg (sessions w i))) = 12"

lemma upd_session_simps [simp]:
  "sessions (upd_session i f w) j = (if j = i then f (sessions w i) else sessions w j)"
  "tasks (upd_session i f w) = tasks w" "peers (upd_session i f w) = peers w"
  "cpeers (upd_session i f w) = cpeers w" "next_session (upd_session i f w) = next_session w"
  "posted (upd_session i f w) = posted w" "config (upd_session i f w) = config w"
  by (simp_all add: upd_session_def)

lemma after_body_get_simps [simp]:
  "sessions (after_body_get m w) = sessions w" "peers (after_body_get m w) = peers w"
  "cpeers (after_body_get m w) = cpeers w" "next_session (after_body_get m w) = next_session w"
  "posted (after_body_get m w) = posted w" "config (after_body_get m w) = config w"
  "tasks (after_body_get m w) = tasks w @ (if mf_cmd m = 1 then [] else [m])"
  by (simp_all add: after_body_get_def meet_head_def)

lemma fill_same_length [simp]: "length v \<le> length bs \<Longrightarrow> fill bs v = bs"
  by (simp add: fill_def)

lemma take_fill [simp]: "take (length bs) (fill bs v) = bs"
  by (simp add: fill_def)

definition read_head_result :: "head \<Rightarrow> bytes \<Rightarrow> message_format \<Rightarrow> message_format" where
  "read_head_result h body m = m\<lparr>mf_head := take 12 (frame_bytes h body), mf_magic := magic h,
     mf_len := of_nat (12 + length body), mf_cmd := cmd h, mf_body_length := length body,
     mf_body := resize (12 + length body) 0 (mf_body m)\<rparr>"

lemma read_head_result_length [simp]: "mf_body_length (read_head_result h body m) = length body"
  by (simp add: read_head_result_def)

definition same_but_session :: "nat \<Rightarrow> world \<Rightarrow> world \<Rightarrow> bool" where
  "same_but_session i w' w \<longleftrightarrow>
     (\<forall>j. j \<noteq> i \<longrightarrow> sessions w' j = sessions w j) \<and> peers w' = peers w \<and> cpeers w' = cpeers w \<and>
     next_session w' = next_session w \<and> posted w' = posted w \<and> config w' = config w \<and>
     mf_remote_id (read_msg (sessions w' i)) = mf_remote_id (read_msg (sessions w i)) \<and>
     s_id (sessions w' i) = s_id (sessions w i) \<and> s_kind (sessions w' i) = s_kind (sessions w i) \<and>
     server_id (sessions w' i) = server_id (sessions w i) \<and>
     is_auto_reconnect (sessions w' i) = is_auto_reconnect (sessions w i) \<and>
     sock_shutdown (sessions w' i) = sock_shutdown (sessions w i) \<and>
     write_msgs (sessions w' i) = write_msgs (sessions w i)"

lemma same_but_session_trans:
  "same_but_session i w2 w1 \<Longrightarrow> same_but_session i w1 w \<Longrightarrow> same_but_session i w2 w"
  by (simp add: same_but_session_def)

lemma read_done_head:
  assumes "ready i w" "length body \<le> max_body"
  shows "read_done x i (take 12 (frame_bytes h body)) w =
     (let m = read_head_result h body (read_msg (sessions w i));
          w1 = upd_session i (\<lambda>s. s\<lparr>reading := [], read_msg := m\<rparr>) w
      in (Ret 0, if body = [] then async_read i (Read_Head 12) (after_body_get m w1)
                 else async_read i (Read_Body (length body)) w1))"
proof -
  define m0 where "m0 = (read_msg (sessions w i))\<lparr>mf_head := take 12 (frame_bytes h body)\<rparr>"
  have dec: "decode_header m0 =
     (0, \<lparr>magic = magic h, len = of_nat (12 + length body), cmd = cmd h\<rparr>,
      read_head_result h body (read_msg (sessions w i)))"
    using decode_header_frame [of m0 h body] assms(2) by (simp add: m0_def read_head_result_def)
  define w0 where "w0 = upd_session i (\<lambda>s. s\<lparr>reading := [],
      read_msg := (read_msg s)\<lparr>mf_head := take 12 (frame_bytes h body)\<rparr>\<rparr>) w"
  have w0: "read_msg (sessions w0 i) = m0" by (simp add: w0_def m0_def)
  have "do_head i w0 = (0, upd_session i (\<lambda>s. s\<lparr>reading := [],
      read_msg := read_head_result h body (read_msg (sessions w i))\<rparr>) w)"
    by (simp add: do_head_def w0 dec) (simp add: w0_def upd_session_def)
  moreover have "read_done x i (take 12 (frame_bytes h body)) w = handle_read_header x False i w0"
    using assms(1) by (simp add: read_done_def ready_def w0_def upd_session_def fill_def)
  ultimately show ?thesis
    by (simp add: handle_read_header_def handle_read_body_def do_body_def message_head_length_def Let_def)
qed

lemma recv_frame:
  assumes "ready i w" "length body \<le> max_body"
  shows "\<exists>w'. recv x i (frame_bytes h body @ rest) w = recv x i rest w' \<and> ready i w' \<and>
     same_but_session i w' w \<and>
     map task_of (tasks w') = map task_of (tasks w) @
       (if cmd h = 1 then [] else [frame_task (mf_remote_id (read_msg (sessions w i))) (h, body)])"
proof -
  define m where "m = read_head_result h body (read_msg (sessions w i))"
  define w1 where "w1 = upd_session i (\<lambda>s. s\<lparr>reading := [], read_msg := m\<rparr>) w"
  have head: "recv x i (frame_bytes h body @ rest) w = recv x i (body @ rest)
      (if body = [] then async_read i (Read_Head 12) (after_body_get m w1)
       else async_read i (Read_Body (length body)) w1)"
    using assms read_done_head [OF assms, of x h]
    by (subst recv.simps) (simp add: ready_def w1_def m_def Let_def)
  show ?thesis
  proof (cases "body = []")
    case True
    then show ?thesis
      unfolding head
      by (intro exI [of _ "async_read i (Read_Head 12) (after_body_get m w1)"])
        (auto simp: ready_def same_but_session_def async_read_def w1_def m_def read_head_result_def
          task_of_def frame_task_def meet_head_def)
  next
    case False
    define m2 where "m2 = m\<lparr>mf_body := fill body (mf_body m)\<rparr>"
    define w2 where "w2 = async_read i (Read_Head 12) (after_body_get m2
        (upd_session i (\<lambda>s. s\<lparr>reading := [], read_msg := m2\<rparr>) w))"
    have "read_done x i body (async_read i (Read_Body (length body)) w1) = (Ret 0, w2)"
      by (simp add: read_done_def async_read_def w1_def w2_def m2_def handle_read_body_def do_body_def
          message_head_length_def upd_session_def)
    then have "recv x i (body @ rest) (async_read i (Read_Body (length body)) w1) = recv x i rest w2"
      using False by (subst recv.simps) (simp add: async_read_def w1_def)
    then show ?thesis
      unfolding head using False
      by (intro exI [of _ w2])
        (auto simp: ready_def same_but_session_def async_read_def w2_def m2_def m_def read_head_result_def
          task_of_def frame_task_def meet_head_def)
  qed
qed

lemma recv_frames:
  "ready i w \<Longrightarrow> \<forall>f \<in> set fs. length (snd f) \<le> max_body \<Longrightarrow>
   \<exists>w'. recv x i (concat (map (\<lambda>f. frame_bytes (fst f) (snd f)) fs) @ rest) w = recv x i rest w' \<and>
     ready i w' \<and> same_but_session i w' w \<and>
     map task_of (tasks w') = map task_of (tasks w) @
       map (frame_task (mf_remote_id (read_msg (sessions w i)))) (filter (\<lambda>f. cmd (fst f) \<noteq> 1) fs)"
proof (induction fs arbitrary: w)
  case Nil
  then show ?case by (auto simp: same_but_session_def)
next
  case (Cons f fs)
  obtain h body where f: "f = (h, body)" by (cases f)
  from recv_frame [OF Cons.prems(1), of body x h "concat (map (\<lambda>f. frame_bytes (fst f) (snd f)) fs) @ rest"]
    Cons.prems(2) f
  obtain w1 where w1: "recv x i (frame_bytes h body @ concat (map (\<lambda>f. frame_bytes (fst f) (snd f)) fs) @ rest) w =
      recv x i (concat (map (\<lambda>f. frame_bytes (fst f) (snd f)) fs) @ rest) w1" "ready i w1" "same_but_session i w1 w"
    "map task_of (tasks w1) = map task_of (tasks w) @
       (if cmd h = 1 then [] else [frame_task (mf_remote_id (read_msg (sessions w i))) (h, body)])"
    by auto
  from Cons.IH [OF w1(2)] Cons.prems(2) obtain w' where w':
    "recv x i (concat (map (\<lambda>f. frame_bytes (fst f) (snd f)) fs) @ rest) w1 = recv x i rest w'"
    "ready i w'" "same_but_session i w' w1"
    "map task_of (tasks w') = map task_of (tasks w1) @
       map (frame_task (mf_remote_id (read_msg (sessions w1 i)))) (filter (\<lambda>f. cmd (fst f) \<noteq> 1) fs)"
    by auto
  have "mf_remote_id (read_msg (sessions w1 i)) = mf_remote_id (read_msg (sessions w i))"
    using w1(3) by (simp add: same_but_session_def)
  with w1 w' f show ?case
    by (intro exI [of _ w']) (auto intro: same_but_session_trans)
qed

lemma recv_frames_all:
  assumes "ready i w" "\<forall>f \<in> set fs. length (snd f) \<le> max_body"
  shows "\<exists>w'. recv x i (concat (map (\<lambda>f. frame_bytes (fst f) (snd f)) fs)) w = (w', []) \<and>
     ready i w' \<and> same_but_session i w' w \<and>
     map task_of (tasks w') = map task_of (tasks w) @
       map (frame_task (mf_remote_id (read_msg (sessions w i)))) (filter (\<lambda>f. cmd (fst f) \<noteq> 1) fs)"
proof -
  have "recv x i [] w' = (w', [])" for w'
    by (subst recv.simps) (simp add: Let_def split: list.split read_op.split)
  with recv_frames [OF assms, of x "[]"] show ?thesis by simp
qed

lemma recv_append:
  "recv x i (a @ b) w = (case recv x i a w of (w1, r) \<Rightarrow> recv x i (r @ b) w1)"
proof (induction x i a w rule: recv.induct)
  case (1 x i bs w)
  define n where "n = (case reading (sessions w i) of [] \<Rightarrow> 0 | Read_Head n # _ \<Rightarrow> n | Read_Body n # _ \<Rightarrow> n)"
  show ?case
  proof (cases "n = 0 \<or> length bs < n")
    case True
    then have "recv x i bs w = (w, bs)"
      by (subst recv.simps) (simp add: Let_def n_def [symmetric])
    then show ?thesis by simp
  next
    case False
    then have l: "recv x i bs w = recv x i (drop n bs) (snd (read_done x i (take n bs) w))"
      by (subst recv.simps) (simp add: Let_def n_def [symmetric])
    have r: "recv x i (bs @ b) w = recv x i (drop n bs @ b) (snd (read_done x i (take n bs) w))"
      using False by (subst recv.simps) (simp add: Let_def n_def [symmetric])
    show ?thesis unfolding l r using 1 [OF n_def False] by simp
  qed
qed

lemma deliver_recv:
  "recv x i a w0 = (w, left) \<Longrightarrow> deliver x i segs w left = recv x i (a @ concat segs) w0"
proof (induction segs arbitrary: w left a)
  case Nil
  then show ?case by simp
next
  case (Cons s segs)
  obtain w1 r where r: "recv x i (left @ s) w = (w1, r)" by (cases "recv x i (left @ s) w")
  have "recv x i (a @ s) w0 = (w1, r)"
    using recv_append [of x i a s w0] Cons.prems r by simp
  from Cons.IH [OF this] r show ?case by simp
qed

lemma recv_waits:
  assumes "\<And>n rs. reading (sessions w i) = Read_Head n # rs \<Longrightarrow> length bs < n"
    and "\<And>n rs. reading (sessions w i) = Read_Body n # rs \<Longrightarrow> length bs < n"
  shows "recv x i bs w = (w, bs)"
  using assms by (subst recv.simps) (auto simp: Let_def split: list.split read_op.split)

text \<open>A head with a bad length closes the session at once.\<close>

lemma read_done_bad_head:
  assumes "ready i w" "\<not> reconnects (sessions w i)" "length bs = 12" "bad_length (be32 (take 4 (drop 4 bs)))"
  shows "\<exists>w'. read_done x i bs w = (Ret 0, w') \<and> sock_shutdown (sessions w' i) \<and>
     reading (sessions w' i) = [] \<and> unregistered (sessions w i) w' w \<and> tasks w' = tasks w \<and>
     posted w' = posted w \<and> (\<forall>j. j \<noteq> i \<longrightarrow> sessions w' j = sessions w j)"
proof -
  let ?m = "(read_msg (sessions w i))\<lparr>mf_head := bs\<rparr>"
  obtain h m where d: "decode_header ?m = (-1, h, m)"
    using decode_header_status_code [of ?m] assms(4)
    by (cases "decode_header ?m") (auto simp: Let_def bad_length_def)
  have "read_done x i bs w = session_close x i (upd_session i (\<lambda>s. s\<lparr>reading := [], read_msg := m\<rparr>) w)"
    using assms(1,3) d
    by (simp add: read_done_def ready_def handle_read_header_def do_head_def upd_session_def Let_def)
  with assms(2) show ?thesis
    by (auto simp: session_close_def on_close_def reconnects_def on_close_erase_def Let_def act_defs
        peer_get_erase fix_get_erase_in unregistered_def split: session_kind.split)
qed

lemma stream_frame:
  assumes "12 \<le> length bs" "\<not> bad_length (len (stream_head bs))"
    and "body = take (nat (sint (len (stream_head bs))) - 12) (drop 12 bs) @
      replicate (nat (sint (len (stream_head bs))) - length bs) 0"
  shows "length body = nat (sint (len (stream_head bs))) - 12" "length body \<le> max_body"
    "take 12 (frame_bytes (stream_head bs) body) = take 12 bs"
    "nat (sint (len (stream_head bs))) \<le> length bs \<Longrightarrow>
       bs = frame_bytes (stream_head bs) body @ drop (nat (sint (len (stream_head bs)))) bs"
proof -
  let ?h = "stream_head bs"
  let ?l = "sint (len ?h)"
  have l: "12 \<le> ?l" "?l \<le> 12 + 1024 * 1024" using assms(2) by (simp_all add: bad_length_def)
  show len: "length body = nat ?l - 12"
    using assms(1) l by (simp add: assms(3))
  then show "length body \<le> max_body" using l by (simp add: max_body_def)
  have "of_nat (12 + length body) = (of_int ?l :: int32)"
    using len l by (metis add_diff_inverse_nat int_nat_eq nat_le_iff not_less of_int_of_nat_eq
      order_trans zero_le_numeral le_nat_iff nat_numeral)
  then have n: "of_nat (12 + length body) = len ?h" by simp
  have t: "take 12 bs = take 4 bs @ take 4 (drop 4 bs) @ take 4 (drop 8 bs)"
    using take_add [of 4 8 bs] take_add [of 4 4 "drop 4 bs"] by simp
  have f: "bytes_be32 (magic ?h) = take 4 bs" "bytes_be32 (len ?h) = take 4 (drop 4 bs)"
    "bytes_be32 (cmd ?h) = take 4 (drop 8 bs)"
    using assms(1) by (simp_all add: stream_head_def bytes_be32_be32)
  have fr: "frame_bytes ?h body = take 12 bs @ body"
    unfolding frame_bytes_def n f t by simp
  then show "take 12 (frame_bytes ?h body) = take 12 bs" using assms(1) by simp
  assume c: "nat ?l \<le> length bs"
  then have "body = take (nat ?l - 12) (drop 12 bs)" by (simp add: assms(3))
  moreover have "drop (nat ?l - 12) (drop 12 bs) = drop (nat ?l) bs" using l by (simp add: nat_le_iff)
  ultimately have "body @ drop (nat ?l) bs = drop 12 bs" by (metis append_take_drop_id)
  with fr show "bs = frame_bytes ?h body @ drop (nat ?l) bs" by (simp only: append_assoc append_take_drop_id)
qed

definition stream_read :: "nat \<Rightarrow> world \<Rightarrow> (head \<times> bytes) list \<times> bool \<Rightarrow> world \<Rightarrow> bool" where
  "stream_read i w = (\<lambda>(fs, bad) w'.
     map task_of (tasks w') = map task_of (tasks w) @
       map (frame_task (mf_remote_id (read_msg (sessions w i)))) (filter (\<lambda>f. cmd (fst f) \<noteq> 1) fs) \<and>
     (if bad then sock_shutdown (sessions w' i) \<and> reading (sessions w' i) = [] \<and>
          unregistered (sessions w i) w' w
      else length (reading (sessions w' i)) = 1 \<and> same_but_session i w' w))"

lemma same_but_session_reconnects: "same_but_session i w' w \<Longrightarrow> reconnects (sessions w' i) = reconnects (sessions w i)"
  by (simp add: same_but_session_def reconnects_def)

lemma stream_read_step:
  assumes "stream_read i w1 (fs, bad) w'" "same_but_session i w1 w"
    and "map task_of (tasks w1) = map task_of (tasks w) @
       (if cmd h = 1 then [] else [frame_task (mf_remote_id (read_msg (sessions w i))) (h, body)])"
  shows "stream_read i w ((h, body) # fs, bad) w'"
proof -
  have "mf_remote_id (read_msg (sessions w1 i)) = mf_remote_id (read_msg (sessions w i))"
    "unregistered (sessions w1 i) w' w1 = unregistered (sessions w i) w' w"
    using assms(2) by (auto simp: same_but_session_def unregistered_def split: session_kind.split)
  with assms show ?thesis
    by (auto simp: stream_read_def intro: same_but_session_trans)
qed

lemma recv_stream:
  "ready i w \<Longrightarrow> \<not> reconnects (sessions w i) \<Longrightarrow> stream_read i w (frames_in bs) (fst (recv x i bs w))"
proof (induction bs arbitrary: w rule: frames_in.induct)
  case (1 bs)
  let ?h = "stream_head bs"
  let ?n = "nat (sint (len ?h))"
  define body where "body = take (?n - 12) (drop 12 bs) @ replicate (?n - length bs) 0"
  have rd: "reading (sessions w i) = [Read_Head 12]" using 1(2) by (simp add: ready_def)
  consider (short) "length bs < 12" | (bad) "12 \<le> length bs" "bad_length (len ?h)"
    | (partial) "12 \<le> length bs" "\<not> bad_length (len ?h)" "length bs < ?n"
    | (complete) "12 \<le> length bs" "\<not> bad_length (len ?h)" "?n \<le> length bs"
    by linarith
  then show ?case
  proof cases
    case short
    then have "recv x i bs w = (w, bs)" by (intro recv_waits) (simp_all add: rd)
    with short rd show ?thesis
      by (subst frames_in.simps) (simp add: stream_read_def same_but_session_def)
  next
    case bad
    then have "bad_length (be32 (take 4 (drop 4 (take 12 bs))))"
      by (simp add: stream_head_def take_drop)
    from read_done_bad_head [OF 1(2,3) _ this, of x] bad obtain w' where
      w': "read_done x i (take 12 bs) w = (Ret 0, w')" "sock_shutdown (sessions w' i)"
        "reading (sessions w' i) = []" "unregistered (sessions w i) w' w" "tasks w' = tasks w"
      by auto
    have "recv x i bs w = recv x i (drop 12 bs) w'"
      using bad(1) w'(1) by (subst recv.simps) (simp add: rd Let_def)
    also have "\<dots> = (w', drop 12 bs)" by (intro recv_waits) (simp_all add: w')
    finally show ?thesis
      using bad w' by (subst frames_in.simps) (simp add: stream_read_def Let_def)
  next
    case partial
    note f = stream_frame [OF partial(1,2) body_def]
    have ne: "body \<noteq> []" using f(1) partial(1,3) by auto
    define w' where "w' = async_read i (Read_Body (length body)) (upd_session i
       (\<lambda>s. s\<lparr>reading := [], read_msg := read_head_result ?h body (read_msg (sessions w i))\<rparr>) w)"
    have "read_done x i (take 12 bs) w = (Ret 0, w')"
      using read_done_head [OF 1(2) f(2), of x ?h] ne by (simp add: f(3) w'_def Let_def)
    then have "recv x i bs w = recv x i (drop 12 bs) w'"
      using partial(1) by (subst recv.simps) (simp add: rd Let_def)
    also have "\<dots> = (w', drop 12 bs)"
      using partial f(1) by (intro recv_waits) (simp_all add: w'_def async_read_def)
    finally show ?thesis
      using partial by (subst frames_in.simps)
        (simp add: stream_read_def Let_def w'_def async_read_def same_but_session_def read_head_result_def)
  next
    case complete
    note f = stream_frame [OF complete(1,2) body_def]
    obtain fs bad where r: "frames_in (drop ?n bs) = (fs, bad)" by (cases "frames_in (drop ?n bs)")
    from recv_frame [OF 1(2) f(2), of x ?h "drop ?n bs"] obtain w1 where w1:
      "recv x i (frame_bytes ?h body @ drop ?n bs) w = recv x i (drop ?n bs) w1" "ready i w1"
      "same_but_session i w1 w"
      "map task_of (tasks w1) = map task_of (tasks w) @
         (if cmd ?h = 1 then [] else [frame_task (mf_remote_id (read_msg (sessions w i))) (?h, body)])"
      by blast
    have "\<not> reconnects (sessions w1 i)" using same_but_session_reconnects [OF w1(3)] 1(3) by simp
    from 1(1) [OF refl refl _ _ _ w1(2) this] complete r
    have "stream_read i w1 (fs, bad) (fst (recv x i (drop ?n bs) w1))" by simp
    from stream_read_step [OF this w1(3,4)]
    have "stream_read i w ((?h, body) # fs, bad) (fst (recv x i (frame_bytes ?h body @ drop ?n bs) w))"
      by (simp only: w1(1))
    moreover have "frames_in bs = ((?h, body) # fs, bad)"
      using complete r by (subst frames_in.simps) (simp add: Let_def body_def)
    ultimately show ?thesis using f(4) complete(3) by simp
  qed
qed

subsection \<open>Every step of the server's network core\<close>

text \<open>
  One rule per kind of event: a posted or direct \<^verbatim>\<open>write\<close>, a worker taking a task, the completion
  or failure of a pending write or read, an accepted connection (from \<^verbatim>\<open>start_accept\<close> to \<^verbatim>\<open>handle_accept\<close>), and
  an outgoing connection of either constructor with its registration. A handler that throws makes no
  step here: what becomes of the exception is in the theory \<open>Uncaught\<close>.
\<close>

inductive net_step :: "('x) net_ext_scheme \<Rightarrow> world \<Rightarrow> world \<Rightarrow> bool" for x where
  run_posted: "posted w = (i, m) # ps \<Longrightarrow> net_step x w (world_write i m (w\<lparr>posted := ps\<rparr>))"
| post: "net_step x w (post_write i m w)"
| pop: "tasks w = m # ms \<Longrightarrow> net_step x w (w\<lparr>tasks := ms\<rparr>)"
| direct_write: "net_step x w (world_write i m w)"
| write_ok: "writing (sessions w i) = b # bs \<Longrightarrow>
     net_step x w (snd (handle_write x False i (upd_session i (\<lambda>s. s\<lparr>writing := bs\<rparr>) w)))"
| write_err: "writing (sessions w i) = b # bs \<Longrightarrow>
     handle_write x True i (upd_session i (\<lambda>s. s\<lparr>writing := bs\<rparr>) w) = (Ret r, w') \<Longrightarrow> net_step x w w'"
| read_ok: "read_done x i bs w = (Ret r, w') \<Longrightarrow> net_step x w w'"
| read_err: "read_failed x i w = (Ret r, w') \<Longrightarrow> net_step x w w'"
| accept: "start_accept x w = (i, w1) \<Longrightarrow>
     handle_accept x err i (upd_session i (\<lambda>s. s\<lparr>remote_endpoint := ep\<rparr>) w1) = (Ret j, w') \<Longrightarrow> net_step x w w'"
| connect_fix: "peer_handle_client_fix x ep srv key w = (Ret c, w1) \<Longrightarrow> net_step x w (registe x c w1)"
| connect_new: "peer_handle_client_new x ep w = (Ret c, w1) \<Longrightarrow> net_step x w (registe x c w1)"
| connect_throws: "peer_handle_client_new x ep w = (Throws, w1) \<Longrightarrow> net_step x w w1"

text \<open>At most one read and one write are outstanding on each socket, a pending write belongs to a
  locked session with a queue, and a pending body read has a buffer of the declared length; so
  does every queued task.\<close>

definition session_ok :: "session \<Rightarrow> bool" where
  "session_ok s \<longleftrightarrow> length (reading s) \<le> 1 \<and>
     (write_inv s \<or> inter_lock s \<and> writing s = [] \<and> write_msgs s \<noteq> []) \<and>
     (\<forall>n. reading s = [Read_Body n] \<longrightarrow> body_fits (read_msg s))"

definition world_ok :: "world \<Rightarrow> bool" where
  "world_ok w \<longleftrightarrow> (\<forall>i. session_ok (sessions w i)) \<and> list_all body_fits (tasks w)"

lemma body_fits_upds [simp]:
  "body_fits (m\<lparr>mf_remote_id := a\<rparr>) = body_fits m" "body_fits (m\<lparr>mf_server_id := b\<rparr>) = body_fits m"
  "body_fits (m\<lparr>mf_head := h\<rparr>) = body_fits m"
  by (simp_all add: body_fits_def)

lemma body_fits_fill [simp]: "body_fits m \<Longrightarrow> body_fits (m\<lparr>mf_body := fill bs (mf_body m)\<rparr>)"
  by (auto simp: body_fits_def fill_def)

lemma decode_header_fits: "decode_header m = (0, h, m') \<Longrightarrow> body_fits m'"
  by (auto simp: decode_header_def body_fits_def Let_def split: if_splits)

lemma session_ok_new [simp]: "session_ok (session_new k a g ep)"
  using write_inv_new [of k a g ep] by (simp add: session_ok_def session_new_def)

lemma session_ok_write [simp]: "session_ok s \<Longrightarrow> session_ok (session_write m s)"
  by (auto simp: session_ok_def write_inv_write write_locked)

lemma session_ok_cong:
  "reading s' = reading s \<Longrightarrow> inter_lock s' = inter_lock s \<Longrightarrow> writing s' = writing s \<Longrightarrow>
     write_msgs s' = write_msgs s \<Longrightarrow> body_fits (read_msg s') = body_fits (read_msg s) \<Longrightarrow>
     session_ok s' = session_ok s"
  by (simp add: session_ok_def write_inv_def)

lemma session_ok_upds [simp]:
  "session_ok (s\<lparr>s_id := a\<rparr>) = session_ok s" "session_ok (s\<lparr>server_id := a\<rparr>) = session_ok s"
  "body_fits m = body_fits (read_msg s) \<Longrightarrow> session_ok (s\<lparr>read_msg := m\<rparr>) = session_ok s"
  "session_ok (s\<lparr>fix_connect := b\<rparr>) = session_ok s"
  "session_ok (s\<lparr>sock_shutdown := b\<rparr>) = session_ok s" "session_ok (s\<lparr>connected := b\<rparr>) = session_ok s"
  "session_ok (s\<lparr>remote_endpoint := ep\<rparr>) = session_ok s"
  by (rule session_ok_cong; simp)+

lemma session_ok_read [simp]:
  "reading s = [] \<Longrightarrow> session_ok s \<Longrightarrow> session_ok (s\<lparr>reading := [Read_Head n]\<rparr>)"
  "reading s = [] \<Longrightarrow> session_ok s \<Longrightarrow> body_fits (read_msg s) \<Longrightarrow> session_ok (s\<lparr>reading := [Read_Body n]\<rparr>)"
  "session_ok s \<Longrightarrow> session_ok (s\<lparr>reading := []\<rparr>)"
  "session_ok s \<Longrightarrow> reading s = [] \<Longrightarrow> session_ok (s\<lparr>read_msg := m\<rparr>)"
  "session_ok s \<Longrightarrow> session_ok (s\<lparr>reading := [], read_msg := m\<rparr>)"
  by (auto simp: session_ok_def write_inv_def)

lemma world_ok_upd: "world_ok w \<Longrightarrow> session_ok (f (sessions w i)) \<Longrightarrow> world_ok (upd_session i f w)"
  by (simp add: world_ok_def)

lemma on_close_erase_simps [simp]:
  "sessions (on_close_erase i w) = sessions w" "tasks (on_close_erase i w) = tasks w"
  "next_session (on_close_erase i w) = next_session w" "posted (on_close_erase i w) = posted w"
  "config (on_close_erase i w) = config w"
  by (simp_all add: on_close_erase_def Let_def split: session_kind.split)

lemma world_ok_updates [simp]:
  "world_ok (w\<lparr>peers := p\<rparr>) = world_ok w" "world_ok (w\<lparr>cpeers := c\<rparr>) = world_ok w"
  "world_ok (w\<lparr>posted := ps\<rparr>) = world_ok w" "world_ok (on_close_erase i w) = world_ok w"
  "world_ok w \<Longrightarrow> body_fits m \<Longrightarrow> world_ok (after_body_get m w)"
  by (simp_all add: world_ok_def)

lemma world_okD [simp, dest]: "world_ok w \<Longrightarrow> session_ok (sessions w i)"
  by (simp add: world_ok_def)

lemma close_plain_ok: "world_ok w \<Longrightarrow> world_ok (close_plain i w)"
  by (simp add: close_plain_def world_ok_upd)

lemma reading_close_plain: "reading (sessions (close_plain i w) j) = reading (sessions w j)"
  by (simp add: close_plain_def)

lemma session_open_ok:
  assumes "world_ok w"
  shows "world_ok (snd (session_open i w)) \<and> reading (sessions (snd (session_open i w)) j) = reading (sessions w j)"
  using assms
  by (auto simp: session_open_def server_open_def client_open_def Let_def world_ok_upd
      split: session_kind.split option.split prod.split)

lemma session_start_ok:
  assumes "world_ok w" "reading (sessions w i) = []"
  shows "world_ok (snd (session_start i w))"
proof -
  obtain r w1 where o: "session_open i w = (r, w1)" by (cases "session_open i w")
  with session_open_ok [OF assms(1), of i i] assms(2)
  have "world_ok w1" "reading (sessions w1 i) = []" by auto
  then show ?thesis
    by (cases r) (auto simp: session_start_def act_defs o close_plain_ok intro!: world_ok_upd)
qed

lemma handle_connect_ok:
  assumes "world_ok w" "reading (sessions w i) = []"
  shows "world_ok (snd (handle_connect e i w))"
  using session_start_ok [OF assms] close_plain_ok [OF assms(1), of i]
  by (auto simp: handle_connect_def act_defs split: prod.split outcome.split)

lemma new_client_session_ok:
  "world_ok w \<Longrightarrow> world_ok (new_client_session x ep w)"
  "reading (sessions (new_client_session x ep w) (next_session w)) = []"
  by (auto simp: new_client_session_def world_ok_def Let_def)

lemma peer_handle_client_ok:
  assumes "world_ok w"
  shows "world_ok (snd (peer_handle_client_new x ep w))" "world_ok (snd (peer_handle_client_fix x ep srv key w))"
proof -
  let ?w = "new_client_session x ep w" and ?i = "next_session w"
  note n = new_client_session_ok(1) [OF assms, of x ep] new_client_session_ok(2) [of x ep w]
  have "world_ok (snd (handle_connect e ?i ?w))" for e
    by (rule handle_connect_ok [OF n])
  then show "world_ok (snd (peer_handle_client_new x ep w))"
    by (simp add: peer_handle_client_new_def Let_def)
  let ?w1 = "upd_session ?i (\<lambda>s. s\<lparr>fix_connect := True, s_id := key, server_id := srv,
         read_msg := (read_msg s)\<lparr>mf_remote_id := key, mf_server_id := srv\<rparr>\<rparr>) ?w"
  have "world_ok ?w1" using n by (intro world_ok_upd) auto
  then have "world_ok (snd (handle_connect e ?i ?w1))" for e
    using n by (intro handle_connect_ok) auto
  then show "world_ok (snd (peer_handle_client_fix x ep srv key w))"
    by (simp add: peer_handle_client_fix_def handle_connect_fix_id_def Let_def act_bind_do)
qed

lemma registe_ok [simp]: "world_ok (registe x c w) = world_ok w"
  by (simp add: registe_def post_write_def Let_def)

lemma session_close_ok: "world_ok w \<Longrightarrow> world_ok (snd (session_close x i w))"
proof -
  assume w: "world_ok w"
  let ?w = "upd_session i (\<lambda>s. s\<lparr>sock_shutdown := True\<rparr>) w"
  have ok: "world_ok (on_close_erase i ?w)" using w by (simp add: world_ok_upd)
  have "world_ok (snd (on_close x i ?w))"
    using peer_handle_client_ok(2) [OF ok, of x] ok
    by (simp add: on_close_def Let_def snd_bind_do_ret split: option.split outcome.split)
  then show ?thesis by (simp add: session_close_def act_do_def)
qed

lemma handle_read_body_ok:
  assumes "world_ok w" "reading (sessions w i) = []" "e \<or> body_fits (read_msg (sessions w i))"
  shows "world_ok (snd (handle_read_body x e i w))"
  using assms session_close_ok [OF assms(1), of x i]
  by (auto simp: handle_read_body_def do_body_def async_read_def intro!: world_ok_upd)

lemma handle_read_header_ok:
  assumes "world_ok w" "reading (sessions w i) = []"
  shows "world_ok (snd (handle_read_header x e i w))"
proof -
  obtain res w1 where d: "do_head i w = (res, w1)" by (cases "do_head i w")
  then have w1: "world_ok w1" "reading (sessions w1 i) = []"
    using assms by (auto simp: do_head_def world_ok_upd split: prod.splits)
  have fits: "res = 0 \<Longrightarrow> body_fits (read_msg (sessions w1 i))"
    using d by (auto simp: do_head_def split: prod.splits dest: decode_header_fits)
  from w1 fits show ?thesis
    using handle_read_body_ok [OF w1, of e x] session_close_ok [OF w1(1), of x i] session_close_ok [OF assms(1), of x i]
    by (auto simp: handle_read_header_def d Let_def async_read_def intro!: world_ok_upd)
qed

lemma read_done_ok: "world_ok w \<Longrightarrow> world_ok (snd (read_done x i bs w))"
  and read_failed_ok: "world_ok w \<Longrightarrow> world_ok (snd (read_failed x i w))"
proof -
  assume w: "world_ok w"
  have one: "rs = []" if "reading (sessions w i) = op # rs" for op rs
    using that world_okD [OF w, of i] by (simp add: session_ok_def)
  show "world_ok (snd (read_done x i bs w))"
  proof (cases "reading (sessions w i)")
    case (Cons op rs)
    note rs = one [OF Cons]
    have ok: "session_ok (sessions w i)" using w by blast
    show ?thesis
    proof (cases op)
      case (Read_Head n)
      with Cons rs w show ?thesis
        by (auto simp: read_done_def intro!: handle_read_header_ok world_ok_upd)
    next
      case (Read_Body n)
      with Cons rs ok have "body_fits (read_msg (sessions w i))" by (simp add: session_ok_def)
      with Read_Body Cons rs w show ?thesis
        by (auto simp: read_done_def intro!: handle_read_body_ok world_ok_upd)
    qed
  qed (simp add: read_done_def w)
  show "world_ok (snd (read_failed x i w))"
    using w by (auto simp: read_failed_def split: list.split read_op.split dest!: one
        intro!: handle_read_header_ok handle_read_body_ok world_ok_upd)
qed

lemma recv_ok: "world_ok w \<Longrightarrow> world_ok (fst (recv x i bs w))"
proof (induction x i bs w rule: recv.induct)
  case (1 x i bs w)
  define n where "n = (case reading (sessions w i) of [] \<Rightarrow> 0 | Read_Head n # _ \<Rightarrow> n | Read_Body n # _ \<Rightarrow> n)"
  show ?case
    using 1(1) [OF n_def] 1(2) read_done_ok [OF 1(2), of x i "take n bs"]
    by (subst recv.simps) (auto simp: Let_def n_def [symmetric])
qed

lemma handle_accept_ok:
  assumes "world_ok w" "start_accept x w = (i, w1)"
  shows "world_ok (snd (handle_accept x e i (upd_session i (\<lambda>s. s\<lparr>remote_endpoint := ep\<rparr>) w1)))"
proof -
  let ?w = "upd_session i (\<lambda>s. s\<lparr>remote_endpoint := ep\<rparr>) w1"
  have sa: "world_ok (snd (start_accept x w'))" if "world_ok w'" for w'
    using that by (auto simp: start_accept_def world_ok_def Let_def)
  have w: "world_ok ?w" "reading (sessions ?w i) = []"
    using assms sa [OF assms(1)] by (auto simp: start_accept_def Let_def intro!: world_ok_upd)
  show ?thesis
    using session_start_ok [OF w] sa [OF w(1)] sa [OF session_start_ok [OF w]]
    by (auto simp: handle_accept_def act_bind_def split: prod.splits outcome.splits)
qed

lemma write_done_ok:
  assumes "world_ok w" "writing (sessions w i) = b # bs"
  shows "world_ok (snd (handle_write x e i (upd_session i (\<lambda>s. s\<lparr>writing := bs\<rparr>) w)))"
proof -
  have s: "session_ok (sessions w i)" by (rule world_okD [OF assms(1)])
  with assms(2) have inv: "write_inv (sessions w i)" by (auto simp: session_ok_def)
  with assms(2) obtain m ms where ms: "write_msgs (sessions w i) = m # ms" "bs = []"
    by (cases "write_msgs (sessions w i)") (auto simp: write_inv_def)
  have "complete_write (sessions w i) = Some (m, handle_write_ok ((sessions w i)\<lparr>writing := bs\<rparr>))"
    using assms(2) ms by (simp add: complete_write_def)
  from write_inv_complete [OF inv this]
  have "session_ok (handle_write_ok ((sessions w i)\<lparr>writing := bs\<rparr>))"
    using s by (auto simp: session_ok_def write_defs)
  moreover have "session_ok ((sessions w i)\<lparr>writing := bs\<rparr>)"
    using s inv ms by (simp add: session_ok_def write_inv_def)
  then have "world_ok (upd_session i (\<lambda>s. s\<lparr>writing := bs\<rparr>) w)"
    using assms(1) by (intro world_ok_upd)
  ultimately show ?thesis
    using assms(1) session_close_ok [of "upd_session i (\<lambda>s. s\<lparr>writing := bs\<rparr>) w" x i]
    by (auto simp: handle_write_def act_defs intro!: world_ok_upd)
qed

lemma net_step_ok: "net_step x w w' \<Longrightarrow> world_ok w \<Longrightarrow> world_ok w'"
proof (induction rule: net_step.induct)
  case (connect_fix ep srv key w c w1)
  then show ?case using peer_handle_client_ok(2) [of w x ep srv key] by simp
next
  case (connect_new ep w c w1)
  then show ?case using peer_handle_client_ok(1) [of w x ep] by simp
next
  case (connect_throws ep w w1)
  then show ?case using peer_handle_client_ok(1) [of w x ep] by simp
next
  case (pop w m ms)
  then show ?case by (simp add: world_ok_def)
next
  case (write_err w i b bs r w')
  with write_done_ok [OF write_err(3,1), of x True] show ?case by simp
next
  case (read_ok i bs w r w')
  with read_done_ok [OF read_ok(2), of x i bs] show ?case by simp
next
  case (read_err i w r w')
  with read_failed_ok [OF read_err(2), of x i] show ?case by simp
next
  case (accept w i w1 err ep j w')
  with handle_accept_ok [OF accept(3,1), of err ep] show ?case by simp
qed (auto simp: world_write_def post_write_def intro!: world_ok_upd write_done_ok)

subsection \<open>Concrete worlds for the witnesses\<close>

definition demo_net :: net_ext where
  "demo_net = cfg_ext.extend demo_ext
     \<lparr>resolve = (\<lambda>_ _ _. Some (''10.0.0.1'', 80)), connect_ok = (\<lambda>_. True),
      uninit_head = (\<lambda>_. zero_head), rt = demo_rt\<rparr>"

definition world_new :: "configwrap \<Rightarrow> world" where
  "world_new c = \<lparr>sessions = (\<lambda>_. session_new Server_Session False zero_head None), next_session = 0,
     peers = [], cpeers = client_map_new, tasks = [], posted = [], config = c\<rparr>"

lemma world_ok_new: "world_ok (world_new c)"
  by (simp add: world_ok_def world_new_def)

lemma sessions_world_new [simp]: "sessions (world_new c) i = session_new Server_Session False zero_head None"
  by (simp add: world_new_def)

definition demo_ready :: world where
  "demo_ready = upd_session 0 (\<lambda>s. s\<lparr>reading := [Read_Head 12]\<rparr>) (world_new (configwrap_new 4 0))"

lemma demo_ready_ready: "ready 0 demo_ready"
  by (simp add: ready_def demo_ready_def session_new_def message_format_new_def)

subsection \<open>Properties\<close>

text \<open>C3: End-to-end framing. A session waiting for a head that receives the frames of any list of
  messages (bodies up to 1 MiB) queues exactly the tasks with cmd other than 1, in order, each
  with the sender's magic, cmd and body and the session's own id, and is then waiting for the
  next head; no other session, registry or posted write changes.\<close>

theorem frames_become_tasks:
  assumes "ready i w" "\<forall>f \<in> set fs. length (snd f) \<le> 1024 * 1024"
    and "recv x i (concat (map (\<lambda>f. frame_bytes (fst f) (snd f)) fs)) w = (w', left)"
  shows "left = [] \<and> ready i w' \<and> same_but_session i w' w \<and>
     map task_of (tasks w') = map task_of (tasks w) @
       map (frame_task (mf_remote_id (read_msg (sessions w i)))) (filter (\<lambda>f. cmd (fst f) \<noteq> 1) fs)"
  using recv_frames_all [OF assms(1), of fs x] assms(2,3) by (auto simp: max_body_def)

theorem frames_become_tasks_witness:
  "map task_of (tasks (fst (recv demo_net 0 (frame_bytes \<lparr>magic = 1, len = 0, cmd = 200\<rparr> [5, 6] @
      frame_bytes \<lparr>magic = 0, len = 0, cmd = 1\<rparr> []) demo_ready))) =
   [([], \<lparr>magic = 1, len = 14, cmd = 200\<rparr>, [5, 6])]"
proof -
  let ?fs = "[(\<lparr>magic = 1, len = 0, cmd = 200\<rparr>, [5, 6]), (\<lparr>magic = 0, len = 0, cmd = 1\<rparr>, [])] :: (head \<times> bytes) list"
  have "map task_of (tasks demo_ready) = []" "mf_remote_id (read_msg (sessions demo_ready 0)) = []"
    by (simp_all add: demo_ready_def world_new_def session_new_def message_format_new_def)
  with frames_become_tasks [OF demo_ready_ready _ prod.collapse [symmetric], of ?fs demo_net] show ?thesis
    by (simp add: frame_task_def)
qed

text \<open>C5: Whatever bytes arrive, cut into whatever segments, at a session that waits for a head and
  does not reconnect: its handlers queue exactly the tasks of the frames in the stream (cmd other
  than 1), in order. If the stream runs into a head with a bad length, the session is then shut
  down, its id unregistered and nothing is being read; otherwise one read is pending and no
  registry, other session or posted write has changed.\<close>

theorem any_stream_decoded:
  assumes "ready i w" "\<not> reconnects (sessions w i)"
    and "deliver x i segs w [] = (w', left)" "frames_in (concat segs) = (fs, bad)"
  shows "map task_of (tasks w') = map task_of (tasks w) @
       map (frame_task (mf_remote_id (read_msg (sessions w i)))) (filter (\<lambda>f. cmd (fst f) \<noteq> 1) fs) \<and>
     (if bad then sock_shutdown (sessions w' i) \<and> reading (sessions w' i) = [] \<and>
          unregistered (sessions w i) w' w
      else length (reading (sessions w' i)) = 1 \<and> same_but_session i w' w)"
proof -
  have "recv x i [] w = (w, [])"
    using assms(1) by (intro recv_waits) (auto simp: ready_def)
  from deliver_recv [OF this, of segs] assms(3) have "recv x i (concat segs) w = (w', left)" by simp
  with recv_stream [OF assms(1,2), where x = x and bs = "concat segs"] assms(4) show ?thesis
    by (auto simp: stream_read_def)
qed

theorem any_stream_decoded_witness:
  "map task_of (tasks (fst (deliver demo_net 0 [[0,0,0,1, 0,0,0], [14, 0,0,0,200, 5], [6, 0,0,0,0, 0,0,0,0, 0,0], [0,0, 9]]
      demo_ready []))) = [([], \<lparr>magic = 1, len = 14, cmd = 200\<rparr>, [5, 6])]"
proof -
  let ?s = "[[0,0,0,1, 0,0,0], [14, 0,0,0,200, 5], [6, 0,0,0,0, 0,0,0,0, 0,0], [0,0, 9]] :: bytes list"
  have "frames_in (concat ?s) = ([(\<lparr>magic = 1, len = 14, cmd = 200\<rparr>, [5, 6])], True)" by code_simp
  moreover have "map task_of (tasks demo_ready) = []" "mf_remote_id (read_msg (sessions demo_ready 0)) = []"
    "\<not> reconnects (sessions demo_ready 0)"
    by (simp_all add: demo_ready_def world_new_def session_new_def message_format_new_def reconnects_def)
  ultimately show ?thesis
    using any_stream_decoded [OF demo_ready_ready _ prod.collapse [symmetric], where x = demo_net and segs = ?s]
    by (simp add: frame_task_def)
qed

text \<open>C23: In every state reachable by any interleaving of the handlers, no socket has two reads or
  two writes outstanding, a pending body read fits the buffer it was given, and the declared body
  of every queued task lies inside its vector, so that taking the task reads no other memory.\<close>

theorem one_operation_per_direction:
  assumes "(net_step x)\<^sup>*\<^sup>* (world_new c) w"
  shows "length (reading (sessions w i)) \<le> 1 \<and> length (writing (sessions w i)) \<le> 1 \<and>
     (\<forall>n. reading (sessions w i) = [Read_Body n] \<longrightarrow>
        mf_body_length (read_msg (sessions w i)) \<le> length (mf_body (read_msg (sessions w i)))) \<and>
     list_all (\<lambda>m. body_data m \<noteq> None) (tasks w)"
proof -
  from assms have "world_ok w"
    by (induction rule: rtranclp_induct) (auto intro: world_ok_new net_step_ok)
  then have s: "session_ok (sessions w i)" and t: "list_all body_fits (tasks w)"
    by (simp, simp add: world_ok_def)
  have "(\<lambda>m. body_data m \<noteq> None) = body_fits" by (auto simp: body_data_def body_fits_def)
  with t have "list_all (\<lambda>m. body_data m \<noteq> None) (tasks w)" by (simp only:)
  moreover have "length (reading (sessions w i)) \<le> 1 \<and> length (writing (sessions w i)) \<le> 1"
    using s by (auto simp: session_ok_def write_inv_def split: list.splits)
  moreover have "reading (sessions w i) = [Read_Body n] \<Longrightarrow> body_fits (read_msg (sessions w i))" for n
    using s by (simp add: session_ok_def)
  ultimately show ?thesis by (simp add: body_fits_def)
qed

theorem one_operation_per_direction_witness:
  "length (writing (sessions (world_write 0 (demo_frame 1) (world_write 0 (demo_frame 2) (world_new (configwrap_new 4 0)))) 0)) \<le> 1"
proof -
  have "(net_step demo_net)\<^sup>*\<^sup>* (world_new (configwrap_new 4 0)) (world_write 0 (demo_frame 1) (world_write 0 (demo_frame 2) (world_new (configwrap_new 4 0))))"
    by (rule rtranclp.rtrancl_into_rtrancl [of _ _ "world_write 0 (demo_frame 2) (world_new (configwrap_new 4 0))"])
      (auto intro: net_step.direct_write)
  from one_operation_per_direction [OF this] show ?thesis by blast
qed

text \<open>C28: A head whose length field is out of range closes a session that does not reconnect,
  accepted or outgoing: the socket is shut down, its id is no longer in the registry of its kind,
  nothing is queued or posted, no read is started, and no other session changes.\<close>

theorem bad_head_closes_session:
  assumes "ready i w" "\<not> reconnects (sessions w i)" "length bs = 12"
    and "\<not> (12 \<le> sint (be32 (take 4 (drop 4 bs))) \<and> sint (be32 (take 4 (drop 4 bs))) \<le> 12 + 1024 * 1024)"
    and "read_done x i bs w = (r, w')"
  shows "r = Ret 0 \<and> sock_shutdown (sessions w' i) \<and> reading (sessions w' i) = [] \<and>
     (case s_kind (sessions w i) of
        Server_Session \<Rightarrow> peer_get (s_id (sessions w i)) (peers w') = None
      | Client_Session \<Rightarrow> fix_get (s_id (sessions w i)) (cpeers w') = None) \<and>
     tasks w' = tasks w \<and> posted w' = posted w \<and> (\<forall>j. j \<noteq> i \<longrightarrow> sessions w' j = sessions w j)"
  using read_done_bad_head [OF assms(1-3), of x] assms(4,5)
  by (auto simp: bad_length_def unregistered_def split: session_kind.splits)

theorem bad_head_closes_session_witness:
  "sock_shutdown (sessions (snd (read_done demo_net 0 (replicate 12 0) demo_ready)) 0)"
proof -
  have "\<not> reconnects (sessions demo_ready 0)" by (simp add: demo_ready_def reconnects_def)
  moreover have "\<not> (12 \<le> sint (be32 (take 4 (drop 4 (replicate 12 0)))))" by code_simp
  ultimately show ?thesis
    using bad_head_closes_session [OF demo_ready_ready _ _ _ prod.collapse [symmetric], of "replicate 12 0" demo_net]
    by simp
qed

text \<open>\<^verbatim>\<open>handle_connect\<close> reports success although \<^verbatim>\<open>start\<close> closed the session: for a new
  outgoing session whose server already has \<^verbatim>\<open>connect_count\<close> matching keys it returns 0, the
  socket is shut down and no read is pending, and \<^verbatim>\<open>registe\<close> still posts the registration
  request to it.\<close>

lemma full_map_reported_connected:
  assumes "s_kind (sessions w i) = Client_Session" "\<not> fix_connect (sessions w i)"
    and "remote_endpoint (sessions w i) = Some (addr, port)"
    and "connect_count (config w) \<le> find_matched (''server:'' @ addr @ '':'' @ show_nat port) (cm_map (cpeers w))"
  shows "case handle_connect False i w of (r, w') \<Rightarrow>
     r = Ret 0 \<and> sock_shutdown (sessions w' i) \<and> reading (sessions w' i) = reading (sessions w i) \<and>
     posted (registe x (i, 0) w') = posted w' @ [(i, make_frame \<lparr>magic = 0,
        len = of_nat (12 + length (reg_request x)), cmd = 300\<rparr> (reg_request x)
        (message_format_new (uninit_head x i)))]"
  using assms
  by (simp add: handle_connect_def session_start_def session_open_def client_open_def client_set_def act_defs
      close_plain_def Let_def registe_def post_write_def)

text \<open>C35: \<^verbatim>\<open>erase\<close> on closing goes by id alone: when a session closes a second time (a read and a
  write both failing) after its slot has been taken over by a new session, the new session,
  still open, is removed from the registry.\<close>

theorem late_close_unregisters_successor:
  assumes "s_kind (sessions w i) = Client_Session" "\<not> is_auto_reconnect (sessions w i)"
    and "j \<noteq> i" "fix_get (s_id (sessions w i)) (cpeers w) = Some j"
    and "session_close x i w = (r, w')"
  shows "fix_get (s_id (sessions w i)) (cpeers w') = None \<and> sessions w' j = sessions w j"
  using assms
  by (auto simp: session_close_def on_close_def reconnects_def on_close_erase_def Let_def act_defs
      fix_get_erase_in)

text \<open>A run in which this happens: session 0 connects to slot 0, fails writing and closes, session 1
  takes the slot, then the read of session 0 fails.\<close>

definition takeover :: world where
  "takeover =
     (let w0 = world_new (configwrap_new 4 0);
          w1 = snd (peer_handle_client_fix demo_net (''10.0.0.1'', 80) ''server:10.0.0.1:80'' ''server:10.0.0.1:80:0'' w0);
          w2 = snd (session_close demo_net 0 w1)
      in snd (peer_handle_client_fix demo_net (''10.0.0.1'', 80) ''server:10.0.0.1:80'' ''server:10.0.0.1:80:0'' w2))"

theorem late_close_unregisters_successor_witness:
  "fix_get ''server:10.0.0.1:80:0'' (cpeers takeover) = Some 1 \<and>
   fix_get ''server:10.0.0.1:80:0'' (cpeers (snd (read_failed demo_net 0 takeover))) = None \<and>
   \<not> sock_shutdown (sessions takeover 1)"
proof -
  let ?k = "''server:10.0.0.1:80:0''"
  define w where "w = upd_session 0 (\<lambda>s. s\<lparr>reading := []\<rparr>) takeover"
  have t: "s_id (sessions takeover 0) = ?k" "s_kind (sessions takeover 0) = Client_Session"
    "\<not> is_auto_reconnect (sessions takeover 0)" "reading (sessions takeover 0) = [Read_Head 12]"
    "fix_get ?k (cpeers takeover) = Some 1" "\<not> sock_shutdown (sessions takeover 1)"
    by code_simp+
  have "read_failed demo_net 0 takeover = session_close demo_net 0 w"
    by (simp add: read_failed_def t(4) handle_read_header_def w_def)
  moreover have "fix_get (s_id (sessions w 0)) (cpeers (snd (session_close demo_net 0 w))) = None"
    using late_close_unregisters_successor [of w 0 1 demo_net, OF _ _ _ _ prod.collapse [symmetric]] t
    by (simp add: w_def)
  ultimately show ?thesis using t by (simp add: w_def)
qed

text \<open>An accepted connection that is gone before \<^verbatim>\<open>start\<close> runs makes \<^verbatim>\<open>remote_endpoint()\<close>
  throw out of \<^verbatim>\<open>handle_accept\<close>: the exception is not caught there and no further accept is
  started, while a failed accept does start the next one.\<close>

lemma accept_of_dead_connection_throws:
  assumes "start_accept x w = (i, w1)"
  shows "handle_accept x False i w1 = (Throws, w1) \<and>
     fst (handle_accept x True i w1) = Ret (Suc i) \<and>
     next_session (snd (handle_accept x True i w1)) = Suc (next_session w1)"
  using assms
  by (auto simp: start_accept_def handle_accept_def session_start_def session_open_def server_open_def
      act_defs Let_def)

text \<open>C27: The life of an accepted session: \<^verbatim>\<open>start\<close> registers it under \<^verbatim>\<open>client:address:port\<close>, marks
  its messages with that id and waits for a head; when that read fails the id is unregistered.\<close>

theorem accepted_session_life:
  assumes "s_kind (sessions w i) = Server_Session" "remote_endpoint (sessions w i) = Some (addr, port)"
    and "reading (sessions w i) = []" "session_start i w = (r, w1)"
  shows "r = Ret () \<and>
     peer_get (''client:'' @ addr @ '':'' @ show_nat port) (peers w1) = Some i \<and>
     mf_remote_id (read_msg (sessions w1 i)) = ''client:'' @ addr @ '':'' @ show_nat port \<and>
     reading (sessions w1 i) = [Read_Head 12] \<and>
     peer_get (''client:'' @ addr @ '':'' @ show_nat port) (peers (snd (read_failed x i w1))) = None"
proof -
  let ?key = "''client:'' @ addr @ '':'' @ show_nat port"
  from assms have w1: "r = Ret ()" "s_id (sessions w1 i) = ?key" "s_kind (sessions w1 i) = Server_Session"
    "peer_get ?key (peers w1) = Some i" "mf_remote_id (read_msg (sessions w1 i)) = ?key"
    "reading (sessions w1 i) = [Read_Head 12]"
    by (auto simp: session_start_def session_open_def server_open_def act_defs Let_def peer_get_set
        message_head_length_def)
  have "read_failed x i w1 = session_close x i (upd_session i (\<lambda>s. s\<lparr>reading := []\<rparr>) w1)"
    by (simp add: read_failed_def w1 handle_read_header_def)
  then have "peer_get ?key (peers (snd (read_failed x i w1))) = None"
    by (simp add: session_close_def on_close_def reconnects_def on_close_erase_def Let_def act_defs w1
        peer_get_erase)
  with w1 show ?thesis by simp
qed

theorem accepted_session_life_witness:
  "peer_get ''client:1.2.3.4:5'' (peers (snd (session_start 0 (upd_session 0
     (\<lambda>s. s\<lparr>remote_endpoint := Some (''1.2.3.4'', 5)\<rparr>) (world_new (configwrap_new 4 0)))))) = Some 0"
proof -
  have "show_nat 5 = ''5''" by code_simp
  then show ?thesis
    using accepted_session_life [of "upd_session 0 (\<lambda>s. s\<lparr>remote_endpoint := Some (''1.2.3.4'', 5)\<rparr>) (world_new (configwrap_new 4 0))"
        0 "''1.2.3.4''" 5, OF _ _ _ prod.collapse [symmetric], of demo_net]
    by simp
qed

end
