(* ===== verification/Responders.thy ===== *)
theory Responders
  imports Sessions PacketCodec JsonData HttpClient
begin

text \<open>
  What a worker does with a task: \<^verbatim>\<open>logic_deal_processing::do_work\<close> (src/logic_deal_processing.cpp)
  and the responsers it picks by the frame's cmd (src/task_responser.cpp,
  httpclient/server_service_responser.cpp, httpclient/service_package_responser.cpp,
  httpclient/service_package_busy_responser.cpp,
  httpclient/server_service_response_responser.cpp, include/group_service_request_responser.h,
  src/group_responser.cpp, embeded_python/python_func_service_responser.cpp), with the queries of
  include/session_task.h. What libcurl, mongo, the session cache, Python, the clock, the random
  generator and the uuid library answer during the task is an argument.
\<close>

subsection \<open>Arguments and results\<close>

record mongo_client =
  m_find_near :: "int64 \<Rightarrow> int64 \<Rightarrow> int32 \<Rightarrow> int32 \<Rightarrow> int32 \<Rightarrow> string \<times> string"
  m_find_by_condition :: "string \<Rightarrow> int32 \<Rightarrow> int32 \<Rightarrow> string \<times> string"

datatype py_result = Py_Returns string | Py_Exception string | Py_Other_Exception | Py_Crash

record 'j task_ext =
  pb :: pb_rt
  json :: "'j json_api"
  curl :: curl_lib
  now_millis :: int64
  mongo :: "mongo_client option"
  sess_cache :: "(string \<Rightarrow> (string, string) std_map) option"
  python_call :: "string \<Rightarrow> string \<Rightarrow> string \<Rightarrow> string \<Rightarrow> py_result"
  new_uuid :: string
  rand_at :: "nat \<Rightarrow> nat"
  task_uninit :: "nat \<Rightarrow> head"

text \<open>\<^verbatim>\<open>ServicePacket::ParseFromString\<close> and \<^verbatim>\<open>SerializeToString\<close>.\<close>

definition parse_packet :: "'j task_ext \<Rightarrow> bytes \<Rightarrow> bool \<times> service_packet" where
  "parse_packet X = packet_of_bytes (pb X)"

definition packet_bytes :: "'j task_ext \<Rightarrow> service_packet \<Rightarrow> bytes" where
  "packet_bytes X = bytes_of_packet (pb X)"

record service_response_result =
  res_status :: int
  res_async :: bool

definition result_new :: service_response_result where
  "result_new = \<lparr>res_status = 0, res_async = False\<rparr>"

text \<open>A parser returns a result and the response text, throws, or has undefined behaviour.\<close>

datatype 'a call = Done 'a | Raised | Undefined

type_synonym parsed = "(service_response_result \<times> bytes) call"

subsection \<open>Queries of \<^verbatim>\<open>session_task\<close>\<close>

definition no_mongo :: string where
  "no_mongo = ''{\"error\":\"connetion error\"}''"

text \<open>The answer and the error text, which stays empty when there is no connection.\<close>

definition find_near :: "'j task_ext \<Rightarrow> int64 \<Rightarrow> int64 \<Rightarrow> int32 \<Rightarrow> int32 \<Rightarrow> int32 \<Rightarrow> string \<times> string" where
  "find_near X lat long max_distance start limit =
     (case mongo X of None \<Rightarrow> (no_mongo, []) | Some m \<Rightarrow> m_find_near m lat long max_distance start limit)"

definition find_by_city :: "'j task_ext \<Rightarrow> string \<Rightarrow> int32 \<Rightarrow> int32 \<Rightarrow> string \<times> string" where
  "find_by_city X match start limit =
     (case mongo X of None \<Rightarrow> (no_mongo, [])
      | Some m \<Rightarrow> m_find_by_condition m (''{\"city\":\"'' @ match @ ''\"}'') start limit)"

subsection \<open>\<^verbatim>\<open>service_package_responser\<close>\<close>

definition service_url :: "string \<Rightarrow> string \<Rightarrow> string \<Rightarrow> string \<Rightarrow> string \<Rightarrow> string \<Rightarrow> string \<Rightarrow> string" where
  "service_url domain obj path sign v platform device_id =
     domain @ ''/'' @ obj @ path @ ''sign='' @ sign @ ''&v='' @ v @ ''&platform='' @ platform @ ''&device_id='' @ device_id"

definition do_reply_request :: "'j task_ext \<Rightarrow> configwrap \<Rightarrow> service_packet \<Rightarrow> service_packet \<Rightarrow> service_packet" where
  "do_reply_request X c packet_response packet =
     (let rr = get_reply packet;
          str_url = service_url (reply_domain c) (rr_topic_id rr) ''/reviews?'' (rr_sign rr) (rr_v rr)
            (rr_platform rr) (rr_device_id rr)
      in packet_response\<lparr>p_type := Some 22,
           reply_resp := Some \<lparr>rs_cid = Some (rr_cid rr), rs_type = Some (rr_type rr),
             rs_data = Some (http_exchange (curl X) str_url (rr_authorization rr) (rr_data rr))\<rparr>\<rparr>)"

definition do_post_topic_request :: "'j task_ext \<Rightarrow> configwrap \<Rightarrow> service_packet \<Rightarrow> service_packet \<Rightarrow> service_packet" where
  "do_post_topic_request X c packet_response packet =
     (let ptr = get_post packet;
          str_url = service_url (post_topic_domain c) (tq_forum_id ptr) ''/topics?'' (tq_sign ptr) (tq_v ptr)
            (tq_platform ptr) (tq_device_id ptr)
      in packet_response\<lparr>p_type := Some 24,
           post_resp := Some \<lparr>ts_cid = Some (tq_cid ptr), ts_type = Some (tq_type ptr),
             ts_data = Some (http_exchange (curl X) str_url (tq_authorization ptr) (tq_data ptr))\<rparr>\<rparr>)"

definition do_public_service_request :: "'j task_ext \<Rightarrow> configwrap \<Rightarrow> service_packet \<Rightarrow> service_packet \<Rightarrow> service_packet" where
  "do_public_service_request X c packet_response packet =
     (let psr = get_public packet;
          request_data = to_service_request (json X) (uq_cid psr) (uq_service_id psr) (uq_data psr)
      in packet_response\<lparr>p_type := Some 26,
           public_resp := Some \<lparr>us_cid = Some (uq_cid psr), us_service_id = Some (uq_service_id psr),
             us_data = Some (http_exchange (curl X) (robot_domain c) [] request_data),
             us_time = Some (now_millis X)\<rparr>\<rparr>)"

definition parser_group_near_request :: "'j task_ext \<Rightarrow> service_packet \<Rightarrow> service_packet \<Rightarrow> bool \<times> service_packet" where
  "parser_group_near_request X packet_response packet =
     (let r = get_near packet;
          (js, error) = find_near X (nq_lat r) (nq_long r) (nq_max_distance r) (nq_start r) (nq_limit r)
      in if error \<noteq> []
         then (False, packet_response\<lparr>p_type := Some 28,
                near_resp := Some \<lparr>ns_cid = Some (nq_cid r), ns_status = Some (-1), ns_data = Some error\<rparr>\<rparr>)
         else (True, packet_response\<lparr>p_type := Some 28,
                near_resp := Some \<lparr>ns_cid = Some (nq_cid r), ns_status = Some 0, ns_data = Some js\<rparr>\<rparr>))"

definition parser_group_city_request :: "'j task_ext \<Rightarrow> service_packet \<Rightarrow> service_packet \<Rightarrow> bool \<times> service_packet" where
  "parser_group_city_request X packet_response packet =
     (let r = get_city packet;
          (js, error) = find_by_city X (yq_city r) (yq_start r) (yq_limit r)
      in if error \<noteq> []
         then (False, packet_response\<lparr>p_type := Some 30,
                city_resp := Some \<lparr>ys_cid = Some (yq_cid r), ys_status = Some (-1), ys_data = Some error\<rparr>\<rparr>)
         else (True, packet_response\<lparr>p_type := Some 30,
                city_resp := Some \<lparr>ys_cid = Some (yq_cid r), ys_status = Some 0, ys_data = Some js\<rparr>\<rparr>))"

definition service_package_parser :: "'j task_ext \<Rightarrow> configwrap \<Rightarrow> bytes \<Rightarrow> parsed" where
  "service_package_parser X c data =
     (case parse_packet X data of (ok, packet) \<Rightarrow>
        if \<not> ok then Done (result_new, [])
        else
          let t = packet_type_of packet;
              pr = (if t = 21 then do_reply_request X c packet_new packet
                    else if t = 23 then do_post_topic_request X c packet_new packet
                    else if t = 25 then do_public_service_request X c packet_new packet
                    else packet_new);
              (st, pr) = (if t = 27 then parser_group_near_request X pr packet
                          else if t = 29 then parser_group_city_request X pr packet
                          else (True, pr));
              res = (if \<not> st then result_new\<lparr>res_status := -1\<rparr> else result_new)
          in Done (res, packet_bytes X pr))"

subsection \<open>\<^verbatim>\<open>group_responser\<close>\<close>

definition group_near_request_parser :: "'j task_ext \<Rightarrow> service_packet \<Rightarrow> service_packet \<Rightarrow> bool \<times> service_packet" where
  "group_near_request_parser X packet_response packet =
     (let r = get_near packet;
          (js, error) = find_near X (nq_lat r) (nq_long r) (nq_max_distance r) (nq_start r) (nq_limit r);
          ok = (error = [])
      in (ok, packet_response\<lparr>p_type := Some 28,
           near_resp := Some \<lparr>ns_cid = Some (nq_cid r), ns_status = Some (if ok then 0 else -1),
             ns_data = Some (if ok then js else error)\<rparr>\<rparr>))"

definition group_city_request_parser :: "'j task_ext \<Rightarrow> service_packet \<Rightarrow> service_packet \<Rightarrow> bool \<times> service_packet" where
  "group_city_request_parser X packet_response packet =
     (let r = get_city packet;
          (js, error) = find_by_city X (yq_city r) (yq_start r) (yq_limit r);
          ok = (error = [])
      in (ok, packet_response\<lparr>p_type := Some 30,
           city_resp := Some \<lparr>ys_cid = Some (yq_cid r), ys_status = Some (if ok then 0 else -1),
             ys_data = Some (if ok then js else error)\<rparr>\<rparr>))"

definition group_parser :: "'j task_ext \<Rightarrow> bytes \<Rightarrow> parsed" where
  "group_parser X data =
     (case parse_packet X data of (ok, packet) \<Rightarrow>
        if \<not> ok then Done (result_new\<lparr>res_status := -1\<rparr>, [])
        else
          let t = packet_type_of packet
          in if t \<noteq> 27 \<or> t \<noteq> 29 then Done (result_new\<lparr>res_status := -1\<rparr>, [])
             else
               let (st, pr) = (if t = 27 then group_near_request_parser X packet_new packet
                               else if t = 29 then group_city_request_parser X packet_new packet
                               else (True, packet_new));
                   res = (if \<not> st then result_new\<lparr>res_status := -1\<rparr> else result_new)
               in Done (res, packet_bytes X pr))"

subsection \<open>\<^verbatim>\<open>python_func_service_responser\<close>\<close>

definition python_error_json :: "string \<Rightarrow> string" where
  "python_error_json error = ''{\"error\":\"service exception!\", \"code\":\"'' @ error @ ''\"}''"

definition python_parser :: "'j task_ext \<Rightarrow> configwrap \<Rightarrow> bytes \<Rightarrow> parsed" where
  "python_parser X c data =
     (case parse_packet X data of (ok, packet) \<Rightarrow>
        if \<not> ok then Done (result_new, [])
        else if packet_type_of packet \<noteq> 31 then Done (result_new, [])
        else
          let r = get_python packet;
              answer = (\<lambda>st js. Done (result_new, packet_bytes X (packet_new\<lparr>p_type := Some 32,
                python_resp := Some \<lparr>hs_cid = Some (hq_cid r), hs_json_response = Some js, hs_status = Some st\<rparr>\<rparr>)))
          in case python_call X (python_root c) (hq_module_name r) (hq_function_name r) (hq_json_request r) of
               Py_Returns js \<Rightarrow> answer 1 js
             | Py_Exception e \<Rightarrow>
                 (case Option.bind (replace_all e [CHR 0x0D] []) (\<lambda>e. replace_all e [CHR 0x0A] []) of
                    Some e' \<Rightarrow> answer 0 (python_error_json e')
                  | None \<Rightarrow> Undefined)
             | Py_Other_Exception \<Rightarrow> Raised
             | Py_Crash \<Rightarrow> Undefined)"

subsection \<open>\<^verbatim>\<open>service_package_busy_responser\<close>\<close>

definition busy_json :: string where
  "busy_json = ''{\"error\":\"system service in busy\", \"code\":1010}''"

definition busy_parser :: "'j task_ext \<Rightarrow> bytes \<Rightarrow> parsed" where
  "busy_parser X data =
     (case parse_packet X data of (ok, packet) \<Rightarrow>
        if \<not> ok then Done (result_new, [])
        else
          let t = packet_type_of packet;
              pr = (if t = 21 then packet_new\<lparr>p_type := Some 22,
                      reply_resp := Some \<lparr>rs_cid = Some (rr_cid (get_reply packet)),
                        rs_type = Some (rr_type (get_reply packet)), rs_data = None\<rparr>\<rparr>
                    else if t = 23 then packet_new\<lparr>p_type := Some 24,
                      post_resp := Some \<lparr>ts_cid = Some (tq_cid (get_post packet)),
                        ts_type = Some (tq_type (get_post packet)), ts_data = None\<rparr>\<rparr>
                    else packet_new);
              pr = (if packet_type_of pr = 22
                    then pr\<lparr>reply_resp := map_option (\<lambda>r. r\<lparr>rs_data := Some busy_json\<rparr>) (reply_resp pr)\<rparr>
                    else if packet_type_of pr = 24
                    then pr\<lparr>post_resp := map_option (\<lambda>r. r\<lparr>ts_data := Some busy_json\<rparr>) (post_resp pr)\<rparr>
                    else pr)
          in Done (result_new, packet_bytes X pr))"

subsection \<open>\<^verbatim>\<open>task_responser\<close>, \<^verbatim>\<open>server_service_responser\<close>, \<^verbatim>\<open>group_service_request_responser\<close>\<close>

definition opt_bytes :: "bytes option \<Rightarrow> bytes" where
  "opt_bytes o' = (case o' of None \<Rightarrow> [] | Some b \<Rightarrow> b)"

definition opt_int32 :: "int32 option \<Rightarrow> int32" where
  "opt_int32 o' = (case o' of None \<Rightarrow> 0 | Some i \<Rightarrow> i)"

text \<open>The default parser of \<^verbatim>\<open>task_responser\<close>; no responser that is dispatched uses it.\<close>

definition base_parser :: "'j task_ext \<Rightarrow> bytes \<Rightarrow> parsed" where
  "base_parser X data =
     (let sr = snd (parse_from (pb X) service_request_desc data);
          srp = service_response_new\<lparr>sp_sessid := Some (opt_bytes (sq_sessid sr)),
            sp_service_type := Some (opt_int32 (sq_service_type sr)), sp_sn := Some (opt_bytes (sq_sn sr)),
            sp_payload := Some (opt_bytes (sq_payload sr))\<rparr>
      in Done (result_new, serialize (pb X) service_response_desc srp))"

text \<open>The parser of \<^verbatim>\<open>server_service_responser\<close> and that of the template
  \<^verbatim>\<open>group_service_request_responser\<close>, over the parser of the inner task.\<close>

definition relay_parser :: "'j task_ext \<Rightarrow> (bytes \<Rightarrow> parsed) \<Rightarrow> bytes \<Rightarrow> parsed" where
  "relay_parser X task data =
     (case parse_from (pb X) service_request_desc data of (ok, sr) \<Rightarrow>
        if \<not> ok then Done (result_new, [])
        else if opt_int32 (sq_service_type sr) \<noteq> 600 then Done (result_new, [])
        else case sq_payload sr of
            None \<Rightarrow> Done (result_new, [])
          | Some payload \<Rightarrow>
              (case task payload of
                 Done (res, package_response) \<Rightarrow>
                   if res_status res = 0 \<and> \<not> res_async res
                   then let serr = service_response_new\<lparr>sp_sn := Some (opt_bytes (sq_sn sr)),
                              sp_sessid := Some (opt_bytes (sq_sessid sr)),
                              sp_service_type := Some (opt_int32 (sq_service_type sr)),
                              sp_status := Some (if res_status res = 0 then 0 else -1),
                              sp_payload := Some package_response\<rparr>
                        in Done (res, serialize (pb X) service_response_desc serr)
                   else Done (res, [])
               | Raised \<Rightarrow> Raised
               | Undefined \<Rightarrow> Undefined))"

definition group_service_parser :: "'j task_ext \<Rightarrow> (bytes \<Rightarrow> parsed) \<Rightarrow> bytes \<Rightarrow> parsed" where
  "group_service_parser X task data =
     (let (ok, sr) = parse_from (pb X) service_request_desc data
      in if ok \<and> opt_int32 (sq_service_type sr) = 600 \<and> sq_payload sr \<noteq> None
         then (case task (opt_bytes (sq_payload sr)) of
             Done (res, package_response) \<Rightarrow>
               Done (res, if res_status res = 0 \<and> \<not> res_async res
                 then serialize (pb X) service_response_desc (service_response_new\<lparr>
                        sp_sn := Some (opt_bytes (sq_sn sr)), sp_sessid := Some (opt_bytes (sq_sessid sr)),
                        sp_service_type := Some (opt_int32 (sq_service_type sr)),
                        sp_status := Some (if res_status res = 0 then 0 else -1),
                        sp_payload := Some package_response\<rparr>)
                 else [])
           | Raised \<Rightarrow> Raised
           | Undefined \<Rightarrow> Undefined)
         else Done (result_new, []))"

text \<open>The two copies of the code agree.\<close>

lemma group_service_parser_eq [simp]: "group_service_parser X task = relay_parser X task"
  by (auto simp: fun_eq_iff group_service_parser_def relay_parser_def opt_bytes_def Let_def
      split: prod.split option.split call.split)

definition count_send :: "world \<Rightarrow> world" where
  "count_send w = w\<lparr>config := snd (sendcount (config w))\<rparr>"

definition dispatch_to_server :: "nat \<Rightarrow> string \<Rightarrow> message_format \<Rightarrow> world \<Rightarrow> world" where
  "dispatch_to_server r srv mf w =
     (if srv = [] then w
      else case client_get r srv (cpeers w) of (sb, c) \<Rightarrow>
        let w1 = w\<lparr>cpeers := c\<rparr>
        in (case sb of None \<Rightarrow> w1 | Some i \<Rightarrow> count_send (world_write i mf w1)))"

definition fix_dispatch_to_server :: "string \<Rightarrow> message_format \<Rightarrow> world \<Rightarrow> world" where
  "fix_dispatch_to_server srv mf w =
     (if srv = [] then w
      else case fix_get srv (cpeers w) of None \<Rightarrow> w | Some i \<Rightarrow> count_send (world_write i mf w))"

definition dispatch_to_client :: "string \<Rightarrow> message_format \<Rightarrow> world \<Rightarrow> world" where
  "dispatch_to_client srv mf w =
     (if srv = [] then w
      else case peer_get srv (peers w) of None \<Rightarrow> w | Some i \<Rightarrow> count_send (world_write i mf w))"

text \<open>The frame of an answer: the request's header with the next cmd.\<close>

definition answer_frame :: "'j task_ext \<Rightarrow> head \<Rightarrow> bytes \<Rightarrow> message_format" where
  "answer_frame X h data = make_frame (h\<lparr>cmd := cmd h + 1\<rparr>) data (message_format_new (task_uninit X 0))"

definition relay_response :: "'j task_ext \<Rightarrow> string \<Rightarrow> head \<Rightarrow> bytes \<Rightarrow> world \<Rightarrow> world" where
  "relay_response X cid h data w = fix_dispatch_to_server cid (answer_frame X h data) w"

definition base_response :: "'j task_ext \<Rightarrow> string \<Rightarrow> head \<Rightarrow> bytes \<Rightarrow> world \<Rightarrow> world" where
  "base_response X cid h data w = dispatch_to_client cid (answer_frame X h data) w"

definition no_response :: "'j task_ext \<Rightarrow> string \<Rightarrow> head \<Rightarrow> bytes \<Rightarrow> world \<Rightarrow> world" where
  "no_response X cid h data w = w"

subsection \<open>\<^verbatim>\<open>server_service_response_responser\<close>\<close>

definition push_frame :: "'j task_ext \<Rightarrow> nat \<Rightarrow> service_response \<Rightarrow> string \<Rightarrow> message_format" where
  "push_frame X k srp sessid =
     (let out = serialize (pb X) service_response_desc (srp\<lparr>sp_sessid := Some (bytes_of sessid)\<rparr>);
          hh = \<lparr>magic = 0, len = of_nat (12 + length out), cmd = 6667\<rparr>
      in make_frame hh out (message_format_new (task_uninit X k)))"

fun push_sessions :: "'j task_ext \<Rightarrow> service_response \<Rightarrow> nat \<Rightarrow> (string, string) std_map \<Rightarrow> world \<Rightarrow> world" where
  "push_sessions X srp k [] w = w"
| "push_sessions X srp k ((sessid, addr) # sesss) w =
     push_sessions X srp (Suc k) sesss
       (dispatch_to_server (rand_at X k) (''server:'' @ addr) (push_frame X k srp sessid) w)"

definition push_message :: "'j task_ext \<Rightarrow> string \<Rightarrow> string \<Rightarrow> string \<Rightarrow> service_response" where
  "push_message X cid service_id response_data =
     service_response_new\<lparr>sp_sn := Some (bytes_of (new_uuid X)), sp_service_type := Some 600,
       sp_payload := Some (packet_bytes X (packet_new\<lparr>p_type := Some 26,
         public_resp := Some \<lparr>us_cid = Some cid, us_service_id = Some service_id,
           us_data = Some response_data, us_time = None\<rparr>\<rparr>))\<rparr>"

definition push_parser :: "'j task_ext \<Rightarrow> bytes \<Rightarrow> world \<Rightarrow> parsed \<times> world" where
  "push_parser X data w =
     (let res = result_new\<lparr>res_async := True\<rparr>
      in case act_bind (json_cid (json X)) (\<lambda>cid. act_bind (json_service_id (json X)) (\<lambda>sid.
           act_bind (json_data (json X)) (\<lambda>d. act_ret (cid, sid, d)))) (json_data_new (json X) (str_of data)) of
        (Throws, _) \<Rightarrow> (Raised, w)
      | (Ret (cid, service_id, response_data), _) \<Rightarrow>
          if cid = [] \<or> service_id = [] \<or> response_data = [] then (Done (res, []), w)
          else case sess_cache X of
              None \<Rightarrow> (Undefined, w)
            | Some get_session \<Rightarrow>
                (Done (res, []), push_sessions X (push_message X cid service_id response_data) 0 (get_session cid) w))"

subsection \<open>\<^verbatim>\<open>do_work\<close>\<close>

datatype responser = R_Service | R_Service_Response | R_Group | R_Python | R_Busy

definition responser_for :: "int32 \<Rightarrow> responser option" where
  "responser_for c =
     (if c = 200 then Some R_Service
      else if c = 6666 then Some R_Service_Response
      else if c = 7818 then Some R_Group
      else if c = 8000 then Some R_Python
      else if c = 1010 then Some R_Busy
      else None)"

definition run_parser :: "'j task_ext \<Rightarrow> responser \<Rightarrow> bytes \<Rightarrow> world \<Rightarrow> parsed \<times> world" where
  "run_parser X r data w =
     (case r of
        R_Service \<Rightarrow> (relay_parser X (service_package_parser X (config w)) data, w)
      | R_Service_Response \<Rightarrow> push_parser X data w
      | R_Group \<Rightarrow> (group_service_parser X (group_parser X) data, w)
      | R_Python \<Rightarrow> (group_service_parser X (python_parser X (config w)) data, w)
      | R_Busy \<Rightarrow> (busy_parser X data, w))"

definition run_response :: "'j task_ext \<Rightarrow> responser \<Rightarrow> string \<Rightarrow> head \<Rightarrow> bytes \<Rightarrow> world \<Rightarrow> world" where
  "run_response X r =
     (case r of
        R_Service \<Rightarrow> relay_response X
      | R_Service_Response \<Rightarrow> no_response X
      | R_Group \<Rightarrow> relay_response X
      | R_Python \<Rightarrow> relay_response X
      | R_Busy \<Rightarrow> no_response X)"

text \<open>\<open>None\<close> is undefined behaviour; an exception is caught and logged.\<close>

definition do_work :: "'j task_ext \<Rightarrow> string \<Rightarrow> head \<Rightarrow> bytes \<Rightarrow> world \<Rightarrow> world option" where
  "do_work X cid h data w =
     (case responser_for (cmd h) of
        None \<Rightarrow> Some w
      | Some r \<Rightarrow>
          (case run_parser X r data w of
             (Done (result, r_data), w1) \<Rightarrow>
               Some (if res_async result then w1 else run_response X r cid h r_data w1)
           | (Raised, w1) \<Rightarrow> Some w1
           | (Undefined, w1) \<Rightarrow> None))"

subsection \<open>What the parts do\<close>

lemmas answer_defs = relay_response_def answer_frame_def fix_dispatch_to_server_def

lemma replace_all_char: "replace_all e [c] dst = Some (subst_char c dst e)"
  using replace_loop_char [of c dst "[]" e] by (simp add: replace_all_def)

text \<open>No call into Python is undefined.\<close>

definition python_safe :: "'j task_ext \<Rightarrow> bool" where
  "python_safe X \<longleftrightarrow> (\<forall>path md fn arg. python_call X path md fn arg \<noteq> Py_Crash)"

lemma python_parser_returns: "python_parser X c data = Undefined \<Longrightarrow> \<not> python_safe X"
  by (auto simp: python_parser_def python_safe_def Let_def replace_all_char split: prod.splits py_result.splits if_splits)

lemma relay_parser_undefined: "relay_parser X task data = Undefined \<Longrightarrow> \<exists>d. task d = Undefined"
  by (auto simp: relay_parser_def Let_def split: prod.splits if_splits option.splits call.splits)

lemma service_package_parser_done: "\<exists>res out. service_package_parser X c data = Done (res, out)"
  by (simp add: service_package_parser_def Let_def split: prod.split)

lemma group_parser_rejects: "\<exists>res. group_parser X data = Done (res, []) \<and> res_status res = -1 \<and> \<not> res_async res"
  by (simp add: group_parser_def result_new_def Let_def split: prod.split)

lemma busy_parser_done: "\<exists>out. busy_parser X data = Done (result_new, out)"
  by (simp add: busy_parser_def Let_def split: prod.split)

lemma group_relay_parser: "\<exists>res. relay_parser X (group_parser X) data = Done (res, []) \<and> \<not> res_async res"
proof -
  obtain ok sr where p: "parse_from (pb X) service_request_desc data = (ok, sr)"
    by (cases "parse_from (pb X) service_request_desc data")
  show ?thesis
  proof (cases "sq_payload sr")
    case None
    with p show ?thesis by (simp add: relay_parser_def result_new_def)
  next
    case (Some pl)
    with p group_parser_rejects [of X pl] show ?thesis by (auto simp: relay_parser_def result_new_def)
  qed
qed

lemma request_parses:
  assumes "pb_ok (pb X)"
    and q: "q = \<lparr>sq_sessid = Some s, sq_service_type = Some 600, sq_sn = Some n, sq_payload = Some pl, sq_unknown = []\<rparr>"
    and "msg_fits service_request_desc q"
  shows "parse_from (pb X) service_request_desc (serialize (pb X) service_request_desc q) = (True, q)"
proof -
  have "is_initialized service_request_desc q"
    by (simp add: q is_initialized_def service_request_desc_def)
  moreover have "unknown_of service_request_desc q = []" by (simp add: q service_request_desc_def)
  ultimately show ?thesis using sq.codec.parse_serialize [OF assms(1,3)] by simp
qed

lemma relay_parser_request:
  assumes "pb_ok (pb X)"
    and q: "q = \<lparr>sq_sessid = Some s, sq_service_type = Some 600, sq_sn = Some n, sq_payload = Some pl, sq_unknown = []\<rparr>"
    and "msg_fits service_request_desc q" "task pl = Done (res, out)" "\<not> res_async res"
  shows "relay_parser X task (serialize (pb X) service_request_desc q) = Done (res,
     if res_status res = 0 then serialize (pb X) service_response_desc
       \<lparr>sp_sessid = Some s, sp_service_type = Some 600, sp_sn = Some n, sp_status = Some 0, sp_payload = Some out,
        sp_unknown = []\<rparr> else [])"
  using request_parses [OF assms(1-3)] assms(4,5)
  by (simp add: relay_parser_def q opt_int32_def opt_bytes_def service_response_new_def Let_def)

lemma do_work_python_crash:
  assumes "pb_ok (pb X)"
    and q: "q = \<lparr>sq_sessid = Some s, sq_service_type = Some 600, sq_sn = Some n, sq_payload = Some pl, sq_unknown = []\<rparr>"
    and "msg_fits service_request_desc q" "cmd h = 8000" "parse_packet X pl = (True, p)" "packet_type_of p = 31"
    and "python_call X (python_root (config w)) (hq_module_name (get_python p)) (hq_function_name (get_python p))
      (hq_json_request (get_python p)) = Py_Crash"
  shows "do_work X cid h (serialize (pb X) service_request_desc q) w = None"
  using request_parses [OF assms(1-3)] assms(4-7)
  by (simp add: do_work_def responser_for_def run_parser_def relay_parser_def python_parser_def q opt_int32_def Let_def)

text \<open>The body of the answer to a service request, and that the other side parses it.\<close>

definition response_body :: "'j task_ext \<Rightarrow> bytes \<Rightarrow> bytes \<Rightarrow> service_response_result \<Rightarrow> bytes \<Rightarrow> bytes" where
  "response_body X s n res out =
     (if res_status res = 0 then serialize (pb X) service_response_desc
        \<lparr>sp_sessid = Some s, sp_service_type = Some 600, sp_sn = Some n, sp_status = Some 0, sp_payload = Some out,
         sp_unknown = []\<rparr> else [])"

lemma response_body_parses:
  assumes "pb_ok (pb X)" "length s < 2 ^ 31" "length n < 2 ^ 31" "length out < 2 ^ 31" "res_status res = 0"
  shows "parse_from (pb X) service_response_desc (response_body X s n res out) =
     (True, \<lparr>sp_sessid = Some s, sp_service_type = Some 600, sp_sn = Some n, sp_status = Some 0,
        sp_payload = Some out, sp_unknown = []\<rparr>)"
proof -
  let ?p = "\<lparr>sp_sessid = Some s, sp_service_type = Some 600, sp_sn = Some n, sp_status = Some 0,
    sp_payload = Some out, sp_unknown = []\<rparr>"
  have "msg_fits service_response_desc ?p"
    using assms(2-4) by (auto simp: msg_fits_def service_response_desc_def)
  then show ?thesis
    using sp.codec.parse_serialize [OF assms(1), of ?p] assms(5)
    by (simp add: response_body_def is_initialized_def service_response_desc_def)
qed

lemma inner_not_async:
  "service_package_parser X c d = Done (res, out) \<Longrightarrow> \<not> res_async res"
  "python_parser X c d = Done (res, out) \<Longrightarrow> \<not> res_async res"
  by (auto simp: service_package_parser_def python_parser_def result_new_def Let_def
      split: prod.splits if_splits py_result.splits option.splits)

lemma relay_parser_inner:
  assumes "pb_ok (pb X)"
    and q: "q = \<lparr>sq_sessid = Some s, sq_service_type = Some 600, sq_sn = Some n, sq_payload = Some pl, sq_unknown = []\<rparr>"
    and "msg_fits service_request_desc q" "\<And>res out. task pl = Done (res, out) \<Longrightarrow> \<not> res_async res"
  shows "relay_parser X task (serialize (pb X) service_request_desc q) =
     (case task pl of Done (res, out) \<Rightarrow> Done (res, response_body X s n res out) | Raised \<Rightarrow> Raised | Undefined \<Rightarrow> Undefined)"
proof (cases "task pl")
  case (Done r)
  obtain res out where "r = (res, out)" by (cases r)
  with Done relay_parser_request [OF assms(1) q assms(3), of task res out] assms(4) show ?thesis
    by (simp add: response_body_def)
qed (use request_parses [OF assms(1-3)] in \<open>simp_all add: relay_parser_def q opt_int32_def\<close>)

text \<open>What a worker does with a request of one of the two inner responsers.\<close>

lemma do_work_relayed:
  assumes "pb_ok (pb X)"
    and q: "q = \<lparr>sq_sessid = Some s, sq_service_type = Some 600, sq_sn = Some n, sq_payload = Some pl, sq_unknown = []\<rparr>"
    and "msg_fits service_request_desc q" "cmd h = 200 \<or> cmd h = 8000"
  shows "do_work X cid h (serialize (pb X) service_request_desc q) w =
     (case if cmd h = 200 then service_package_parser X (config w) pl else python_parser X (config w) pl of
        Done (res, out) \<Rightarrow> Some (fix_dispatch_to_server cid (answer_frame X h (response_body X s n res out)) w)
      | Raised \<Rightarrow> Some w
      | Undefined \<Rightarrow> None)"
proof -
  let ?task = "if cmd h = 200 then service_package_parser X (config w) else python_parser X (config w)"
  have na: "\<not> res_async res" if "?task pl = Done (res, out)" for res out
    using that by (auto dest: inner_not_async split: if_splits)
  have "\<exists>r. responser_for (cmd h) = Some r \<and> run_response X r = relay_response X \<and>
      run_parser X r (serialize (pb X) service_request_desc q) w =
        (relay_parser X ?task (serialize (pb X) service_request_desc q), w)"
    using assms(4) by (auto simp: responser_for_def run_response_def run_parser_def)
  with relay_parser_inner [OF assms(1) q assms(3) na] na show ?thesis
    by (auto simp: do_work_def relay_response_def split: call.split prod.split)
qed

lemma do_work_request:
  assumes "pb_ok (pb X)"
    and q: "q = \<lparr>sq_sessid = Some s, sq_service_type = Some 600, sq_sn = Some n, sq_payload = Some pl, sq_unknown = []\<rparr>"
    and "msg_fits service_request_desc q"
    and task: "cmd h = 200 \<and> service_package_parser X (config w) pl = Done (res, out) \<or>
      cmd h = 8000 \<and> python_parser X (config w) pl = Done (res, out)"
    and "cid \<noteq> []" "fix_get cid (cpeers w) = Some i"
  shows "do_work X cid h (serialize (pb X) service_request_desc q) w =
     Some (count_send (world_write i (make_frame (h\<lparr>cmd := cmd h + 1\<rparr>) (response_body X s n res out)
       (message_format_new (task_uninit X 0))) w))"
  using do_work_relayed [OF assms(1) q assms(3), of h cid w] task assms(5,6) by (auto simp: answer_defs)

text \<open>What a write through a registry does to the rest of the state.\<close>

definition only_writes :: "world \<Rightarrow> world \<Rightarrow> bool" where
  "only_writes w w' \<longleftrightarrow> (world_ok w \<longrightarrow> world_ok w') \<and> peers w' = peers w \<and>
     (\<forall>k. fix_get k (cpeers w') = fix_get k (cpeers w)) \<and> tasks w' = tasks w \<and> posted w' = posted w \<and>
     next_session w' = next_session w \<and>
     (\<forall>i. reading (sessions w' i) = reading (sessions w i) \<and> s_id (sessions w' i) = s_id (sessions w i) \<and>
          s_kind (sessions w' i) = s_kind (sessions w i) \<and> read_msg (sessions w' i) = read_msg (sessions w i) \<and>
          (\<exists>ms. write_msgs (sessions w' i) = write_msgs (sessions w i) @ ms))"

lemma only_writes_refl [simp]: "only_writes w w"
  by (simp add: only_writes_def)

lemma only_writes_trans: "only_writes w w1 \<Longrightarrow> only_writes w1 w2 \<Longrightarrow> only_writes w w2"
  unfolding only_writes_def by (metis append.assoc)

lemma only_writes_write: "only_writes w (count_send (world_write i m w))"
  by (auto simp: only_writes_def count_send_def world_write_def world_ok_def)

lemma only_writes_fix: "only_writes w (fix_dispatch_to_server k m w)"
  by (simp add: fix_dispatch_to_server_def only_writes_write split: option.split)

lemma only_writes_server: "only_writes w (dispatch_to_server r k m w)"
proof -
  have "fix_get x (snd (client_get r k c)) = fix_get x c" for x c
    by (simp add: fix_get_def client_get_eq)
  then have "only_writes w (w\<lparr>cpeers := snd (client_get r k (cpeers w))\<rparr>)"
    by (simp add: only_writes_def world_ok_def)
  then show ?thesis
    by (auto simp: dispatch_to_server_def Let_def split: prod.split option.split
        intro: only_writes_trans [OF _ only_writes_write])
qed

lemma only_writes_push: "only_writes w (push_sessions X srp k ss w)"
proof (induction ss arbitrary: k w)
  case (Cons p ss)
  show ?case
    using only_writes_trans [OF only_writes_server Cons.IH] by (cases p) simp
qed simp

text \<open>What a push writes: looking up a link changes no later lookup.\<close>

lemma client_get_again: "fst (client_get r' k' (snd (client_get r k c))) = fst (client_get r' k' c)"
  by (simp add: client_get_eq)

lemma dispatch_to_server_writes:
  assumes "srv \<noteq> []"
  shows "write_msgs (sessions (dispatch_to_server r srv m w) j) = write_msgs (sessions w j) @
      (if fst (client_get r srv (cpeers w)) = Some j then [m] else [])"
    "fst (client_get r' k' (cpeers (dispatch_to_server r srv m w))) = fst (client_get r' k' (cpeers w))"
proof -
  obtain sb c where g: "client_get r srv (cpeers w) = (sb, c)" by (cases "client_get r srv (cpeers w)")
  then have c: "fst (client_get r' k' c) = fst (client_get r' k' (cpeers w))"
    using client_get_again [of r' k' r srv "cpeers w"] by (simp only: snd_conv)
  show "write_msgs (sessions (dispatch_to_server r srv m w) j) = write_msgs (sessions w j) @
      (if fst (client_get r srv (cpeers w)) = Some j then [m] else [])"
    using assms by (cases sb) (auto simp: g dispatch_to_server_def count_send_def world_write_def upd_session_def)
  show "fst (client_get r' k' (cpeers (dispatch_to_server r srv m w))) = fst (client_get r' k' (cpeers w))"
    using assms c by (cases sb) (simp_all add: g dispatch_to_server_def count_send_def world_write_def)
qed

lemma push_sessions_writes:
  "write_msgs (sessions (push_sessions X srp n ss w) j) = write_msgs (sessions w j) @
     map (\<lambda>k. push_frame X (n + k) srp (fst (ss ! k)))
       (filter (\<lambda>k. fst (client_get (rand_at X (n + k)) (''server:'' @ snd (ss ! k)) (cpeers w)) = Some j) [0..<length ss])"
proof (induction ss arbitrary: n w)
  case (Cons p ss)
  obtain sessid addr where p: "p = (sessid, addr)" by (cases p)
  have "[0..<length (p # ss)] = 0 # map Suc [0..<length ss]" by (simp add: upt_conv_Cons map_Suc_upt del: upt_Suc)
  then show ?case
    using Cons.IH [of "Suc n"] dispatch_to_server_writes [where srv = "''server:'' @ addr" and r = "rand_at X n" and m = "push_frame X n srp sessid" and w = w]
    by (simp add: p filter_map comp_def del: upt_Suc)
qed simp

text \<open>\<^verbatim>\<open>do_work\<close> ends normally for every cmd and every body, exceptions of JSON and Python
  included, with two exceptions: a push (cmd 6666) with all its members on a worker whose session
  cache could not be initialised dereferences a null pointer, and a call into Python (cmd 8000)
  can be undefined. It only appends to write queues.\<close>

lemma do_work_safety:
  "(do_work X cid h data w = None \<longrightarrow> cmd h = 6666 \<and> sess_cache X = None \<or> cmd h = 8000 \<and> \<not> python_safe X) \<and>
   (\<forall>w'. do_work X cid h data w = Some w' \<longrightarrow> only_writes w w')"
proof -
  have push: "only_writes w (snd (push_parser X data w))"
    "fst (push_parser X data w) = Undefined \<longrightarrow> sess_cache X = None" for data w
    by (auto simp: push_parser_def Let_def only_writes_push split: prod.split outcome.split option.split)
  have resp: "only_writes w (run_response X r cid h d w)" for r d w
    by (cases r) (simp_all add: run_response_def answer_defs only_writes_fix [unfolded fix_dispatch_to_server_def] no_response_def)
  have defined: "fst (run_parser X r data w) = Undefined \<longrightarrow>
      r = R_Service_Response \<and> sess_cache X = None \<or> r = R_Python \<and> \<not> python_safe X" for r
  proof (cases r)
    case R_Service
    have "service_package_parser X (config w) d \<noteq> Undefined" for d
      using service_package_parser_done [of X "config w" d] by auto
    with R_Service show ?thesis
      using relay_parser_undefined [of X "service_package_parser X (config w)" data]
      by (auto simp: run_parser_def)
  next
    case R_Group
    then show ?thesis using group_relay_parser [of X data] by (auto simp: run_parser_def)
  next
    case R_Python
    then show ?thesis
      using relay_parser_undefined [of X "python_parser X (config w)" data] python_parser_returns
      by (auto simp: run_parser_def)
  next
    case R_Busy
    then show ?thesis using busy_parser_done [of X data] by (auto simp: run_parser_def)
  qed (use push(2) in \<open>auto simp: run_parser_def\<close>)
  have parsed: "only_writes w (snd (run_parser X r data w))" for r
    by (cases r) (simp_all add: run_parser_def push(1))
  show ?thesis
  proof (cases "responser_for (cmd h)")
    case None
    then show ?thesis by (simp add: do_work_def)
  next
    case (Some r)
    obtain c w1 where c: "run_parser X r data w = (c, w1)" by (cases "run_parser X r data w")
    have "r = R_Service_Response \<Longrightarrow> cmd h = 6666" "r = R_Python \<Longrightarrow> cmd h = 8000"
      using Some by (auto simp: responser_for_def split: if_splits)
    moreover have "only_writes w w1" using parsed [of r] c by simp
    ultimately show ?thesis
      using Some c defined [of r] only_writes_trans [OF _ resp [of w1 r], of w]
      by (cases c) (auto simp: do_work_def)
  qed
qed

lemma do_work_tasks: "do_work X cid h data w = Some w' \<Longrightarrow> tasks w' = tasks w"
  using do_work_safety [of X cid h data w] by (simp add: only_writes_def)

subsection \<open>A concrete run\<close>

definition demo_task :: "demo_json task_ext" where
  "demo_task =
     \<lparr>pb = demo_rt, json = demo_json_api, curl = demo_curl, now_millis = 5, mongo = None,
      sess_cache = Some (\<lambda>c. [(''s1'', ''10.0.0.1:80'')]), python_call = (\<lambda>_ _ _ _. Py_Other_Exception),
      new_uuid = ''u-1'', rand_at = (\<lambda>k. k), task_uninit = (\<lambda>_. zero_head)\<rparr>"

lemma demo_task_safe: "python_safe demo_task"
  by (simp add: python_safe_def demo_task_def)

definition demo_request :: service_request where
  "demo_request = \<lparr>sq_sessid = Some [115], sq_service_type = Some 600, sq_sn = Some [110], sq_payload = Some [8, 27],
     sq_unknown = []\<rparr>"

definition demo_served :: world where
  "demo_served = (world_new (configwrap_new 4 0))\<lparr>cpeers := bind_slot (''server:10.0.0.1:80'', 0) 3 client_map_new\<rparr>"

definition demo_answer :: bytes where
  "demo_answer = bytes_of_packet demo_rt (packet_new\<lparr>p_type := Some 28, near_resp :=
     Some \<lparr>ns_cid = Some [], ns_status = Some 0, ns_data = Some no_mongo\<rparr>\<rparr>)"

lemma demo_parser: "service_package_parser demo_task c [8, 27] = Done (result_new, demo_answer)"
  by (simp add: service_package_parser_def parser_group_near_request_def find_near_def demo_task_def packet_type_of_def
      parse_packet_def packet_bytes_def demo_types demo_answer_def get_near_def packet_new_def)

lemma demo_request_fits: "msg_fits service_request_desc demo_request"
  by (simp add: msg_fits_def service_request_desc_def demo_request_def)

lemma demo_served_get: "fix_get (slot_id ''server:10.0.0.1:80'' 0) (cpeers demo_served) = Some 3"
  using look_slot_bind [of "(''server:10.0.0.1:80'', 0)" "(''server:10.0.0.1:80'', 0)" 3 client_map_new]
  by (simp add: demo_served_def look_slot_def)

subsection \<open>Properties\<close>

text \<open>C10: What becomes of a service request: a serialized \<^verbatim>\<open>ServiceRequest\<close> of type 600 in a frame
  with cmd 200 or 8000. If the inner responser returns, exactly one frame, with the request's magic
  and the next cmd, is written to the session registered under the request's id as an outgoing
  connection, and to nobody if there is none, as for every request that came in on an accepted
  connection; its body is the \<^verbatim>\<open>ServiceResponse\<close> with the request's sessid and sn, status 0 and the
  inner answer, which the other side parses back, or empty, and the prepared error text lost,
  when the inner responser reports a failure. If it throws nothing is sent at all.\<close>

theorem request_answered_once:
  assumes "pb_ok (pb X)"
    and q: "q = \<lparr>sq_sessid = Some s, sq_service_type = Some 600, sq_sn = Some n, sq_payload = Some pl, sq_unknown = []\<rparr>"
    and "msg_fits service_request_desc q" "cmd h = 200 \<or> cmd h = 8000"
    and inner: "inner = (if cmd h = 200 then service_package_parser X (config w) pl else python_parser X (config w) pl)"
    and link: "link = (if cid = [] then None else fix_get cid (cpeers w))"
    and worked: "worked = do_work X cid h (serialize (pb X) service_request_desc q) w"
  shows "case inner of
     Done (res, out) \<Rightarrow> (\<exists>body. worked = Some (case link of None \<Rightarrow> w
          | Some i \<Rightarrow> count_send (world_write i (make_frame (h\<lparr>cmd := cmd h + 1\<rparr>) body (message_format_new (task_uninit X 0))) w)) \<and>
        (if res_status res = 0
         then length out < 2 ^ 31 \<longrightarrow> parse_from (pb X) service_response_desc body =
           (True, \<lparr>sp_sessid = Some s, sp_service_type = Some 600, sp_sn = Some n, sp_status = Some 0,
             sp_payload = Some out, sp_unknown = []\<rparr>)
         else body = []))
   | Raised \<Rightarrow> worked = Some w
   | Undefined \<Rightarrow> worked = None"
proof -
  have l: "length s < 2 ^ 31" "length n < 2 ^ 31"
    using assms(3) by (auto simp: q msg_fits_def service_request_desc_def)
  note r = do_work_relayed [OF assms(1) q assms(3,4), of cid w, folded inner worked]
  show ?thesis
  proof (cases inner)
    case (Done d)
    obtain res out where d: "d = (res, out)" by (cases d)
    let ?body = "response_body X s n res out"
    have "worked = Some (case link of None \<Rightarrow> w
        | Some i \<Rightarrow> count_send (world_write i (make_frame (h\<lparr>cmd := cmd h + 1\<rparr>) ?body (message_format_new (task_uninit X 0))) w))"
      using r by (simp add: Done d link answer_defs split: option.split)
    moreover have "if res_status res = 0
       then length out < 2 ^ 31 \<longrightarrow> parse_from (pb X) service_response_desc ?body =
           (True, \<lparr>sp_sessid = Some s, sp_service_type = Some 600, sp_sn = Some n, sp_status = Some 0,
             sp_payload = Some out, sp_unknown = []\<rparr>)
       else ?body = []"
      using response_body_parses [OF assms(1) l, of out res] by (simp add: response_body_def)
    ultimately show ?thesis unfolding Done d by auto
  qed (use r in simp_all)
qed

theorem request_answered_once_witness:
  "\<exists>body. do_work demo_task (slot_id ''server:10.0.0.1:80'' 0) \<lparr>magic = 7, len = 0, cmd = 200\<rparr>
        (serialize demo_rt service_request_desc demo_request) demo_served =
       Some (count_send (world_write 3 (make_frame \<lparr>magic = 7, len = 0, cmd = 201\<rparr> body (message_format_new zero_head)) demo_served)) \<and>
     fst (parse_from demo_rt service_response_desc body)"
proof -
  have "length demo_answer = 37" by code_simp
  then have "length demo_answer < 2 ^ 31" by simp
  moreover have "slot_id ''server:10.0.0.1:80'' 0 \<noteq> []" by (simp add: slot_id_def)
  moreover have "pb_ok (pb demo_task)" by (simp add: demo_task_def pb_ok_demo)
  ultimately show ?thesis
    using request_answered_once [of demo_task demo_request "[115]" "[110]" "[8, 27]"
        "\<lparr>magic = 7, len = 0, cmd = 200\<rparr>" _ demo_served _ "slot_id ''server:10.0.0.1:80'' 0", OF _ _ _ _ refl refl refl]
      demo_request_fits demo_served_get demo_parser
    by (auto simp: demo_request_def result_new_def demo_task_def)
qed

text \<open>C39: Group requests (cmd 7818) are never served: the type test \<^verbatim>\<open>!= 27 || != 29\<close> is always
  true, so for every body the answer is a frame with an empty body, and mongo is not asked.\<close>

theorem group_requests_always_refused:
  assumes "cmd h = 7818"
  shows "do_work X cid h data w = Some (fix_dispatch_to_server cid
      (make_frame (h\<lparr>cmd := 7819\<rparr>) [] (message_format_new (task_uninit X 0))) w)"
  using group_relay_parser [of X data] assms
  by (auto simp: do_work_def responser_for_def run_parser_def run_response_def relay_response_def answer_frame_def)

theorem group_requests_always_refused_witness:
  "do_work demo_task [] \<lparr>magic = 0, len = 0, cmd = 7818\<rparr> [9] demo_served = Some demo_served"
  using group_requests_always_refused [of "\<lparr>magic = 0, len = 0, cmd = 7818\<rparr>" demo_task "[]" "[9]" demo_served]
  by (simp add: fix_dispatch_to_server_def)

text \<open>A task marked busy is dropped: its responser builds an answer and never sends it.\<close>

lemma busy_tasks_unanswered:
  assumes "cmd h = 1010"
  shows "do_work X cid h data w = Some w"
  using busy_parser_done [of X data] assms
  by (auto simp: do_work_def responser_for_def run_parser_def run_response_def no_response_def result_new_def)

text \<open>C40: A push (cmd 6666) for a client sends one frame for each of its sessions whose server has a
  live link, to the session that link picks, in the order of the sessions, and nothing for the
  others or to any other session; and no receiver can parse it: the pushed \<^verbatim>\<open>ServiceResponse\<close> never gets its
  required status, so \<^verbatim>\<open>ParseFromString\<close> returns false on the body that is sent.\<close>

theorem pushes_not_parsable:
  assumes "pb_ok (pb X)" "json_ok (json X)" "sess_cache X = Some get_session" "cmd h = 6666"
    and "json_text c" "json_text s" "json_text d" "c \<noteq> []" "s \<noteq> []" "d \<noteq> []"
    and "length (opt_bytes (sp_payload (push_message X c s d))) < 2 ^ 31" "length (new_uuid X) < 2 ^ 31"
    and "\<forall>ss \<in> set (get_session c). length (fst ss) < 2 ^ 31"
    and frame: "frame = (\<lambda>k. push_frame X k (push_message X c s d) (fst (get_session c ! k)))"
    and link: "link = (\<lambda>k. fst (client_get (rand_at X k) (''server:'' @ snd (get_session c ! k)) (cpeers w)))"
  shows "\<exists>w'. do_work X cid h (bytes_of (to_service_request (json X) c s d)) w = Some w' \<and>
     (\<forall>j. write_msgs (sessions w' j) = write_msgs (sessions w j) @
        map frame (filter (\<lambda>k. link k = Some j) [0..<length (get_session c)])) \<and>
     (\<forall>k < length (get_session c). \<exists>body. wire (frame k) = Some (frame_bytes \<lparr>magic = 0, len = 0, cmd = 6667\<rparr> body) \<and>
        \<not> fst (parse_from (pb X) service_response_desc body))"
proof -
  let ?fs = "[(''service_id'', s), (''cid'', c), (''data'', d)]"
  let ?w = "push_sessions X (push_message X c s d) 0 (get_session c) w"
  have fs: "\<forall>(k, s) \<in> set ?fs. json_text k \<and> json_text s" using assms(5-7) by (simp add: json_text_keys)
  have v: "json_data_new (json X) (to_service_request (json X) c s d) = json_obj (json X) ?fs"
    using decode_encoded [OF assms(2) _ fs] by (simp add: json_data_new_def to_service_request_obj)
  have "push_parser X (bytes_of (to_service_request (json X) c s d)) w = (Done (result_new\<lparr>res_async := True\<rparr>, []), ?w)"
    using string_member_obj [OF assms(2) fs] assms(3,8-10)
    by (simp add: push_parser_def v json_cid_def json_service_id_def json_data_def act_bind_def act_ret_def Let_def)
  then have "do_work X cid h (bytes_of (to_service_request (json X) c s d)) w = Some ?w"
    using assms(4) by (simp add: do_work_def responser_for_def run_parser_def)
  moreover have "write_msgs (sessions ?w j) = write_msgs (sessions w j) @
      map frame (filter (\<lambda>k. link k = Some j) [0..<length (get_session c)])" for j
    using push_sessions_writes [of X "push_message X c s d" 0 "get_session c" w j] by (simp add: frame link)
  moreover have "\<exists>body. wire (frame k) = Some (frame_bytes \<lparr>magic = 0, len = 0, cmd = 6667\<rparr> body) \<and>
      \<not> fst (parse_from (pb X) service_response_desc body)" if "k < length (get_session c)" for k
  proof -
    let ?r = "push_message X c s d\<lparr>sp_sessid := Some (bytes_of (fst (get_session c ! k)))\<rparr>"
    have "length (fst (get_session c ! k)) < 2 ^ 31" using assms(13) that by simp
    then have "msg_fits service_response_desc ?r" "unknown_of service_response_desc ?r = []"
      "\<not> is_initialized service_response_desc ?r"
      using assms(11,12)
      by (auto simp: msg_fits_def is_initialized_def service_response_desc_def push_message_def service_response_new_def opt_bytes_def)
    then have "\<not> fst (parse_from (pb X) service_response_desc (serialize (pb X) service_response_desc ?r))"
      using sp.codec.parse_serialize [OF assms(1)] by simp
    then show ?thesis
      by (intro exI [of _ "serialize (pb X) service_response_desc ?r"])
        (simp add: frame push_frame_def frame_bytes_def Let_def)
  qed
  ultimately show ?thesis by blast
qed

theorem pushes_not_parsable_witness:
  "\<exists>w' m. do_work demo_task ''k'' \<lparr>magic = 0, len = 0, cmd = 6666\<rparr> (bytes_of (to_service_request demo_json_api ''c'' ''s'' ''d'')) demo_served =
     Some w' \<and> write_msgs (sessions w' 3) = [m] \<and> write_msgs (sessions w' 4) = []"
proof -
  have "length (bytes_of_packet demo_rt (packet_new\<lparr>p_type := Some 26, public_resp :=
      Some \<lparr>us_cid = Some ''c'', us_service_id = Some ''s'', us_data = Some ''d'', us_time = None\<rparr>\<rparr>)) = 13"
    by code_simp
  then have "length (opt_bytes (sp_payload (push_message demo_task ''c'' ''s'' ''d''))) = 13"
    by (simp add: push_message_def packet_bytes_def opt_bytes_def demo_task_def)
  moreover have "json_text ''c''" "json_text ''s''" "json_text ''d''" by (simp_all add: json_text_def)
  moreover have "pb_ok (pb demo_task)" "json_ok (json demo_task)" "sess_cache demo_task = Some (\<lambda>c. [(''s1'', ''10.0.0.1:80'')])"
    "length (new_uuid demo_task) < 2 ^ 31" "json demo_task = demo_json_api"
    by (simp_all add: demo_task_def pb_ok_demo json_ok_demo)
  moreover have "fst (client_get (rand_at demo_task 0) ''server:10.0.0.1:80'' (cpeers demo_served)) = Some 3"
    by code_simp
  moreover have "write_msgs (sessions demo_served j) = []" for j by (simp add: demo_served_def)
  ultimately show ?thesis
    using pushes_not_parsable [of demo_task "\<lambda>c. [(''s1'', ''10.0.0.1:80'')]" "\<lparr>magic = 0, len = 0, cmd = 6666\<rparr>"
        "''c''" "''s''" "''d''" _ _ demo_served "''k''", OF _ _ _ _ _ _ _ _ _ _ _ _ _ refl refl]
    by auto
qed

end
