(* ===== verification/Connections.thy ===== *)
theory Connections
  imports Sessions
begin

text \<open>
  Who opens the outgoing connections: the start-up pass \<^verbatim>\<open>configwrap::init_server_connection\<close> and
  the watcher \<^verbatim>\<open>configwrap::servlist_callback\<close> (src/configwrap.cpp), the periodic pass of
  \<^verbatim>\<open>heart_task_thread::work\<close> (src/heart_task_thread.cpp), and \<^verbatim>\<open>io_service_provide\<close>
  (include/io_service_provide.h), which hands out io services in turn.
\<close>

subsection \<open>The heart-beat pass\<close>

definition heart_frame :: "('x) net_ext_scheme \<Rightarrow> nat \<Rightarrow> message_format" where
  "heart_frame x i = make_frame \<lparr>magic = 0, len = len (uninit_head x i), cmd = 0\<rparr> [] (message_format_new (uninit_head x i))"

text \<open>Connecting one slot of a server under its own name, as the pass and the watcher do it.\<close>

definition connect_slot :: "('x) net_ext_scheme \<Rightarrow> string list \<Rightarrow> string \<Rightarrow> (world, unit) action" where
  "connect_slot x split key w =
     (case resolve x (next_session w) (split ! 1) (split ! 2) of
        None \<Rightarrow> (Throws, w)
      | Some ep \<Rightarrow>
          act_bind (peer_handle_client_fix x ep (split ! 0 @ '':'' @ split ! 1 @ '':'' @ split ! 2) key)
            (\<lambda>c. act_do (registe x c) (act_ret ())) w)"

definition heart_slot :: "('x) net_ext_scheme \<Rightarrow> string \<Rightarrow> nat \<Rightarrow> (world, unit) action" where
  "heart_slot x sv i w =
     (let key = slot_id sv (int i)
      in case fix_get key (cpeers w) of
           Some spt \<Rightarrow> (Ret (), post_write spt (heart_frame x spt) w)
         | None \<Rightarrow>
             let split = split_str x (CHR '':'') sv
             in if length split \<noteq> 3 then (Ret (), w) else connect_slot x split key w)"

text \<open>\<open>n\<close> slots from slot \<open>i\<close> on; then every server of the map. A throw ends the pass and is caught.\<close>

fun heart_slots :: "('x) net_ext_scheme \<Rightarrow> string \<Rightarrow> nat \<Rightarrow> nat \<Rightarrow> (world, unit) action" where
  "heart_slots x sv i 0 = act_ret ()"
| "heart_slots x sv i (Suc n) = act_bind (heart_slot x sv i) (\<lambda>_. heart_slots x sv (Suc i) n)"

fun heart_servers :: "('x) net_ext_scheme \<Rightarrow> nat \<Rightarrow> string list \<Rightarrow> (world, unit) action" where
  "heart_servers x n [] = act_ret ()"
| "heart_servers x n (sv # svs) = act_bind (heart_slots x sv 0 n) (\<lambda>_. heart_servers x n svs)"

definition heart_pass :: "('x) net_ext_scheme \<Rightarrow> world \<Rightarrow> world" where
  "heart_pass x w =
     snd (heart_servers x (nat (connect_count (config w))) (map snd (server_map (config w))) w)"

subsection \<open>Start-up and the watcher\<close>

text \<open>
  Both log \<^verbatim>\<open>split[1]\<close> and \<^verbatim>\<open>split[2]\<close> of an address that does not have three parts before they
  skip it; with fewer than three parts that reads past the vector, which is the value \<open>None\<close>.
\<close>

type_synonym risky = "world \<Rightarrow> (unit outcome \<times> world) option"

definition risky_then :: "risky \<Rightarrow> risky \<Rightarrow> risky" where
  "risky_then f g w = (case f w of None \<Rightarrow> None | Some (Ret (), w') \<Rightarrow> g w' | Some (Throws, w') \<Rightarrow> Some (Throws, w'))"

fun risky_list :: "('a \<Rightarrow> risky) \<Rightarrow> 'a list \<Rightarrow> risky" where
  "risky_list f [] w = Some (Ret (), w)"
| "risky_list f (a # as) w = risky_then (f a) (risky_list f as) w"

definition start_slot :: "('x) net_ext_scheme \<Rightarrow> string \<Rightarrow> risky" where
  "start_slot x addrs w =
     (let split = split_str x (CHR '':'') addrs
      in if length split \<noteq> 3 then (if length split < 3 then None else Some (Ret (), w))
         else Some (case resolve x (next_session w) (split ! 1) (split ! 2) of
             None \<Rightarrow> (Throws, w)
           | Some ep \<Rightarrow> act_bind (peer_handle_client_new x ep) (\<lambda>c. act_do (registe x c) (act_ret ())) w))"

text \<open>\<^verbatim>\<open>init_server_connection\<close>: exceptions are caught and end the pass.\<close>

definition init_server_connection :: "('x) net_ext_scheme \<Rightarrow> world \<Rightarrow> world option" where
  "init_server_connection x w =
     map_option snd (risky_list (\<lambda>(sv, i). start_slot x sv)
       [(sv, i). sv \<leftarrow> map snd (server_map (config w)), i \<leftarrow> [0..<nat (connect_count (config w))]] w)"

definition watch_slot :: "('x) net_ext_scheme \<Rightarrow> string \<Rightarrow> nat \<Rightarrow> risky" where
  "watch_slot x sv i w =
     (let key = slot_id sv (int i)
      in case fix_get key (cpeers w) of
           Some spt \<Rightarrow> Some (Ret (), w)
         | None \<Rightarrow>
             let split = split_str x (CHR '':'') sv
             in if length split \<noteq> 3 then (if length split < 3 then None else Some (Ret (), w))
                else Some (connect_slot x split key w))"

text \<open>\<^verbatim>\<open>servlist_callback\<close> for the cached server list \<open>scs\<close>.\<close>

definition servlist_callback :: "('x) net_ext_scheme \<Rightarrow> serv_cfg list \<Rightarrow> world \<Rightarrow> (int outcome \<times> world) option" where
  "servlist_callback x scs w =
     (if scs = [] then Some (Ret (-1), w)
      else let m = insert_servers scs [];
               w1 = w\<lparr>config := (config w)\<lparr>server_map := m\<rparr>\<rparr>
           in map_option (\<lambda>(r, w2). (case r of Ret () \<Rightarrow> Ret 0 | Throws \<Rightarrow> Throws, w2))
                (risky_list (\<lambda>(sv, i). watch_slot x sv i)
                  [(sv, i). sv \<leftarrow> map snd m, i \<leftarrow> [0..<nat (connect_count (config w))]] w1))"

subsection \<open>\<^verbatim>\<open>io_service_provide\<close>\<close>

text \<open>\<open>n\<close> services; \<^verbatim>\<open>get_io_service\<close> gives the index used and the next index.\<close>

definition pool_size :: "int \<Rightarrow> nat \<Rightarrow> nat" where
  "pool_size sz hardware_concurrency =
     (let pool_size = unat (word_of_int sz :: 64 word) in if pool_size = 0 then hardware_concurrency else pool_size)"

definition get_io_service :: "nat \<Rightarrow> nat \<Rightarrow> nat \<times> nat" where
  "get_io_service n next_io_service =
     (let next' = Suc next_io_service in (next_io_service, if next' = n then 0 else next'))"

fun io_calls :: "nat \<Rightarrow> nat \<Rightarrow> nat \<Rightarrow> nat list" where
  "io_calls n 0 next_io_service = []"
| "io_calls n (Suc k) next_io_service =
     (case get_io_service n next_io_service of (i, next') \<Rightarrow> i # io_calls n k next')"

text \<open>The same statements one at a time, by several threads on the shared, unprotected index: read
  and use it, increment it, compare and reset it.\<close>

datatype io_pc = Io_Start | Io_Increment nat | Io_Compare nat | Io_Done nat

record io_state =
  io_next :: nat
  io_pc_of :: "nat \<Rightarrow> io_pc"

definition io_step :: "nat \<Rightarrow> nat \<Rightarrow> io_state \<Rightarrow> io_state" where
  "io_step n t s =
     (case io_pc_of s t of
        Io_Start \<Rightarrow> s\<lparr>io_pc_of := (io_pc_of s)(t := Io_Increment (io_next s))\<rparr>
      | Io_Increment i \<Rightarrow> s\<lparr>io_next := Suc (io_next s), io_pc_of := (io_pc_of s)(t := Io_Compare i)\<rparr>
      | Io_Compare i \<Rightarrow> s\<lparr>io_next := (if io_next s = n then 0 else io_next s), io_pc_of := (io_pc_of s)(t := Io_Done i)\<rparr>
      | Io_Done i \<Rightarrow> s)"

subsection \<open>One slot\<close>

lemma fix_set_zero: "srv \<noteq> [] \<Longrightarrow> key \<noteq> [] \<Longrightarrow> fst (fix_set srv key s c) = 0"
  by (simp add: fix_set_def)

lemma start_fixed:
  assumes "s_kind (sessions w i) = Client_Session" "fix_connect (sessions w i)" "server_id (sessions w i) \<noteq> []"
    and "s_id (sessions w i) \<noteq> []"
  shows "\<exists>w'. session_start i w = (Ret (), w') \<and>
     cpeers w' = snd (fix_set (server_id (sessions w i)) (s_id (sessions w i)) (Some i) (cpeers w)) \<and>
     config w' = config w \<and> posted w' = posted w \<and> next_session w' = next_session w"
proof -
  obtain st c where f: "fix_set (server_id (sessions w i)) (s_id (sessions w i)) (Some i) (cpeers w) = (st, c)"
    by (cases "fix_set (server_id (sessions w i)) (s_id (sessions w i)) (Some i) (cpeers w)")
  with fix_set_zero [OF assms(3,4), of "Some i" "cpeers w"] have "st = 0" by simp
  with f assms show ?thesis
    by (simp add: handler_defs client_open_def Let_def)
qed

text \<open>The frame \<^verbatim>\<open>registe\<close> posts.\<close>

definition reg_frame :: "('x) net_ext_scheme \<Rightarrow> nat \<Rightarrow> message_format" where
  "reg_frame x i = make_frame \<lparr>magic = 0, len = of_nat (12 + length (reg_request x)), cmd = 300\<rparr> (reg_request x)
     (message_format_new (uninit_head x i))"

lemma connect_slot_ok:
  assumes "connect_ok x (next_session w)" "resolve x (next_session w) (split ! 1) (split ! 2) = Some ep" "key \<noteq> []"
  shows "\<exists>w'. connect_slot x split key w = (Ret (), w') \<and>
     (\<forall>k. fix_get k (cpeers w') = (if k = key then Some (next_session w) else fix_get k (cpeers w))) \<and>
     config w' = config w \<and> posted w' = posted w @ [(next_session w, reg_frame x (next_session w))]"
proof -
  let ?i = "next_session w" and ?srv = "split ! 0 @ '':'' @ split ! 1 @ '':'' @ split ! 2"
  let ?w = "upd_session ?i (\<lambda>s. s\<lparr>fix_connect := True, s_id := key, server_id := ?srv,
     read_msg := (read_msg s)\<lparr>mf_remote_id := key, mf_server_id := ?srv\<rparr>\<rparr>) (new_client_session x ep w)"
  have w: "s_kind (sessions ?w ?i) = Client_Session" "fix_connect (sessions ?w ?i)"
    "server_id (sessions ?w ?i) = ?srv" "s_id (sessions ?w ?i) = key" "cpeers ?w = cpeers w"
    "config ?w = config w" "posted ?w = posted w"
    by (simp_all add: new_client_session_def session_new_def Let_def)
  from start_fixed [of ?w ?i] w assms(3) obtain w' where w': "session_start ?i ?w = (Ret (), w')"
    "cpeers w' = snd (fix_set ?srv key (Some ?i) (cpeers w))" "config w' = config w" "posted w' = posted w"
    by auto
  then have "peer_handle_client_fix x ep ?srv key w = (Ret (?i, 0), w')"
    using assms(1)
    by (simp add: peer_handle_client_fix_def handle_connect_fix_id_def handle_connect_def act_defs Let_def)
  then have "connect_slot x split key w = (Ret (), registe x (?i, 0) w')"
    using assms(2) by (simp add: connect_slot_def act_defs)
  moreover have "cpeers (registe x (?i, 0) w') = cpeers w'" "config (registe x (?i, 0) w') = config w'"
    "posted (registe x (?i, 0) w') = posted w' @ [(?i, reg_frame x ?i)]"
    by (simp_all add: registe_def post_write_def reg_frame_def Let_def)
  ultimately show ?thesis
    using w' fix_get_fix_set [of ?srv key _ "Some ?i" "cpeers w"] assms(3) by auto
qed

subsection \<open>A pass over all slots\<close>

definition reachable_servers :: "('x) net_ext_scheme \<Rightarrow> bool" where
  "reachable_servers x \<longleftrightarrow> split_ok (split_str x) \<and> (\<forall>j. connect_ok x j) \<and> (\<forall>j h p. resolve x j h p \<noteq> None)"

definition well_addressed :: "string \<Rightarrow> bool" where
  "well_addressed sv \<longleftrightarrow> (\<exists>a b c. sv = join (CHR '':'') [a, b, c] \<and> CHR '':'' \<notin> set a \<union> set b \<union> set c)"

text \<open>The slots in the order of the pass, and what is posted for them: a heart-beat frame for a slot
  that is live when its turn comes, because it was before or has been connected in this pass, and
  the registration of the new session for any other.\<close>

definition slot_keys :: "nat \<Rightarrow> string list \<Rightarrow> string list" where
  "slot_keys n svs = [slot_id sv (int i). sv \<leftarrow> svs, i \<leftarrow> [0..<n]]"

fun pass_posts :: "('x) net_ext_scheme \<Rightarrow> string set \<Rightarrow> string list \<Rightarrow> client_map \<Rightarrow> (nat \<times> message_format) list" where
  "pass_posts x live [] c = []"
| "pass_posts x live (k # ks) c =
     (case fix_get k c of None \<Rightarrow> []
      | Some s \<Rightarrow> [(s, if k \<in> live then heart_frame x s else reg_frame x s)]) @ pass_posts x (insert k live) ks c"

definition live_slots :: "world \<Rightarrow> string set" where
  "live_slots w = {k. fix_get k (cpeers w) \<noteq> None}"

definition slots_served :: "('x) net_ext_scheme \<Rightarrow> string list \<Rightarrow> world \<Rightarrow> world \<Rightarrow> bool" where
  "slots_served x ks w w' \<longleftrightarrow> config w' = config w \<and> live_slots w' = live_slots w \<union> set ks \<and>
     (\<forall>k \<in> live_slots w. fix_get k (cpeers w') = fix_get k (cpeers w)) \<and>
     posted w' = posted w @ pass_posts x (live_slots w) ks (cpeers w')"

lemma pass_posts_append:
  "pass_posts x live (ks @ ks') c = pass_posts x live ks c @ pass_posts x (live \<union> set ks) ks' c"
  by (induction ks arbitrary: live) simp_all

lemma pass_posts_cong:
  "(\<And>k. k \<in> set ks \<Longrightarrow> fix_get k c = fix_get k c') \<Longrightarrow> pass_posts x live ks c = pass_posts x live ks c'"
  by (induction ks arbitrary: live) simp_all

lemma slots_served_nil [simp]: "slots_served x [] w w"
  by (simp add: slots_served_def)

lemma slots_served_append:
  assumes "slots_served x ks w w1" "slots_served x ks' w1 w2"
  shows "slots_served x (ks @ ks') w w2"
proof -
  have "pass_posts x (live_slots w) ks (cpeers w1) = pass_posts x (live_slots w) ks (cpeers w2)"
    using assms by (intro pass_posts_cong) (auto simp: slots_served_def)
  with assms show ?thesis by (auto simp: slots_served_def pass_posts_append)
qed

lemma heart_slot_ok:
  assumes "reachable_servers x" "well_addressed sv"
  shows "\<exists>w'. heart_slot x sv i w = (Ret (), w') \<and> slots_served x [slot_id sv (int i)] w w'"
proof (cases "fix_get (slot_id sv (int i)) (cpeers w)")
  case (Some s)
  then show ?thesis
    by (auto simp: heart_slot_def slots_served_def live_slots_def post_write_def)
next
  case None
  let ?key = "slot_id sv (int i)"
  from assms(2) obtain a b c where abc: "sv = join (CHR '':'') [a, b, c]" "CHR '':'' \<notin> set a \<union> set b \<union> set c"
    by (auto simp: well_addressed_def)
  then have sp: "split_str x (CHR '':'') sv = [a, b, c]"
    using assms(1) split_join [of "split_str x" "[a, b, c]" "CHR '':''"] by (simp add: reachable_servers_def)
  obtain ep where "resolve x (next_session w) b c = Some ep" "connect_ok x (next_session w)"
    using assms(1) unfolding reachable_servers_def by blast
  then obtain w' where "connect_slot x [a, b, c] ?key w = (Ret (), w')"
    "\<forall>k. fix_get k (cpeers w') = (if k = ?key then Some (next_session w) else fix_get k (cpeers w))"
    "config w' = config w" "posted w' = posted w @ [(next_session w, reg_frame x (next_session w))]"
    using connect_slot_ok [of x w "[a, b, c]" ep ?key] by (auto simp: slot_id_def)
  with None sp show ?thesis by (auto simp: heart_slot_def slots_served_def live_slots_def)
qed

lemma heart_slots_ok:
  assumes "reachable_servers x" "well_addressed sv"
  shows "\<exists>w'. heart_slots x sv i n w = (Ret (), w') \<and>
     slots_served x (map (\<lambda>j. slot_id sv (int j)) [i..<i + n]) w w'"
proof (induction n arbitrary: i w)
  case 0
  then show ?case by (simp add: act_ret_def)
next
  case (Suc n)
  obtain w1 where w1: "heart_slot x sv i w = (Ret (), w1)" "slots_served x [slot_id sv (int i)] w w1"
    using heart_slot_ok [OF assms] by blast
  obtain w2 where w2: "heart_slots x sv (Suc i) n w1 = (Ret (), w2)"
    "slots_served x (map (\<lambda>j. slot_id sv (int j)) [Suc i..<Suc i + n]) w1 w2"
    using Suc by blast
  have "[i..<i + Suc n] = i # [Suc i..<Suc i + n]" by (simp add: upt_conv_Cons)
  with slots_served_append [OF w1(2) w2(2)] w1(1) w2(1) show ?case by (simp add: act_bind_def del: upt_Suc)
qed

lemma heart_servers_ok:
  assumes "reachable_servers x" "\<forall>sv \<in> set svs. well_addressed sv"
  shows "\<exists>w'. heart_servers x n svs w = (Ret (), w') \<and> slots_served x (slot_keys n svs) w w'"
  using assms(2)
proof (induction svs arbitrary: w)
  case Nil
  then show ?case by (simp add: act_ret_def slot_keys_def)
next
  case (Cons sv svs)
  obtain w1 where w1: "heart_slots x sv 0 n w = (Ret (), w1)"
    "slots_served x (map (\<lambda>j. slot_id sv (int j)) [0..<0 + n]) w w1"
    using heart_slots_ok [OF assms(1), of sv 0 n w] Cons.prems by auto
  obtain w2 where w2: "heart_servers x n svs w1 = (Ret (), w2)" "slots_served x (slot_keys n svs) w1 w2"
    using Cons.IH [of w1] Cons.prems by (meson list.set_intros(2))
  have "slot_keys n (sv # svs) = map (\<lambda>j. slot_id sv (int j)) [0..<0 + n] @ slot_keys n svs"
    by (simp add: slot_keys_def)
  with slots_served_append [OF w1(2) w2(2)] w1(1) w2(1) show ?case by (simp add: act_bind_def)
qed

subsection \<open>Properties\<close>

text \<open>C15: The heart-beat pass repairs the connections. If every server of the map has an address of
  the form a:b:c and can be resolved and reached, then after one pass exactly the slots that were live
  and every slot of every server hold a session; a slot that was live keeps its session; and what
  the pass has posted is, in the order of the slots, one frame for each: a heart-beat to the session
  of a slot that was live when its turn came, the registration of the new session for every other.\<close>

theorem heart_pass_restores:
  assumes "reachable_servers x" "\<forall>sv \<in> snd ` set (server_map (config w)). well_addressed sv"
    and "ks = slot_keys (nat (connect_count (config w))) (map snd (server_map (config w)))"
    and "w' = heart_pass x w"
  shows "live_slots w' = live_slots w \<union> set ks \<and>
     (\<forall>k \<in> live_slots w. fix_get k (cpeers w') = fix_get k (cpeers w)) \<and>
     posted w' = posted w @ pass_posts x (live_slots w) ks (cpeers w') \<and>
     length (pass_posts x (live_slots w) ks (cpeers w')) = length ks"
proof -
  have "\<forall>sv \<in> set (map snd (server_map (config w))). well_addressed sv" using assms(2) by simp
  from heart_servers_ok [OF assms(1) this, of "nat (connect_count (config w))" w] assms(3,4)
  have s: "slots_served x ks w w'" by (auto simp: heart_pass_def)
  have "length (pass_posts x live ks' (cpeers w')) = length ks'" if "set ks' \<subseteq> live_slots w'" for live ks'
    using that by (induction ks' arbitrary: live) (auto simp: live_slots_def split: option.split)
  with s show ?thesis by (simp add: slots_served_def)
qed

text \<open>One address that does not resolve ends the pass: nothing is done for the servers after it.\<close>

lemma unresolved_server_ends_pass:
  assumes "server_map (config w) = (k, sv) # m" "0 < connect_count (config w)"
    and "fix_get (slot_id sv 0) (cpeers w) = None" "length (split_str x (CHR '':'') sv) = 3"
    and "resolve x (next_session w) (split_str x (CHR '':'') sv ! 1) (split_str x (CHR '':'') sv ! 2) = None"
  shows "heart_pass x w = w"
proof -
  from assms(2) obtain n where "nat (connect_count (config w)) = Suc n" by (metis gr0_implies_Suc zero_less_nat_eq)
  with assms show ?thesis
    by (simp add: heart_pass_def heart_slot_def connect_slot_def act_bind_def Let_def)
qed

definition demo_heart :: world where
  "demo_heart = world_new ((configwrap_new 4 0)\<lparr>server_map := [(1, ''server:h:80'')], connect_count := 2\<rparr>)"

theorem heart_pass_restores_witness:
  "live_slots (heart_pass demo_net demo_heart) = {''server:h:80:0'', ''server:h:80:1''} \<and>
   length (posted (heart_pass demo_net demo_heart)) = 2"
proof -
  have "''server:h:80'' = join (CHR '':'') [''server'', ''h'', ''80''] \<and>
      CHR '':'' \<notin> set ''server'' \<union> set ''h'' \<union> set ''80''" by simp
  then have "well_addressed ''server:h:80''" unfolding well_addressed_def by blast
  moreover have "reachable_servers demo_net"
    by (simp add: reachable_servers_def demo_net_def demo_ext_def cfg_ext.defs split_ok_ref)
  moreover have "slot_keys 2 [''server:h:80''] = [''server:h:80:0'', ''server:h:80:1'']" by code_simp
  moreover have "live_slots demo_heart = {}" "posted demo_heart = []"
    by (simp_all add: live_slots_def demo_heart_def world_new_def fix_get_def peer_get_def client_map_new_def)
  ultimately show ?thesis
    using heart_pass_restores [of demo_net demo_heart, OF _ _ refl refl]
    by (simp add: demo_heart_def world_new_def)
qed

text \<open>Connecting at start-up and on a change of the server list reads out of bounds when the
  address it comes to first has fewer than three parts (\<^verbatim>\<open>session.<id>\<close> without a port is enough):
  the message that should report the address indexes the missing parts.\<close>

lemma short_address_undefined:
  assumes "server_map (config w) = (k, sv) # m" "0 < connect_count (config w)"
    and "length (split_str x (CHR '':'') sv) < 3"
  shows "init_server_connection x w = None \<and>
     (fix_get (slot_id sv 0) (cpeers w) = None \<longrightarrow> watch_slot x sv 0 w = None) \<and>
     (fix_get (slot_id sv 0) (cpeers w) = None \<longrightarrow> heart_slot x sv 0 w = (Ret (), w))"
proof -
  from assms(2) obtain n where "nat (connect_count (config w)) = Suc n" by (metis gr0_implies_Suc zero_less_nat_eq)
  then have "[0..<nat (connect_count (config w))] = 0 # [1..<Suc n]" by (simp add: upt_conv_Cons)
  then have "\<exists>rest. [(sv, i). sv \<leftarrow> map snd (server_map (config w)), i \<leftarrow> [0..<nat (connect_count (config w))]] = (sv, 0) # rest"
    using assms(1) by simp
  with assms(3) show ?thesis
    by (auto simp: init_server_connection_def risky_then_def start_slot_def watch_slot_def heart_slot_def Let_def)
qed

text \<open>\<^verbatim>\<open>get_io_service\<close> called by one thread at a time hands out the services in turn: the k-th
  call (from 0) uses service (start + k) mod n. Called by two threads it can run past the end:
  with the index on the last service, a second thread that reads the index between the first
  thread's increment and its reset uses service n of n.\<close>

lemma io_services_in_turn:
  assumes "start < n" "k < m"
  shows "io_calls n m start ! k = (start + k) mod n \<and>
     io_pc_of (fold (io_step n) [0, 0, 1] \<lparr>io_next = n - 1, io_pc_of = (\<lambda>_. Io_Start)\<rparr>) 1 = Io_Increment n"
proof -
  have "io_calls n m start ! k = (start + k) mod n"
    using assms
  proof (induction m arbitrary: start k)
    case (Suc m)
    let ?s = "if Suc start = n then 0 else Suc start"
    show ?case
    proof (cases k)
      case 0
      with Suc.prems show ?thesis by (simp add: get_io_service_def Let_def)
    next
      case (Suc j)
      have "io_calls n m ?s ! j = (?s + j) mod n" using Suc Suc.prems by (intro Suc.IH) auto
      moreover have "(?s + j) mod n = (start + k) mod n"
        using Suc Suc.prems(1) mod_add_self1 [of n j] by (auto simp flip: add_Suc)
      ultimately show ?thesis using Suc by (simp add: get_io_service_def Let_def)
    qed
  qed simp
  moreover have "Suc (n - 1) = n" using assms(1) by simp
  ultimately show ?thesis by (simp add: io_step_def)
qed

end
