(* ===== verification/Relay.thy ===== *)
theory Relay
  imports Responders Connections
begin

text \<open>
  The parts together: bytes arriving on a connection become tasks (Sessions), a worker takes them
  from the queue (TaskQueue) and serves them (Responders), and the answers go to the write queue
  of the connection. \<open>work_once\<close> is one pass of the loop in \<^verbatim>\<open>task_base::work\<close> (src/task_base.cpp)
  over the shared state, \<open>serve\<close> the passes until the queue is empty, and \<open>relay_step\<close> every
  interleaving of worker passes with the network handlers.
\<close>

subsection \<open>A worker's pass\<close>

definition queue_of :: "world \<Rightarrow> task_base" where
  "queue_of w = \<lparr>deque = tasks w, stop = False\<rparr>"

text \<open>\<open>None\<close> is undefined behaviour; with an empty queue the worker goes to sleep instead.\<close>

definition work_once :: "'j task_ext \<Rightarrow> nat \<Rightarrow> world \<Rightarrow> world option" where
  "work_once X mx w =
     (case try_pop mx (queue_of w) of
        None \<Rightarrow> None
      | Some (None, q) \<Rightarrow> Some w
      | Some (Some (cid, h, data), q) \<Rightarrow> do_work X cid h data (w\<lparr>tasks := deque q\<rparr>))"

lemma work_once_front:
  assumes "tasks w = m # ms" "body_fits m"
  shows "work_once X mx w = (case (if mx < length (tasks w) then busy_of m else task_of m) of
     (cid, h, data) \<Rightarrow> do_work X cid h data (w\<lparr>tasks := ms\<rparr>))"
  using assms try_pop_front [of "queue_of w" m ms mx]
  by (cases "if mx < length (tasks w) then busy_of m else task_of m")
    (auto simp: work_once_def queue_of_def split: if_splits)

lemma work_once_tasks:
  assumes "work_once X mx w = Some w'"
  shows "tasks w' = tl (tasks w)"
  using assms
  by (auto simp: work_once_def queue_of_def try_pop_def Let_def dest!: do_work_tasks
      split: list.splits option.splits prod.splits if_splits)

function serve :: "'j task_ext \<Rightarrow> nat \<Rightarrow> world \<Rightarrow> world option" where
  "serve X mx w = (if tasks w = [] then Some w
     else case work_once X mx w of None \<Rightarrow> None | Some w' \<Rightarrow> serve X mx w')"
  by pat_completeness auto
termination
  by (relation "measure (\<lambda>(X, mx, w). length (tasks w))") (auto dest: work_once_tasks)

declare serve.simps [simp del]

lemma serve_empty [simp]: "tasks w = [] \<Longrightarrow> serve X mx w = Some w"
  by (subst serve.simps) simp

lemma serve_front: "tasks w \<noteq> [] \<Longrightarrow> serve X mx w = Option.bind (work_once X mx w) (serve X mx)"
  by (subst serve.simps) (simp split: option.split)

text \<open>A message over the limit is dropped.\<close>

lemma work_once_busy:
  assumes "tasks w = m # ms" "body_fits m" "mx < length (tasks w)"
  shows "work_once X mx w = Some (w\<lparr>tasks := ms\<rparr>)"
proof -
  obtain cid h data where "busy_of m = (cid, h, data)" by (cases "busy_of m")
  moreover from this have "cmd h = 1010" by (auto simp: busy_of_def task_of_def)
  ultimately show ?thesis
    using assms busy_tasks_unanswered [of h X cid data "w\<lparr>tasks := ms\<rparr>"] by (simp add: work_once_front)
qed

lemma serve_busy:
  "world_ok w \<Longrightarrow> serve X mx w = serve X mx (w\<lparr>tasks := drop (length (tasks w) - mx) (tasks w)\<rparr>)"
proof (induction "length (tasks w)" arbitrary: w)
  case (Suc n)
  then obtain m ms where m: "tasks w = m # ms" by (cases "tasks w") auto
  with Suc.prems have fits: "body_fits m" "world_ok (w\<lparr>tasks := ms\<rparr>)"
    by (auto simp: world_ok_def)
  show ?case
  proof (cases "mx < length (tasks w)")
    case True
    have "serve X mx w = serve X mx (w\<lparr>tasks := ms\<rparr>)"
      using m work_once_busy [OF m fits(1) True, of X] by (subst serve_front) auto
    also have "\<dots> = serve X mx (w\<lparr>tasks := drop (length (tasks w) - mx) (tasks w)\<rparr>)"
      using Suc.hyps(1) [of "w\<lparr>tasks := ms\<rparr>"] Suc.hyps(2) fits(2) m True
      by (simp add: Suc_diff_le)
    finally show ?thesis .
  qed simp
qed simp

subsection \<open>A connection's requests\<close>

text \<open>What the inner responser answers to a request it serves, by the frame's cmd.\<close>

definition inner_answer :: "'j task_ext \<Rightarrow> configwrap \<Rightarrow> int32 \<Rightarrow> bytes \<Rightarrow> bytes option" where
  "inner_answer X c n pl =
     (case (if n = 200 then service_package_parser X c pl else if n = 8000 then python_parser X c pl else Undefined) of
        Done (res, out) \<Rightarrow> if res_status res = 0 \<and> \<not> res_async res then Some out else None
      | _ \<Rightarrow> None)"

text \<open>A well-formed call whose request the inner responser serves, and its answer frame.\<close>

definition service_call :: "'j task_ext \<Rightarrow> configwrap \<Rightarrow> head \<times> service_request \<Rightarrow> bool" where
  "service_call X c f = (case f of (h, q) \<Rightarrow>
     msg_fits service_request_desc q \<and> length (serialize (pb X) service_request_desc q) \<le> 1024 * 1024 \<and>
     (\<exists>s n pl out. q = \<lparr>sq_sessid = Some s, sq_service_type = Some 600, sq_sn = Some n, sq_payload = Some pl,
        sq_unknown = []\<rparr> \<and> inner_answer X c (cmd h) pl = Some out \<and> length out < 2 ^ 31))"

definition answers :: "'j task_ext \<Rightarrow> configwrap \<Rightarrow> head \<times> service_request \<Rightarrow> message_format \<Rightarrow> bool" where
  "answers X c f m = (case f of (h, q) \<Rightarrow>
     (\<exists>body pl out. wire m = Some (frame_bytes (h\<lparr>cmd := cmd h + 1\<rparr>) body) \<and> sq_payload q = Some pl \<and>
        inner_answer X c (cmd h) pl = Some out \<and>
        parse_from (pb X) service_response_desc body = (True, \<lparr>sp_sessid = sq_sessid q, sp_service_type = Some 600,
          sp_sn = sq_sn q, sp_status = Some 0, sp_payload = Some out, sp_unknown = []\<rparr>)))"

definition call_frame :: "'j task_ext \<Rightarrow> head \<times> service_request \<Rightarrow> head \<times> bytes" where
  "call_frame X f = (fst f, serialize (pb X) service_request_desc (snd f))"

lemma frame_bytes_len [simp]: "frame_bytes (h\<lparr>len := l, cmd := c\<rparr>) b = frame_bytes (h\<lparr>cmd := c\<rparr>) b"
  by (simp add: frame_bytes_def)

lemma inner_answer_sendcount [simp]: "inner_answer X (snd (sendcount c)) n pl = inner_answer X c n pl"
proof -
  have "do_reply_request X (snd (sendcount c)) = do_reply_request X c"
    "do_post_topic_request X (snd (sendcount c)) = do_post_topic_request X c"
    "do_public_service_request X (snd (sendcount c)) = do_public_service_request X c"
    "python_root (snd (sendcount c)) = python_root c"
    by (simp_all add: fun_eq_iff do_reply_request_def do_post_topic_request_def do_public_service_request_def
        sendcount_def)
  then have "service_package_parser X (snd (sendcount c)) = service_package_parser X c"
    "python_parser X (snd (sendcount c)) = python_parser X c"
    by (simp_all only: fun_eq_iff service_package_parser_def python_parser_def simp_thms)
  then show ?thesis by (simp add: inner_answer_def)
qed

lemma sendcount_calls [simp]:
  "service_call X (snd (sendcount c)) = service_call X c" "answers X (snd (sendcount c)) = answers X c"
  by (simp_all add: fun_eq_iff service_call_def answers_def)

lemma do_work_call:
  assumes "pb_ok (pb X)" "service_call X (config w) (h, q)" "cid \<noteq> []" "fix_get cid (cpeers w) = Some i"
  shows "\<exists>m. do_work X cid (h\<lparr>len := l\<rparr>) (serialize (pb X) service_request_desc q) w =
     Some (count_send (world_write i m w)) \<and> answers X (config w) (h, q) m"
proof -
  from assms(2) obtain s n pl out where q: "q = \<lparr>sq_sessid = Some s, sq_service_type = Some 600, sq_sn = Some n,
      sq_payload = Some pl, sq_unknown = []\<rparr>" and fits: "msg_fits service_request_desc q"
    and out: "inner_answer X (config w) (cmd h) pl = Some out" "length out < 2 ^ 31"
    by (auto simp: service_call_def)
  from out(1) obtain res where res: "cmd h = 200 \<and> service_package_parser X (config w) pl = Done (res, out) \<or>
      cmd h = 8000 \<and> python_parser X (config w) pl = Done (res, out)" "res_status res = 0"
    by (auto simp: inner_answer_def split: if_splits call.splits prod.splits)
  have "length s < 2 ^ 31" "length n < 2 ^ 31"
    using fits by (auto simp: q msg_fits_def service_request_desc_def)
  note body = response_body_parses [OF assms(1) this out(2) res(2)]
  from do_work_request [OF assms(1) q fits, of "h\<lparr>len := l\<rparr>" w res out cid i] res assms(3,4)
  have "do_work X cid (h\<lparr>len := l\<rparr>) (serialize (pb X) service_request_desc q) w =
      Some (count_send (world_write i (make_frame (h\<lparr>len := l, cmd := cmd h + 1\<rparr>)
        (response_body X s n res out) (message_format_new (task_uninit X 0))) w))"
    by simp
  moreover have "answers X (config w) (h, q) (make_frame (h\<lparr>len := l, cmd := cmd h + 1\<rparr>)
      (response_body X s n res out) (message_format_new (task_uninit X 0)))"
    using body out(1) by (auto simp: answers_def q)
  ultimately show ?thesis by blast
qed

lemma serve_calls:
  assumes "pb_ok (pb X)" "cid \<noteq> []"
  shows "map task_of (tasks w) = map (frame_task cid) (map (call_frame X) fs) \<Longrightarrow> list_all body_fits (tasks w) \<Longrightarrow>
    length fs \<le> mx \<Longrightarrow> fix_get cid (cpeers w) = Some i \<Longrightarrow> \<forall>f \<in> set fs. service_call X (config w) f \<Longrightarrow>
    \<exists>w' ms. serve X mx w = Some w' \<and> tasks w' = [] \<and>
      write_msgs (sessions w' i) = write_msgs (sessions w i) @ ms \<and> list_all2 (answers X (config w)) fs ms"
proof (induction fs arbitrary: w)
  case Nil
  then show ?case by (intro exI [of _ w] exI [of _ "[]"]) simp
next
  case (Cons f fs)
  obtain h q where f: "f = (h, q)" by (cases f)
  from Cons.prems(1) obtain m ms where m: "tasks w = m # ms"
      "task_of m = (cid, h\<lparr>len := of_nat (12 + length (serialize (pb X) service_request_desc q))\<rparr>,
         serialize (pb X) service_request_desc q)"
      "map task_of ms = map (frame_task cid) (map (call_frame X) fs)"
    by (cases "tasks w") (auto simp: f frame_task_def call_frame_def)
  let ?w = "w\<lparr>tasks := ms\<rparr>"
  from do_work_call [OF assms(1) _ assms(2), of ?w h q i] Cons.prems(4,5) f obtain a where
    a: "do_work X cid (h\<lparr>len := of_nat (12 + length (serialize (pb X) service_request_desc q))\<rparr>)
        (serialize (pb X) service_request_desc q) ?w = Some (count_send (world_write i a ?w))"
      "answers X (config w) (h, q) a"
    by fastforce
  let ?w1 = "count_send (world_write i a ?w)"
  have "length (tasks w) = length (f # fs)" using m(1) arg_cong [OF m(3), of length] by simp
  then have once: "work_once X mx w = Some ?w1"
    using m a(1) Cons.prems(2,3) by (simp add: work_once_front)
  have w1: "tasks ?w1 = ms" "fix_get cid (cpeers ?w1) = Some i" "config ?w1 = snd (sendcount (config w))"
    "write_msgs (sessions ?w1 i) = write_msgs (sessions w i) @ [a]"
    using Cons.prems(4) by (simp_all add: count_send_def world_write_def)
  from Cons.IH [of ?w1] w1 m Cons.prems obtain w' bs where
    "serve X mx ?w1 = Some w'" "tasks w' = []"
    "write_msgs (sessions w' i) = write_msgs (sessions w i) @ a # bs" "list_all2 (answers X (config w)) fs bs"
    by auto
  then show ?case
    using serve_front [of w X mx] m(1) once a(2) f
    by (intro exI [of _ w'] exI [of _ "a # bs"]) simp
qed

subsection \<open>Every interleaving\<close>

inductive relay_step :: "('x) net_ext_scheme \<Rightarrow> 'j task_ext \<Rightarrow> nat \<Rightarrow> world \<Rightarrow> world \<Rightarrow> bool" for x X mx where
  network: "net_step x w w' \<Longrightarrow> relay_step x X mx w w'"
| work: "work_once X mx w = Some w' \<Longrightarrow> relay_step x X mx w w'"

inductive_cases relay_stepE: "relay_step x X mx w w'"

lemma pop_ok: "world_ok w \<Longrightarrow> tasks w = m # ms \<Longrightarrow> body_fits m \<and> world_ok (w\<lparr>tasks := ms\<rparr>)"
  by (simp add: world_ok_def)

lemma work_once_ok:
  assumes "world_ok w"
  shows "work_once X mx w = None \<Longrightarrow> sess_cache X = None \<or> \<not> python_safe X" and "work_once X mx w = Some w' \<Longrightarrow> world_ok w'"
proof -
  have "(work_once X mx w = None \<longrightarrow> sess_cache X = None \<or> \<not> python_safe X) \<and> (\<forall>w'. work_once X mx w = Some w' \<longrightarrow> world_ok w')"
  proof (cases "tasks w")
    case Nil
    with assms show ?thesis by (simp add: work_once_def queue_of_def try_pop_def)
  next
    case (Cons m ms)
    obtain cid h data where t: "(if mx < length (tasks w) then busy_of m else task_of m) = (cid, h, data)"
      by (cases "if mx < length (tasks w) then busy_of m else task_of m") auto
    from pop_ok [OF assms Cons] do_work_safety [of X cid h data "w\<lparr>tasks := ms\<rparr>"]
    show ?thesis using work_once_front [OF Cons, of X mx] t by (auto simp: only_writes_def)
  qed
  then show "work_once X mx w = None \<Longrightarrow> sess_cache X = None \<or> \<not> python_safe X" "work_once X mx w = Some w' \<Longrightarrow> world_ok w'"
    by blast+
qed

lemma relay_step_ok: "relay_step x X mx w w' \<Longrightarrow> world_ok w \<Longrightarrow> world_ok w'"
  by (auto elim!: relay_stepE intro: net_step_ok work_once_ok(2))

lemma relay_reach_ok: "(relay_step x X mx)\<^sup>*\<^sup>* (world_new c) w \<Longrightarrow> world_ok w"
  by (induction rule: rtranclp_induct) (auto intro: world_ok_new relay_step_ok)

end
