(* ===== verification/Registry.thy ===== *)
theory Registry
  imports Relay
begin

text \<open>
  What the registries mean while the server runs: an id found in \<^verbatim>\<open>__PEER_MAP\<close> or
  \<^verbatim>\<open>__PEER_MAP_CLIENT\<close> (src/peer_handle_map.cpp) leads to the session that carries it. The
  invariant joins the registries, the session objects and the numbering of new sessions, and is
  kept by every handler (Sessions) and every worker pass (Relay).
\<close>

subsection \<open>The invariant\<close>

definition carries :: "world \<Rightarrow> session_kind \<Rightarrow> string \<Rightarrow> nat \<Rightarrow> bool" where
  "carries w K k i \<longleftrightarrow> i < next_session w \<and> s_kind (sessions w i) = K \<and> s_id (sessions w i) = k \<and>
     mf_remote_id (read_msg (sessions w i)) = k"

definition reg_ok :: "world \<Rightarrow> bool" where
  "reg_ok w \<longleftrightarrow> (\<forall>k i. fix_get k (cpeers w) = Some i \<longrightarrow> carries w Client_Session k i) \<and>
     (\<forall>k i. peer_get k (peers w) = Some i \<longrightarrow> carries w Server_Session k i)"

text \<open>A step that binds nothing new and leaves the ids of the sessions alone.\<close>

definition id_frame :: "world \<Rightarrow> world \<Rightarrow> bool" where
  "id_frame w w' \<longleftrightarrow> next_session w \<le> next_session w' \<and>
     (\<forall>i < next_session w. s_kind (sessions w' i) = s_kind (sessions w i) \<and> s_id (sessions w' i) = s_id (sessions w i) \<and>
        mf_remote_id (read_msg (sessions w' i)) = mf_remote_id (read_msg (sessions w i))) \<and>
     (\<forall>k i. fix_get k (cpeers w') = Some i \<longrightarrow> fix_get k (cpeers w) = Some i) \<and>
     (\<forall>k i. peer_get k (peers w') = Some i \<longrightarrow> peer_get k (peers w) = Some i)"

lemma reg_frame: "id_frame w w' \<Longrightarrow> reg_ok w \<Longrightarrow> reg_ok w'"
proof -
  assume f: "id_frame w w'" and r: "reg_ok w"
  have "carries w K k i \<Longrightarrow> carries w' K k i" for K k i
    using f by (auto simp: id_frame_def carries_def)
  with f r show "reg_ok w'" unfolding reg_ok_def id_frame_def by blast
qed

lemma reg_ok_bound:
  assumes "reg_ok w"
  shows "fix_get k (cpeers w) \<noteq> Some (next_session w)" "peer_get k (peers w) \<noteq> Some (next_session w)"
  using assms unfolding reg_ok_def carries_def by (metis less_irrefl)+

lemma id_frame_trans: "id_frame w w1 \<Longrightarrow> id_frame w1 w2 \<Longrightarrow> id_frame w w2"
  by (simp add: id_frame_def)

lemma id_frame_upd:
  assumes "\<And>s. s_kind (f s) = s_kind s" "\<And>s. s_id (f s) = s_id s"
    and "\<And>s. mf_remote_id (read_msg (f s)) = mf_remote_id (read_msg s)"
  shows "id_frame w (upd_session i f w)"
  using assms by (simp add: id_frame_def)

lemma id_frame_fields [simp]:
  "id_frame w (w\<lparr>posted := ps\<rparr>)" "id_frame w (w\<lparr>tasks := ts\<rparr>)" "id_frame w (post_write i m w)"
  "id_frame w (world_write i m w)" "id_frame w (after_body_get m w)" "id_frame w (on_close_erase i w)"
  "id_frame w (registe x p w)"
  by (auto simp: id_frame_def post_write_def world_write_def registe_def on_close_erase_def Let_def
      fix_get_erase_in peer_get_erase split: session_kind.split if_splits)

lemma id_frame_close [simp]: "id_frame w (close_plain i w)"
  unfolding close_plain_def
  by (rule id_frame_trans [OF id_frame_upd [of "\<lambda>s. s\<lparr>sock_shutdown := True\<rparr>" w i]]) simp_all

subsection \<open>Binding a new session\<close>

text \<open>No registry leads to session \<open>i\<close> yet.\<close>

definition fresh :: "nat \<Rightarrow> world \<Rightarrow> bool" where
  "fresh i w \<longleftrightarrow> (\<forall>k. fix_get k (cpeers w) \<noteq> Some i) \<and> (\<forall>k. peer_get k (peers w) \<noteq> Some i)"

lemma server_open_reg:
  assumes "reg_ok w" "fresh i w" "i < next_session w" "s_kind (sessions w i) = Server_Session"
  shows "reg_ok (snd (server_open i w))"
  using assms
  by (auto simp: server_open_def reg_ok_def fresh_def carries_def Let_def peer_get_set
      split: option.split if_splits)

lemma client_open_reg:
  assumes "reg_ok w" "fresh i w" "i < next_session w" "s_kind (sessions w i) = Client_Session"
    and "fix_connect (sessions w i) \<longrightarrow> mf_remote_id (read_msg (sessions w i)) = s_id (sessions w i)"
  shows "reg_ok (snd (client_open i w))"
proof (cases "fix_connect (sessions w i)")
  case True
  let ?s = "sessions w i"
  let ?c = "snd (fix_set (server_id ?s) (s_id ?s) (Some i) (cpeers w))"
  have look: "j = i \<and> k = s_id ?s \<or> fix_get k (cpeers w) = Some j" if "fix_get k ?c = Some j" for k j
  proof (cases "server_id ?s = [] \<or> s_id ?s = []")
    case True
    with that show ?thesis by (auto simp: fix_set_def)
  next
    case False
    with that fix_get_fix_set [of "server_id ?s" "s_id ?s" k "Some i" "cpeers w"] show ?thesis
      by (auto split: if_splits)
  qed
  have "snd (client_open i w) = w\<lparr>cpeers := ?c\<rparr>"
    using True by (simp add: client_open_def Let_def split: prod.split)
  with assms True look show ?thesis by (auto simp: reg_ok_def carries_def)
next
  case False
  show ?thesis
  proof (cases "remote_endpoint (sessions w i)")
    case None
    with False assms(1) show ?thesis by (simp add: client_open_def)
  next
    case (Some ep)
    obtain addr port where ep: "ep = (addr, port)" by (cases ep)
    let ?srv = "''server:'' @ addr @ '':'' @ show_nat port"
    obtain k c where kc: "client_set (connect_count (config w)) ?srv (Some i) (cpeers w) = (k, c)"
      by (cases "client_set (connect_count (config w)) ?srv (Some i) (cpeers w)")
    have look: "fix_get x c = (if k \<noteq> [] \<and> x = k then Some i else fix_get x (cpeers w))" for x
      using client_set_result [OF kc] by (auto split: if_splits)
    have old: "j \<noteq> i" if "fix_get x (cpeers w) = Some j \<or> peer_get x (peers w) = Some j" for x j
      using that assms(2) by (auto simp: fresh_def)
    from False Some ep kc assms(1,3,4) look old show ?thesis
      by (auto simp: client_open_def reg_ok_def carries_def Let_def split: if_splits)
  qed
qed

lemma session_start_reg:
  assumes "reg_ok w" "fresh i w" "i < next_session w"
    and "fix_connect (sessions w i) \<longrightarrow> mf_remote_id (read_msg (sessions w i)) = s_id (sessions w i)"
  shows "reg_ok (snd (session_start i w))"
proof -
  obtain r w1 where o': "session_open i w = (r, w1)" by (cases "session_open i w")
  have "reg_ok (snd (session_open i w))"
    using assms server_open_reg client_open_reg by (auto simp: session_open_def split: session_kind.split)
  with o' have w1: "reg_ok w1" by simp
  have "reg_ok (upd_session i (\<lambda>s. s\<lparr>connected := True, reading := reading s @ [Read_Head n]\<rparr>) w1)" for n
    by (rule reg_frame [OF id_frame_upd w1]) simp_all
  then show ?thesis
    using o' w1 reg_frame [OF id_frame_close w1]
    by (cases r) (auto simp: session_start_def act_defs)
qed

lemma handle_connect_reg:
  assumes "reg_ok w" "fresh i w" "i < next_session w"
    and "fix_connect (sessions w i) \<longrightarrow> mf_remote_id (read_msg (sessions w i)) = s_id (sessions w i)"
  shows "reg_ok (snd (handle_connect e i w))"
  using session_start_reg [OF assms] reg_frame [OF id_frame_close assms(1)]
  by (auto simp: handle_connect_def act_defs split: prod.split outcome.split)

lemma new_client_frame:
  assumes "reg_ok w"
  shows "reg_ok (new_client_session x ep w)" "fresh (next_session w) (new_client_session x ep w)"
    "next_session (new_client_session x ep w) = Suc (next_session w)"
proof -
  show "reg_ok (new_client_session x ep w)"
    by (rule reg_frame [OF _ assms]) (simp add: id_frame_def new_client_session_def Let_def)
  show "fresh (next_session w) (new_client_session x ep w)"
    using reg_ok_bound [OF assms] by (auto simp: fresh_def new_client_session_def Let_def)
qed (simp add: new_client_session_def Let_def)

lemma peer_handle_client_reg:
  assumes "reg_ok w"
  shows "reg_ok (snd (peer_handle_client_new x ep w))" "reg_ok (snd (peer_handle_client_fix x ep srv key w))"
proof -
  let ?w = "new_client_session x ep w" and ?i = "next_session w"
  note n = new_client_frame [OF assms, of x ep]
  have "\<not> fix_connect (sessions ?w ?i)" by (simp add: new_client_session_def session_new_def Let_def)
  with n have "reg_ok (snd (handle_connect e ?i ?w))" for e by (intro handle_connect_reg) auto
  then show "reg_ok (snd (peer_handle_client_new x ep w))"
    by (simp add: peer_handle_client_new_def Let_def)
  let ?f = "\<lambda>s. s\<lparr>fix_connect := True, s_id := key, server_id := srv,
         read_msg := (read_msg s)\<lparr>mf_remote_id := key, mf_server_id := srv\<rparr>\<rparr>"
  have "reg_ok (upd_session ?i ?f ?w)" "fresh ?i (upd_session ?i ?f ?w)"
    using n(1,2) by (auto simp: reg_ok_def fresh_def carries_def)
  then have "reg_ok (snd (handle_connect e ?i (upd_session ?i ?f ?w)))" for e
    using n(3) by (intro handle_connect_reg) auto
  then show "reg_ok (snd (peer_handle_client_fix x ep srv key w))"
    by (simp add: peer_handle_client_fix_def handle_connect_fix_id_def Let_def act_bind_do)
qed

subsection \<open>Handlers\<close>

lemma session_close_reg:
  assumes "reg_ok w"
  shows "reg_ok (snd (session_close x i w))"
proof -
  let ?w = "upd_session i (\<lambda>s. s\<lparr>sock_shutdown := True\<rparr>) w"
  have ok: "reg_ok (on_close_erase i ?w)"
    by (rule reg_frame [OF id_frame_trans [OF id_frame_upd id_frame_fields(6)] assms]) simp_all
  from peer_handle_client_reg(2) [OF ok, of x] ok show ?thesis
    by (auto simp: session_close_def act_do_def on_close_def Let_def snd_bind_do_ret
        intro: reg_frame [OF id_frame_fields(7)] split: option.split outcome.split)
qed

lemma decode_header_remote: "decode_header m = (r, h, m') \<Longrightarrow> mf_remote_id m' = mf_remote_id m"
  by (auto simp: decode_header_def Let_def split: if_splits)

lemma do_head_frame: "do_head i w = (r, w1) \<Longrightarrow> id_frame w w1"
  by (auto simp: do_head_def id_frame_def split: prod.splits dest: decode_header_remote)

lemma async_read_frame [simp]: "id_frame w (async_read i r w)"
  unfolding async_read_def by (rule id_frame_upd) simp_all

lemma handle_read_body_reg:
  assumes "reg_ok w"
  shows "reg_ok (snd (handle_read_body x e i w))"
proof -
  have "reg_ok (async_read i r (after_body_get m w))" for r m
    by (rule reg_frame [OF id_frame_trans [OF id_frame_fields(5) async_read_frame] assms])
  with session_close_reg [OF assms, of x i] show ?thesis by (simp add: handle_read_body_def do_body_def)
qed

lemma handle_read_header_reg:
  assumes "reg_ok w"
  shows "reg_ok (snd (handle_read_header x e i w))"
proof -
  obtain r w1 where d: "do_head i w = (r, w1)" by (cases "do_head i w")
  have w1: "reg_ok w1" by (rule reg_frame [OF do_head_frame [OF d] assms])
  have "reg_ok (async_read i op w1)" for op by (rule reg_frame [OF async_read_frame w1])
  with handle_read_body_reg [OF w1, of x e i] session_close_reg [OF w1, of x i] session_close_reg [OF assms, of x i] w1 show ?thesis
    by (auto simp: handle_read_header_def d Let_def)
qed

lemma read_done_reg: "reg_ok w \<Longrightarrow> reg_ok (snd (read_done x i bs w))"
  and read_failed_reg: "reg_ok w \<Longrightarrow> reg_ok (snd (read_failed x i w))"
proof -
  assume w: "reg_ok w"
  have "reg_ok (upd_session i (\<lambda>s. s\<lparr>reading := rs, read_msg := (read_msg s)\<lparr>mf_head := fill bs (mf_head (read_msg s))\<rparr>\<rparr>) w)"
    "reg_ok (upd_session i (\<lambda>s. s\<lparr>reading := rs, read_msg := (read_msg s)\<lparr>mf_body := fill bs (mf_body (read_msg s))\<rparr>\<rparr>) w)"
    "reg_ok (upd_session i (\<lambda>s. s\<lparr>reading := rs\<rparr>) w)" for rs
    by (rule reg_frame [OF id_frame_upd w]; simp)+
  note upd = this
  show "reg_ok (snd (read_done x i bs w))"
    using w handle_read_header_reg [OF upd(1), of x False i] handle_read_body_reg [OF upd(2), of x False i]
    by (simp add: read_done_def split: list.split read_op.split)
  show "reg_ok (snd (read_failed x i w))"
    using w handle_read_header_reg [OF upd(3), of x True i] handle_read_body_reg [OF upd(3), of x True i]
    by (simp add: read_failed_def split: list.split read_op.split)
qed

lemma write_done_reg:
  assumes "reg_ok w"
  shows "reg_ok (snd (handle_write x e i (upd_session i (\<lambda>s. s\<lparr>writing := bs\<rparr>) w)))"
proof -
  have w: "reg_ok (upd_session i (\<lambda>s. s\<lparr>writing := bs\<rparr>) w)"
    by (rule reg_frame [OF id_frame_upd assms]) simp_all
  have "reg_ok (upd_session i handle_write_ok (upd_session i (\<lambda>s. s\<lparr>writing := bs\<rparr>) w))"
    by (rule reg_frame [OF id_frame_upd w]) (simp_all add: write_defs)
  with session_close_reg [OF w, of x i] show ?thesis by (simp add: handle_write_def act_defs)
qed

lemma start_accept_reg:
  assumes "reg_ok w" "start_accept x w = (i, w1)"
  shows "reg_ok w1" "fresh i w1" "i < next_session w1" "\<not> fix_connect (sessions w1 i)"
proof -
  show "reg_ok w1"
    by (rule reg_frame [OF _ assms(1)]) (use assms(2) in \<open>auto simp: start_accept_def id_frame_def Let_def\<close>)
  show "fresh i w1"
    using assms(2) reg_ok_bound [OF assms(1)] by (auto simp: start_accept_def fresh_def Let_def)
qed (use assms(2) in \<open>auto simp: start_accept_def session_new_def Let_def\<close>)

lemma handle_accept_reg:
  assumes "reg_ok w" "start_accept x w = (i, w1)"
  shows "reg_ok (snd (handle_accept x e i (upd_session i (\<lambda>s. s\<lparr>remote_endpoint := ep\<rparr>) w1)))"
proof -
  let ?w = "upd_session i (\<lambda>s. s\<lparr>remote_endpoint := ep\<rparr>) w1"
  note a = start_accept_reg [OF assms]
  have w: "reg_ok ?w" by (rule reg_frame [OF id_frame_upd a(1)]) simp_all
  have s: "reg_ok (snd (session_start i ?w))"
    using a(2-4) w by (intro session_start_reg) (auto simp: fresh_def)
  have n: "reg_ok (snd (start_accept x w'))" if "reg_ok w'" for w'
    using start_accept_reg(1) [OF that] by (metis prod.collapse)
  show ?thesis
    using s n [OF s] n [OF w] by (auto simp: handle_accept_def act_bind_def split: prod.splits outcome.splits)
qed

lemma net_step_reg: "net_step x w w' \<Longrightarrow> reg_ok w \<Longrightarrow> reg_ok w'"
proof (induction rule: net_step.induct)
  case (run_posted w i m ps)
  show ?case by (rule reg_frame [OF id_frame_trans [OF id_frame_fields(1,4)] run_posted(2)])
next
  case (connect_fix ep srv key w c w1)
  then show ?case
    using peer_handle_client_reg(2) [of w x ep srv key] by (auto intro: reg_frame [OF id_frame_fields(7)])
next
  case (connect_new ep w c w1)
  then show ?case
    using peer_handle_client_reg(1) [of w x ep] by (auto intro: reg_frame [OF id_frame_fields(7)])
next
  case (connect_throws ep w w1)
  then show ?case using peer_handle_client_reg(1) [of w x ep] by simp
next
  case (write_err w i b bs r w')
  with write_done_reg [OF write_err(3), of x True i bs] show ?case by simp
next
  case (read_ok i bs w r w')
  with read_done_reg [OF read_ok(2), of x i bs] show ?case by simp
next
  case (read_err i w r w')
  with read_failed_reg [OF read_err(2), of x i] show ?case by simp
next
  case (accept w i w1 err ep j w')
  with handle_accept_reg [OF accept(3,1), of err ep] show ?case by simp
qed (auto intro: reg_frame [OF id_frame_fields(2)] reg_frame [OF id_frame_fields(3)] reg_frame [OF id_frame_fields(4)]
    write_done_reg)

lemma only_writes_frame: "only_writes w w' \<Longrightarrow> id_frame w w'"
  by (simp add: only_writes_def id_frame_def)

lemma work_once_reg:
  assumes "work_once X mx w = Some w'" "reg_ok w"
  shows "reg_ok w'"
proof -
  have "id_frame (w\<lparr>tasks := q\<rparr>) w'" if "do_work X cid h data (w\<lparr>tasks := q\<rparr>) = Some w'" for cid h data q
    using do_work_safety [of X cid h data "w\<lparr>tasks := q\<rparr>"] that by (auto intro: only_writes_frame)
  then have "w' = w \<or> (\<exists>q. id_frame (w\<lparr>tasks := q\<rparr>) w')"
    using assms(1) by (fastforce simp: work_once_def split: option.splits prod.splits)
  then show ?thesis
    using assms(2) reg_frame [OF id_frame_trans [OF id_frame_fields(2)]] by blast
qed

lemma relay_reach_reg: "(relay_step x X mx)\<^sup>*\<^sup>* (world_new c) w \<Longrightarrow> reg_ok w"
proof (induction rule: rtranclp_induct)
  case base
  then show ?case by (simp add: reg_ok_def world_new_def fix_get_def client_map_new_def peer_get_def)
next
  case (step w w')
  from step(2,3) show ?case by (cases rule: relay_step.cases) (auto intro: net_step_reg work_once_reg)
qed

subsection \<open>Properties\<close>

text \<open>C4: Ids are meaningful. In every state reachable by any interleaving of handlers and workers, a
  session found in the client map under an id is an outgoing session with this id, one found in
  the server map an accepted session with this id, and the messages it reads carry the id, so that
  an answer addressed by a task's id is written to a session of that id; one session is never
  registered under two ids, nor in both maps.\<close>

theorem registered_sessions_carry_id:
  assumes "(relay_step x X mx)\<^sup>*\<^sup>* (world_new c) w"
  shows "(\<forall>k i. fix_get k (cpeers w) = Some i \<longrightarrow> s_kind (sessions w i) = Client_Session \<and> s_id (sessions w i) = k \<and>
        mf_remote_id (read_msg (sessions w i)) = k) \<and>
     (\<forall>k i. peer_get k (peers w) = Some i \<longrightarrow> s_kind (sessions w i) = Server_Session \<and> s_id (sessions w i) = k \<and>
        mf_remote_id (read_msg (sessions w i)) = k)"
  using relay_reach_reg [OF assms] by (simp add: reg_ok_def carries_def)

theorem registered_sessions_carry_id_witness:
  "s_id (sessions (snd (peer_handle_client_fix demo_net (''10.0.0.1'', 80) ''server:10.0.0.1:80'' ''server:10.0.0.1:80:0''
     (world_new (configwrap_new 4 0)))) 0) = ''server:10.0.0.1:80:0''"
proof -
  let ?a = "peer_handle_client_fix demo_net (''10.0.0.1'', 80) ''server:10.0.0.1:80'' ''server:10.0.0.1:80:0'' (world_new (configwrap_new 4 0))"
  have "fst ?a = Ret (0, 0)" by code_simp
  then have a: "?a = (Ret (0, 0), snd ?a)" by (simp add: prod_eq_iff)
  have "(relay_step demo_net demo_task 4)\<^sup>*\<^sup>* (world_new (configwrap_new 4 0)) (registe demo_net (0, 0) (snd ?a))"
    by (rule r_into_rtranclp, rule relay_step.network, rule net_step.connect_fix [OF a])
  from registered_sessions_carry_id [OF this]
  have "fix_get ''server:10.0.0.1:80:0'' (cpeers (snd ?a)) = Some 0 \<Longrightarrow>
      s_id (sessions (snd ?a) 0) = ''server:10.0.0.1:80:0''"
    by (simp add: registe_def post_write_def Let_def)
  moreover have "fix_get ''server:10.0.0.1:80:0'' (cpeers (snd ?a)) = Some 0" by code_simp
  ultimately show ?thesis by simp
qed

end
