(* ===== verification/IoThreads.thy ===== *)
theory IoThreads
  imports BPrelude
begin

text \<open>
  The threads that run the handlers: \<^verbatim>\<open>run\<close> and \<^verbatim>\<open>stop\<close> of \<^verbatim>\<open>io_service_provide\<close>
  (include/io_service_provide.h), \<^verbatim>\<open>run\<close> and \<^verbatim>\<open>join\<close> of \<^verbatim>\<open>peer_handle_server\<close>
  (src/peer_handle_server.cpp). Both are a group of io services and of threads, each inside
  \<^verbatim>\<open>io_service::run\<close> of one service. That call is asio's and modelled by its documentation: it runs
  ready handlers one after another and returns when its service is stopped, after the handler it is
  in, or when the service has neither work nor handlers left.
\<close>

subsection \<open>Services and threads\<close>

text \<open>A handler is the number of the session it belongs to. A session's socket is made on one service, the
  one \<^verbatim>\<open>get_io_service\<close> gave, and its handlers are posted there: \<open>io_home\<close>. \<open>io_work\<close> counts the \<^verbatim>\<open>work\<close>
  objects.\<close>

record io_service =
  io_stopped :: bool
  io_work :: nat
  io_ready :: "nat list"

datatype run_pc = Run_Wait | Run_Handler nat | Run_Returned

record io_group =
  io_home :: "nat \<Rightarrow> nat"
  io_services :: "io_service list"
  run_threads :: "(nat \<times> run_pc) list"

definition io_service_new :: io_service where
  "io_service_new = \<lparr>io_stopped = False, io_work = 1, io_ready = []\<rparr>"

definition provide_new :: "(nat \<Rightarrow> nat) \<Rightarrow> nat \<Rightarrow> io_group" where
  "provide_new home n = \<lparr>io_home = home, io_services = replicate n io_service_new, run_threads = []\<rparr>"

definition server_group_new :: io_group where
  "server_group_new = \<lparr>io_home = (\<lambda>h. 0), io_services = [io_service_new], run_threads = []\<rparr>"

definition create_thread :: "nat \<Rightarrow> io_group \<Rightarrow> io_group" where
  "create_thread i g = g\<lparr>run_threads := run_threads g @ [(i, Run_Wait)]\<rparr>"

text \<open>One turn of the loops of \<^verbatim>\<open>run\<close>, whose index is the number of threads made so far.\<close>

definition provide_run_next :: "io_group \<Rightarrow> io_group option" where
  "provide_run_next g =
     (let i = length (run_threads g) in if i < length (io_services g) then Some (create_thread i g) else None)"

definition server_run_next :: "io_group \<Rightarrow> io_group option" where
  "server_run_next g = (if length (run_threads g) < 4 then Some (create_thread 0 g) else None)"

definition stop_service :: "nat \<Rightarrow> io_group \<Rightarrow> io_group" where
  "stop_service i g = g\<lparr>io_services := (io_services g)[i := (io_services g ! i)\<lparr>io_stopped := True\<rparr>]\<rparr>"

definition post_handler :: "nat \<Rightarrow> io_group \<Rightarrow> io_group" where
  "post_handler h g = (let i = io_home g h; s = io_services g ! i
     in g\<lparr>io_services := (io_services g)[i := s\<lparr>io_ready := io_ready s @ [h]\<rparr>]\<rparr>)"

definition joined :: "io_group \<Rightarrow> bool" where
  "joined g = list_all (\<lambda>t. snd t = Run_Returned) (run_threads g)"

text \<open>What thread \<open>k\<close> does next; asio picks any ready handler, the one at \<open>j\<close>.\<close>

definition set_pc :: "nat \<Rightarrow> run_pc \<Rightarrow> io_group \<Rightarrow> io_group" where
  "set_pc k pc g = g\<lparr>run_threads := (run_threads g)[k := (fst (run_threads g ! k), pc)]\<rparr>"

definition run_next :: "nat \<Rightarrow> nat \<Rightarrow> io_group \<Rightarrow> io_group option" where
  "run_next k j g =
     (if length (run_threads g) \<le> k then None
      else case run_threads g ! k of (i, pc) \<Rightarrow> (case pc of
          Run_Wait \<Rightarrow>
            let s = io_services g ! i
            in if io_stopped s \<or> (io_work s = 0 \<and> io_ready s = []) then Some (set_pc k Run_Returned g)
               else if j < length (io_ready s)
               then Some (set_pc k (Run_Handler (io_ready s ! j))
                 (g\<lparr>io_services := (io_services g)[i := s\<lparr>io_ready := take j (io_ready s) @ drop (Suc j) (io_ready s)\<rparr>]\<rparr>))
               else None
        | Run_Handler h \<Rightarrow> Some (set_pc k Run_Wait g)
        | Run_Returned \<Rightarrow> None))"

inductive group_step :: "io_group \<Rightarrow> io_group \<Rightarrow> bool" where
  post: "io_home g h < length (io_services g) \<Longrightarrow> group_step g (post_handler h g)"
| run: "run_next k j g = Some g' \<Longrightarrow> group_step g g'"

inductive_cases group_stepE: "group_step g g'"

subsection \<open>Invariant\<close>

definition stopped :: "nat \<Rightarrow> io_group \<Rightarrow> bool" where
  "stopped i g = io_stopped (io_services g ! i)"

text \<open>Every thread is on a service of the group, every service has its \<^verbatim>\<open>work\<close> object, only threads
  on stopped services have returned, and handlers are where they belong.\<close>

definition thread_ok :: "io_group \<Rightarrow> nat \<times> run_pc \<Rightarrow> bool" where
  "thread_ok g t \<longleftrightarrow> fst t < length (io_services g) \<and> (snd t = Run_Returned \<longrightarrow> stopped (fst t) g) \<and>
     (\<forall>h. snd t = Run_Handler h \<longrightarrow> io_home g h = fst t)"

definition service_ok :: "io_group \<Rightarrow> nat \<Rightarrow> io_service \<Rightarrow> bool" where
  "service_ok g i s \<longleftrightarrow> 0 < io_work s \<and> (\<forall>h \<in> set (io_ready s). io_home g h = i)"

definition group_ok :: "io_group \<Rightarrow> bool" where
  "group_ok g \<longleftrightarrow> (\<forall>i < length (io_services g). service_ok g i (io_services g ! i)) \<and>
     (\<forall>t \<in> set (run_threads g). thread_ok g t)"

lemma group_okD:
  assumes "group_ok g" "k < length (run_threads g)" "run_threads g ! k = (i, pc)"
  shows "thread_ok g (i, pc) \<and> i < length (io_services g) \<and> service_ok g i (io_services g ! i)"
proof -
  have "(i, pc) \<in> set (run_threads g)" using assms(2,3) by (metis nth_mem)
  with assms(1) show ?thesis by (auto simp: group_ok_def thread_ok_def)
qed

lemma group_ok_new: "group_ok (provide_new home n)" "group_ok server_group_new"
  by (simp_all add: group_ok_def service_ok_def provide_new_def server_group_new_def io_service_new_def)

lemma group_ok_create: "group_ok g \<Longrightarrow> i < length (io_services g) \<Longrightarrow> group_ok (create_thread i g)"
  by (auto simp: group_ok_def service_ok_def thread_ok_def create_thread_def stopped_def)

lemma run_next_cases:
  assumes "run_next k j g = Some g'"
  obtains
    (returns) i where "k < length (run_threads g)" "run_threads g ! k = (i, Run_Wait)" "g' = set_pc k Run_Returned g"
      "stopped i g \<or> io_work (io_services g ! i) = 0"
  | (takes) i h r where "k < length (run_threads g)" "run_threads g ! k = (i, Run_Wait)" "\<not> stopped i g"
      "h \<in> set (io_ready (io_services g ! i))" "set r \<subseteq> set (io_ready (io_services g ! i))"
      "g' = set_pc k (Run_Handler h) (g\<lparr>io_services := (io_services g)[i := (io_services g ! i)\<lparr>io_ready := r\<rparr>]\<rparr>)"
  | (finishes) i h where "k < length (run_threads g)" "run_threads g ! k = (i, Run_Handler h)" "g' = set_pc k Run_Wait g"
proof -
  from assms have k: "k < length (run_threads g)" by (simp add: run_next_def split: if_splits)
  obtain i pc where t: "run_threads g ! k = (i, pc)" by (cases "run_threads g ! k")
  show ?thesis
  proof (cases "pc = Run_Wait \<and> \<not> (stopped i g \<or> (io_work (io_services g ! i) = 0 \<and> io_ready (io_services g ! i) = []))")
    case True
    let ?q = "io_ready (io_services g ! i)"
    from True assms k t have j: "j < length ?q"
      and g': "g' = set_pc k (Run_Handler (?q ! j))
        (g\<lparr>io_services := (io_services g)[i := (io_services g ! i)\<lparr>io_ready := take j ?q @ drop (Suc j) ?q\<rparr>]\<rparr>)"
      by (auto simp: run_next_def stopped_def Let_def split: if_splits)
    have "set (take j ?q @ drop (Suc j) ?q) \<subseteq> set ?q" by (auto dest: in_set_takeD in_set_dropD)
    with True k t j g' show ?thesis by (intro takes [of i "?q ! j" "take j ?q @ drop (Suc j) ?q"]) auto
  next
    case False
    with assms k t show ?thesis
      by (cases pc) (auto simp: run_next_def stopped_def Let_def intro: returns finishes)
  qed
qed

lemma length_stop_service [simp]: "length (io_services (stop_service i g)) = length (io_services g)"
  and threads_stop_service [simp]: "run_threads (stop_service i g) = run_threads g"
  by (simp_all add: stop_service_def)

lemma stopped_stop_service:
  "i < length (io_services g) \<Longrightarrow> stopped j (stop_service i g) \<longleftrightarrow> j = i \<or> stopped j g"
  by (cases "j = i") (simp_all add: stopped_def stop_service_def)

lemma home_stop_service [simp]: "io_home (stop_service i g) = io_home g"
  by (simp add: stop_service_def)

lemma group_ok_update:
  assumes "group_ok g" "i < length (io_services g)" "service_ok g i s" "stopped i g \<longrightarrow> io_stopped s"
  shows "group_ok (g\<lparr>io_services := (io_services g)[i := s]\<rparr>)"
proof -
  have "stopped j g \<Longrightarrow> stopped j (g\<lparr>io_services := (io_services g)[i := s]\<rparr>)" for j
    using assms(2,4) by (cases "j = i") (simp_all add: stopped_def)
  with assms(1-3) show ?thesis
    by (auto simp: group_ok_def thread_ok_def service_ok_def nth_list_update)
qed

lemma group_ok_stop_service:
  assumes "group_ok g" "i < length (io_services g)"
  shows "group_ok (stop_service i g)"
proof -
  have "service_ok g i ((io_services g ! i)\<lparr>io_stopped := True\<rparr>)" using assms by (simp add: group_ok_def service_ok_def)
  then show ?thesis using group_ok_update [OF assms] by (simp add: stop_service_def)
qed

text \<open>What a step of the group leaves: the services' stop flags and every thread's service.\<close>

lemma post_handler_keeps:
  "io_home g h < length (io_services g) \<Longrightarrow> stopped j (post_handler h g) = stopped j g"
  "length (io_services (post_handler h g)) = length (io_services g)"
  "run_threads (post_handler h g) = run_threads g"
  by (cases "j = io_home g h") (simp_all add: stopped_def post_handler_def Let_def)

lemma threads_set_pc [simp]:
  "io_services (set_pc k pc g) = io_services g"
  "map fst (run_threads (set_pc k pc g)) = map fst (run_threads g)"
  "stopped j (set_pc k pc g) = stopped j g"
proof -
  show "map fst (run_threads (set_pc k pc g)) = map fst (run_threads g)"
    by (cases "k < length (run_threads g)") (simp_all add: set_pc_def map_update list_update_same_conv list_update_beyond not_less)
qed (simp_all add: set_pc_def stopped_def)

lemma run_next_keeps:
  assumes "run_next k j g = Some g'"
  shows "length (io_services g') = length (io_services g) \<and> map fst (run_threads g') = map fst (run_threads g) \<and>
    (\<forall>i. stopped i g' = stopped i g)"
  using assms
proof (cases rule: run_next_cases)
  case (takes i h r)
  have "stopped l (g\<lparr>io_services := (io_services g)[i := (io_services g ! i)\<lparr>io_ready := r\<rparr>]\<rparr>) = stopped l g" for l
    by (cases "i < length (io_services g)") (auto simp: stopped_def nth_list_update list_update_beyond not_less)
  moreover have "map fst (run_threads (set_pc k (Run_Handler h) (g\<lparr>io_services := ss\<rparr>))) = map fst (run_threads g)" for ss
    by simp
  ultimately show ?thesis unfolding takes(6) threads_set_pc(1,3) by (intro conjI allI) simp_all
qed simp_all

lemma group_step_keeps:
  assumes "group_step g g'"
  shows "length (io_services g') = length (io_services g) \<and> map fst (run_threads g') = map fst (run_threads g) \<and>
    (\<forall>i. stopped i g' = stopped i g)"
  using assms by (elim group_stepE) (auto simp: post_handler_keeps run_next_keeps)

lemma group_ok_set_pc:
  assumes "group_ok g" "thread_ok g (fst (run_threads g ! k), pc)"
  shows "group_ok (set_pc k pc g)"
proof -
  have "set (run_threads (set_pc k pc g)) \<subseteq> insert (fst (run_threads g ! k), pc) (set (run_threads g))"
    by (simp add: set_pc_def set_update_subset_insert)
  moreover have "thread_ok (set_pc k pc g) t = thread_ok g t" "service_ok (set_pc k pc g) i s = service_ok g i s" for t i s
    by (simp_all add: thread_ok_def service_ok_def) (simp_all add: set_pc_def)
  ultimately show ?thesis using assms by (auto simp: group_ok_def)
qed

lemma group_ok_step:
  assumes "group_step g g'" "group_ok g"
  shows "group_ok g'"
  using assms(1)
proof (cases rule: group_step.cases)
  case (post h)
  have "service_ok g (io_home g h) ((io_services g ! io_home g h)\<lparr>io_ready := io_ready (io_services g ! io_home g h) @ [h]\<rparr>)"
    using assms(2) post(2) by (auto simp: group_ok_def service_ok_def)
  with post group_ok_update [OF assms(2) post(2)] show ?thesis by (simp add: post_handler_def Let_def stopped_def)
next
  case (run k j)
  from run show ?thesis
  proof (cases rule: run_next_cases)
    case (returns i)
    with group_okD [OF assms(2) returns(1,2)] assms(2) show ?thesis
      by (auto intro!: group_ok_set_pc simp: thread_ok_def service_ok_def)
  next
    case (takes i h r)
    let ?g = "g\<lparr>io_services := (io_services g)[i := (io_services g ! i)\<lparr>io_ready := r\<rparr>]\<rparr>"
    note ok = group_okD [OF assms(2) takes(1,2)]
    then have "group_ok ?g"
      using takes(5) by (intro group_ok_update [OF assms(2)]) (auto simp: service_ok_def stopped_def)
    moreover have "thread_ok ?g (fst (run_threads ?g ! k), Run_Handler h)"
      using ok takes(2,4) by (auto simp: thread_ok_def service_ok_def)
    ultimately show ?thesis unfolding takes(6) by (rule group_ok_set_pc)
  next
    case (finishes i h)
    with group_okD [OF assms(2) finishes(1,2)] assms(2) show ?thesis
      by (auto intro!: group_ok_set_pc simp: thread_ok_def)
  qed
qed

subsection \<open>Handlers of one service\<close>

text \<open>With one thread for each service no two threads are in handlers of one session.\<close>

lemma one_handler:
  assumes "distinct (map fst (run_threads g))" "group_ok g" "a < length (run_threads g)" "b < length (run_threads g)"
    "snd (run_threads g ! a) = Run_Handler h" "snd (run_threads g ! b) = Run_Handler h"
  shows "a = b"
proof -
  have "fst (run_threads g ! a) = fst (run_threads g ! b)"
    using assms(2-6) by (metis group_ok_def nth_mem thread_ok_def)
  then show ?thesis using assms(1,3,4) nth_eq_iff_index_eq [of "map fst (run_threads g)" a b] by simp
qed

lemma provide_run_next_fst:
  assumes "provide_run_next g = Some g'" "map fst (run_threads g) = [0..<length (run_threads g)]"
  shows "map fst (run_threads g') = [0..<length (run_threads g')] \<and> length (run_threads g') = Suc (length (run_threads g)) \<and>
    length (run_threads g') \<le> length (io_services g) \<and> io_services g' = io_services g"
  using assms by (auto simp: provide_run_next_def create_thread_def Let_def split: if_splits)

subsection \<open>After the stop\<close>

text \<open>A stopped group's threads have at most two steps each left.\<close>

fun pc_left :: "run_pc \<Rightarrow> nat" where
  "pc_left (Run_Handler h) = 2"
| "pc_left Run_Wait = 1"
| "pc_left Run_Returned = 0"

definition group_left :: "io_group \<Rightarrow> nat" where
  "group_left g = sum_list (map (pc_left \<circ> snd) (run_threads g))"

lemma pc_left_le: "pc_left pc \<le> 2"
  by (cases pc) simp_all

lemma group_left_le: "group_left g \<le> 2 * length (run_threads g)"
proof -
  have "sum_list (map (pc_left \<circ> snd) ts) \<le> 2 * length ts" for ts :: "(nat \<times> run_pc) list"
  proof (induction ts)
    case (Cons t ts)
    with pc_left_le [of "snd t"] show ?case by simp
  qed simp
  then show ?thesis by (simp add: group_left_def)
qed

lemma group_left_create: "group_left (create_thread i g) = Suc (group_left g)"
  by (simp add: group_left_def create_thread_def)

lemma group_left_set_pc:
  "k < length (run_threads g) \<Longrightarrow> group_left (set_pc k pc g) + pc_left (snd (run_threads g ! k)) = group_left g + pc_left pc"
  unfolding group_left_def set_pc_def
  by (simp add: map_update sum_list_update) (metis elem_le_sum_list length_map le_add_diff_inverse2 comp_apply nth_map trans_le_add1)

lemma group_left_post: "group_left (post_handler h g) = group_left g"
  by (simp add: group_left_def post_handler_keeps)

lemma run_next_less:
  assumes "run_next k j g = Some g'" "stopped (fst (run_threads g ! k)) g"
  shows "group_left g' < group_left g"
  using assms(1)
proof (cases rule: run_next_cases)
  case returns
  with group_left_set_pc [OF returns(1), of Run_Returned] show ?thesis by simp
next
  case takes
  with assms(2) show ?thesis by simp
next
  case finishes
  with group_left_set_pc [OF finishes(1), of Run_Wait] show ?thesis by simp
qed

lemma group_step_left:
  assumes "group_step g g'" "group_ok g" "\<And>i. i < length (io_services g) \<Longrightarrow> stopped i g"
  shows "group_left g' \<le> group_left g"
  using assms(1)
proof (cases rule: group_step.cases)
  case post
  then show ?thesis by (simp add: group_left_post)
next
  case (run k j)
  then have "k < length (run_threads g)" by (auto simp: run_next_def split: if_splits)
  with assms(2,3) have "stopped (fst (run_threads g ! k)) g" by (simp add: group_ok_def thread_ok_def)
  with run_next_less [OF run] show ?thesis by simp
qed

text \<open>Until every thread has returned one of them has a step, whatever is ready: \<^verbatim>\<open>join\<close> ends.\<close>

lemma some_thread_steps:
  assumes "\<not> joined g" "group_ok g" "\<And>i. i < length (io_services g) \<Longrightarrow> stopped i g"
  shows "\<exists>k g'. run_next k 0 g = Some g' \<and> group_left g' < group_left g"
proof -
  from assms(1) obtain t where "t \<in> set (run_threads g)" "snd t \<noteq> Run_Returned"
    unfolding joined_def list_all_iff by blast
  then obtain k where k: "k < length (run_threads g)" "snd (run_threads g ! k) \<noteq> Run_Returned"
    by (metis in_set_conv_nth)
  have "stopped (fst (run_threads g ! k)) g" using k(1) assms(2,3) by (simp add: group_ok_def thread_ok_def)
  moreover from k this have "\<exists>g'. run_next k 0 g = Some g'"
    by (auto simp: run_next_def stopped_def Let_def split: prod.split run_pc.split)
  ultimately show ?thesis using run_next_less by blast
qed

text \<open>No thread starts a handler of a stopped service.\<close>

definition handling :: "io_group \<Rightarrow> bool" where
  "handling g = list_ex (\<lambda>t. snd t \<noteq> Run_Wait \<and> snd t \<noteq> Run_Returned) (run_threads g)"

lemma joined_not_handling: "joined g \<Longrightarrow> \<not> handling g"
  by (auto simp: joined_def handling_def list_all_iff list_ex_iff)

lemma handling_set_pc:
  "handling (set_pc k pc g) \<Longrightarrow> pc = Run_Wait \<or> pc = Run_Returned \<Longrightarrow> handling g"
proof -
  assume h: "handling (set_pc k pc g)" and pc: "pc = Run_Wait \<or> pc = Run_Returned"
  from h obtain t where "t \<in> set (run_threads (set_pc k pc g))" "snd t \<noteq> Run_Wait" "snd t \<noteq> Run_Returned"
    by (auto simp: handling_def list_ex_iff)
  moreover from this have "t \<in> insert (fst (run_threads g ! k), pc) (set (run_threads g))"
    using set_update_subset_insert [of "run_threads g" k] by (auto simp: set_pc_def)
  ultimately show "handling g" using pc by (force simp: handling_def list_ex_iff)
qed

lemma handling_stops:
  assumes "group_step g g'" "group_ok g" "\<And>i. i < length (io_services g) \<Longrightarrow> stopped i g" "handling g'"
  shows "handling g"
  using assms(1)
proof (cases rule: group_step.cases)
  case post
  with assms(4) show ?thesis by (simp add: handling_def post_handler_keeps)
next
  case (run k j)
  have st: "stopped (fst (run_threads g ! k)) g" if "k < length (run_threads g)"
    using that assms(2,3) by (simp add: group_ok_def thread_ok_def)
  from run show ?thesis
  proof (cases rule: run_next_cases)
    case takes
    with st show ?thesis by simp
  qed (use assms(4) handling_set_pc in blast)+
qed

lemma handling_create [simp]: "handling (create_thread i g) = handling g"
  by (simp add: handling_def create_thread_def)

end
