(* ===== verification/Uncaught.thy ===== *)
theory Uncaught
  imports Connections
begin

text \<open>
  Exceptions that leave a handler. asio lets an exception of a handler out of \<^verbatim>\<open>io_service::run\<close>, and
  that call is all a thread of src/peer_handle_server.cpp or include/io_service_provide.h does, so the
  exception leaves the thread's function and \<^verbatim>\<open>boost::thread\<close> ends the process with
  \<^verbatim>\<open>std::terminate\<close>. Here: which handlers can throw. The handlers of a session only do when they
  reconnect, which no session made by the program does; \<^verbatim>\<open>handle_accept\<close> does when the peer has gone.
  The server-list watcher, called back by a cache that is not part of the program, has no \<^verbatim>\<open>try\<close> either.
\<close>

subsection \<open>Handlers that throw\<close>

inductive accept_throws :: "('x) net_ext_scheme \<Rightarrow> world \<Rightarrow> world \<Rightarrow> bool" for x where
  "start_accept x w = (i, w1) \<Longrightarrow>
     handle_accept x err i (upd_session i (\<lambda>s. s\<lparr>remote_endpoint := ep\<rparr>) w1) = (Throws, w') \<Longrightarrow> accept_throws x w w'"

inductive session_throws :: "('x) net_ext_scheme \<Rightarrow> world \<Rightarrow> world \<Rightarrow> bool" for x where
  write_err: "writing (sessions w i) = b # bs \<Longrightarrow>
     handle_write x True i (upd_session i (\<lambda>s. s\<lparr>writing := bs\<rparr>) w) = (Throws, w') \<Longrightarrow> session_throws x w w'"
| read_ok: "read_done x i bs w = (Throws, w') \<Longrightarrow> session_throws x w w'"
| read_err: "read_failed x i w = (Throws, w') \<Longrightarrow> session_throws x w w'"

inductive_cases accept_throwsE: "accept_throws x w w'"

text \<open>\<^verbatim>\<open>handle_accept\<close> throws exactly when \<^verbatim>\<open>remote_endpoint()\<close> does; nothing is registered then.\<close>

lemma server_start_cases:
  assumes "s_kind (sessions w i) = Server_Session"
  shows "fst (session_start i w) = Throws \<longleftrightarrow> remote_endpoint (sessions w i) = None"
    "remote_endpoint (sessions w i) = None \<Longrightarrow> session_start i w = (Throws, w)"
  using assms by (auto simp: session_start_def session_open_def server_open_def act_defs Let_def split: option.split)

lemma accept_throws_iff:
  assumes "start_accept x w = (i, w1)"
  shows "accept_throws x w w' \<longleftrightarrow> w' = upd_session i (\<lambda>s. s\<lparr>remote_endpoint := None\<rparr>) w1"
proof -
  let ?w = "\<lambda>ep. upd_session i (\<lambda>s. s\<lparr>remote_endpoint := ep\<rparr>) w1"
  have kind: "s_kind (sessions (?w ep) i) = Server_Session" for ep
    using assms by (auto simp: start_accept_def upd_session_def Let_def)
  have throws: "handle_accept x err i (?w ep) = (Throws, w') \<longleftrightarrow> \<not> err \<and> ep = None \<and> w' = ?w ep" for err ep
    using server_start_cases [OF kind, of ep]
    by (cases "session_start i (?w ep)") (auto simp: handle_accept_def act_bind_def upd_session_def split: outcome.splits prod.splits)
  show ?thesis
    using assms by (auto simp: accept_throws.simps throws)
qed

subsection \<open>No session reconnects\<close>

definition no_reconnect :: "world \<Rightarrow> bool" where
  "no_reconnect w \<longleftrightarrow> (\<forall>i. \<not> is_auto_reconnect (sessions w i))"

lemma no_reconnect_new: "no_reconnect (world_new c)"
  by (simp add: no_reconnect_def)

lemma no_reconnect_upd:
  "no_reconnect w \<Longrightarrow> (\<And>s. is_auto_reconnect (f s) = is_auto_reconnect s) \<Longrightarrow> no_reconnect (upd_session i f w)"
  by (simp add: no_reconnect_def upd_session_def)

lemma no_reconnect_fields [simp]:
  "no_reconnect (w\<lparr>peers := p\<rparr>) = no_reconnect w" "no_reconnect (w\<lparr>cpeers := c\<rparr>) = no_reconnect w"
  "no_reconnect (w\<lparr>tasks := t\<rparr>) = no_reconnect w" "no_reconnect (w\<lparr>posted := q\<rparr>) = no_reconnect w"
  by (simp_all add: no_reconnect_def)

lemma no_reconnect_close_plain: "no_reconnect w \<Longrightarrow> no_reconnect (close_plain i w)"
  by (auto simp: close_plain_def on_close_erase_def Let_def intro: no_reconnect_upd split: session_kind.split)

lemma keeps_open: "keeps no_reconnect (session_open i)"
  by (auto simp: keeps_def session_open_def server_open_def client_open_def Let_def intro!: no_reconnect_upd
      split: session_kind.split option.split prod.split)

lemma keeps_session_start: "keeps no_reconnect (session_start i)"
  unfolding session_start_def
  by (intro keeps_bind keeps_open) (auto intro!: keeps_do no_reconnect_close_plain no_reconnect_upd)

lemma keeps_handle_connect: "keeps no_reconnect (handle_connect e i)"
  using keeps_session_start by (auto simp: handle_connect_def intro!: keeps_bind keeps_do no_reconnect_close_plain)

lemma no_reconnect_client: "no_reconnect w \<Longrightarrow> no_reconnect (new_client_session x ep w)"
  by (simp add: no_reconnect_def new_client_session_def Let_def)

lemma keeps_peer_handle_client:
  "keeps no_reconnect (peer_handle_client_new x ep)" "keeps no_reconnect (peer_handle_client_fix x ep srv key)"
proof -
  have "keeps no_reconnect (act_bind (handle_connect e i) (\<lambda>c. act_ret (i, c)))" for e i
    using keeps_handle_connect by (auto intro!: keeps_bind)
  with no_reconnect_client show "keeps no_reconnect (peer_handle_client_new x ep)"
    unfolding keeps_def peer_handle_client_new_def Let_def by blast
  have "keeps no_reconnect (act_bind (handle_connect_fix_id e srv key i) (\<lambda>c. act_ret (i, c)))" for e i
    using keeps_handle_connect unfolding handle_connect_fix_id_def
    by (auto intro!: keeps_bind keeps_do no_reconnect_upd)
  with no_reconnect_client show "keeps no_reconnect (peer_handle_client_fix x ep srv key)"
    unfolding keeps_def peer_handle_client_fix_def Let_def by blast
qed

lemma no_reconnect_registe [simp]: "no_reconnect (registe x c w) = no_reconnect w"
  by (simp add: registe_def post_write_def Let_def)

text \<open>Without reconnection the handlers of a session return.\<close>

lemma session_close_returns:
  assumes "no_reconnect w"
  shows "fst (session_close x i w) = Ret 0 \<and> no_reconnect (snd (session_close x i w))"
proof -
  let ?w = "upd_session i (\<lambda>s. s\<lparr>sock_shutdown := True\<rparr>) w"
  have n: "no_reconnect ?w" using assms by (rule no_reconnect_upd) simp
  then have "\<not> reconnects (sessions ?w i)" unfolding reconnects_def no_reconnect_def by blast
  then have "session_close x i w = (Ret 0, on_close_erase i ?w)"
    by (simp add: session_close_def on_close_def act_defs Let_def)
  moreover have "no_reconnect (on_close_erase i ?w)"
    using n by (simp add: on_close_erase_def Let_def split: session_kind.split)
  ultimately show ?thesis by simp
qed

lemma handle_read_body_returns:
  assumes "no_reconnect w"
  shows "fst (handle_read_body x e i w) = Ret 0 \<and> no_reconnect (snd (handle_read_body x e i w))"
  using assms session_close_returns [OF assms, of x i]
  by (auto simp: handle_read_body_def do_body_def async_read_def after_body_get_def intro!: no_reconnect_upd)

lemma handle_read_header_returns:
  assumes "no_reconnect w"
  shows "fst (handle_read_header x e i w) = Ret 0 \<and> no_reconnect (snd (handle_read_header x e i w))"
proof -
  obtain r w1 where d: "do_head i w = (r, w1)" by (cases "do_head i w")
  then have w1: "no_reconnect w1"
    using assms by (auto simp: do_head_def intro!: no_reconnect_upd split: prod.splits)
  from session_close_returns [OF assms, of x i] session_close_returns [OF w1, of x i] handle_read_body_returns [OF w1, of x e i] w1
  show ?thesis
    by (auto simp: handle_read_header_def d Let_def async_read_def intro!: no_reconnect_upd)
qed

lemma read_done_returns: "no_reconnect w \<Longrightarrow> fst (read_done x i bs w) = Ret 0 \<and> no_reconnect (snd (read_done x i bs w))"
  and read_failed_returns: "no_reconnect w \<Longrightarrow> fst (read_failed x i w) = Ret 0 \<and> no_reconnect (snd (read_failed x i w))"
  by (auto simp: read_done_def read_failed_def intro!: handle_read_header_returns [THEN conjunct1] handle_read_header_returns [THEN conjunct2]
      handle_read_body_returns [THEN conjunct1] handle_read_body_returns [THEN conjunct2] no_reconnect_upd
      split: list.split read_op.split)

lemma handle_write_returns:
  assumes "no_reconnect w"
  shows "fst (handle_write x e i w) = Ret 0 \<and> no_reconnect (snd (handle_write x e i w))"
  using assms session_close_returns [OF assms, of x i] no_reconnect_upd [OF assms, of handle_write_ok i]
  by (simp add: handle_write_def act_defs write_defs)

lemma session_handlers_return: "no_reconnect w \<Longrightarrow> \<not> session_throws x w w'"
proof
  assume w: "no_reconnect w" and t: "session_throws x w w'"
  from t show False
  proof cases
    case (write_err i b bs)
    have "no_reconnect (upd_session i (\<lambda>s. s\<lparr>writing := bs\<rparr>) w)" using w by (rule no_reconnect_upd) simp
    from handle_write_returns [OF this, of x True i] write_err(2) show False by simp
  next
    case (read_ok i bs)
    with read_done_returns [OF w, of x i bs] show False by simp
  next
    case (read_err i)
    with read_failed_returns [OF w, of x i] show False by simp
  qed
qed

lemma no_reconnect_accept: "start_accept x w = (i, w1) \<Longrightarrow> no_reconnect w \<Longrightarrow> no_reconnect w1"
  by (auto simp: start_accept_def no_reconnect_def Let_def split: if_splits)

lemma handle_accept_keeps:
  assumes "no_reconnect w"
  shows "no_reconnect (snd (handle_accept x e i w))"
  using keepsD [OF keeps_session_start assms] assms
  by (auto simp: handle_accept_def act_bind_def split: prod.splits outcome.splits intro: no_reconnect_accept)

lemma net_step_no_reconnect: "net_step x w w' \<Longrightarrow> no_reconnect w \<Longrightarrow> no_reconnect w'"
proof (induction rule: net_step.induct)
  case (connect_fix ep srv key w c w1)
  with keepsD [OF keeps_peer_handle_client(2) connect_fix(2,1)] show ?case by simp
next
  case (connect_new ep w c w1)
  with keepsD [OF keeps_peer_handle_client(1) connect_new(2,1)] show ?case by simp
next
  case (connect_throws ep w w1)
  with keepsD [OF keeps_peer_handle_client(1) connect_throws(2,1)] show ?case by simp
next
  case (write_ok w i b bs)
  have "no_reconnect (upd_session i (\<lambda>s. s\<lparr>writing := bs\<rparr>) w)" using write_ok(2) by (rule no_reconnect_upd) simp
  with handle_write_returns show ?case by blast
next
  case (write_err w i b bs r w')
  have "no_reconnect (upd_session i (\<lambda>s. s\<lparr>writing := bs\<rparr>) w)" using write_err(3) by (rule no_reconnect_upd) simp
  from handle_write_returns [OF this, of x True i] write_err(2) show ?case by simp
next
  case (read_ok i bs w r w')
  with read_done_returns [OF read_ok(2), of x i bs] show ?case by simp
next
  case (read_err i w r w')
  with read_failed_returns [OF read_err(2), of x i] show ?case by simp
next
  case (accept w i w1 err ep j w')
  have "no_reconnect (upd_session i (\<lambda>s. s\<lparr>remote_endpoint := ep\<rparr>) w1)"
    using no_reconnect_accept [OF accept(1,3)] by (rule no_reconnect_upd) simp
  from handle_accept_keeps [OF this, of x err i] accept(2) show ?case by simp
qed (auto simp: world_write_def post_write_def intro!: no_reconnect_upd)

lemma keeps_connect_slot: "keeps no_reconnect (connect_slot x split key)"
  unfolding keeps_def
proof (intro allI impI)
  fix w assume w: "no_reconnect w"
  have "keeps no_reconnect (act_bind (peer_handle_client_fix x ep srv key) (\<lambda>c. act_do (registe x c) (act_ret ())))" for ep srv
    by (intro keeps_bind keeps_peer_handle_client(2)) (auto intro!: keeps_do)
  with w show "no_reconnect (snd (connect_slot x split key w))"
    by (auto simp: connect_slot_def keeps_def split: option.split)
qed

lemma heart_slot_no_reconnect: "no_reconnect w \<Longrightarrow> no_reconnect (snd (heart_slot x sv i w))"
  using keeps_connect_slot [of x] by (auto simp: heart_slot_def post_write_def Let_def keeps_def split: option.split)

subsection \<open>The watcher\<close>

text \<open>A slot is connected under its own name, so \<^verbatim>\<open>client_session::open\<close> asks for no endpoint: only
  resolving the address can throw.\<close>

lemma client_fix_returns: "\<exists>c w'. peer_handle_client_fix x ep srv key w = (Ret c, w')"
proof -
  let ?i = "next_session w"
  let ?w = "upd_session ?i (\<lambda>s. s\<lparr>fix_connect := True, s_id := key, server_id := srv,
     read_msg := (read_msg s)\<lparr>mf_remote_id := key, mf_server_id := srv\<rparr>\<rparr>) (new_client_session x ep w)"
  have w: "s_kind (sessions ?w ?i) = Client_Session" "fix_connect (sessions ?w ?i)"
    by (simp_all add: new_client_session_def session_new_def Let_def)
  have "\<exists>st. fst (session_open ?i ?w) = Ret st"
    using w by (simp add: session_open_def client_open_def Let_def split: prod.split)
  then have "fst (session_start ?i ?w) = Ret ()"
    by (cases "session_open ?i ?w") (auto simp: session_start_def act_defs)
  then have "\<exists>r. fst (handle_connect e ?i ?w) = Ret r" for e
    by (cases "session_start ?i ?w") (simp add: handle_connect_def act_defs)
  then obtain r where "fst (handle_connect (\<not> connect_ok x ?i) ?i ?w) = Ret r" by blast
  then show ?thesis
    by (cases "handle_connect (\<not> connect_ok x ?i) ?i ?w")
      (simp add: peer_handle_client_fix_def handle_connect_fix_id_def act_defs Let_def)
qed

lemma connect_slot_throws:
  "connect_slot x sp key w = (Throws, w') \<longleftrightarrow> resolve x (next_session w) (sp ! 1) (sp ! 2) = None \<and> w' = w"
proof (cases "resolve x (next_session w) (sp ! 1) (sp ! 2)")
  case (Some ep)
  with client_fix_returns [of x ep "sp ! 0 @ '':'' @ sp ! 1 @ '':'' @ sp ! 2" key w] show ?thesis
    by (auto simp: connect_slot_def act_defs)
qed (auto simp: connect_slot_def)

lemma watch_slot_throws:
  "watch_slot x sv i w = Some (Throws, w') \<longleftrightarrow>
     fix_get (slot_id sv (int i)) (cpeers w) = None \<and> length (split_str x (CHR '':'') sv) = 3 \<and>
     resolve x (next_session w) (split_str x (CHR '':'') sv ! 1) (split_str x (CHR '':'') sv ! 2) = None \<and> w' = w"
  by (auto simp: watch_slot_def Let_def connect_slot_throws split: option.split)

lemma watch_slot_no_reconnect:
  "watch_slot x sv i w = Some (r, w') \<Longrightarrow> no_reconnect w \<Longrightarrow> no_reconnect w'"
  using keepsD [OF keeps_connect_slot, of w x "split_str x (CHR '':'') sv" "slot_id sv (int i)"]
  by (auto simp: watch_slot_def Let_def split: option.splits if_splits)

text \<open>A slot leaves the configuration as it is.\<close>

lemma keeps_start: "keeps (\<lambda>w. config w = c) (session_start i)"
proof -
  have "keeps (\<lambda>w. config w = c) (session_open i)"
    by (simp add: keeps_def session_open_def server_open_def client_open_def Let_def
        split: session_kind.split option.split prod.split)
  moreover have "config (close_plain i w) = config w" for w by (simp add: close_plain_def)
  ultimately show ?thesis
    unfolding session_start_def by (intro keeps_bind) (auto intro!: keeps_do)
qed

lemma keeps_connect: "keeps (\<lambda>w. config w = c) (handle_connect e i)"
proof -
  have "config (close_plain i w) = config w" for w by (simp add: close_plain_def)
  then show ?thesis
    using keeps_start by (auto simp: handle_connect_def intro!: keeps_bind keeps_do)
qed

lemma config_registe [simp]: "config (registe x q w) = config w"
  by (simp add: registe_def post_write_def Let_def)

lemma peer_handle_client_config:
  "config (snd (peer_handle_client_new x ep w)) = config w"
  "config (snd (peer_handle_client_fix x ep srv key w)) = config w"
proof -
  let ?i = "next_session w"
  have c: "config (new_client_session x ep w) = config w" by (simp add: new_client_session_def Let_def)
  have "keeps (\<lambda>w'. config w' = config w)
      (act_bind (handle_connect (\<not> connect_ok x ?i) ?i) (\<lambda>conected. act_ret (?i, conected)))"
    using keeps_connect by (intro keeps_bind) auto
  with c show "config (snd (peer_handle_client_new x ep w)) = config w"
    by (simp add: peer_handle_client_new_def Let_def keeps_def)
  have "keeps (\<lambda>w'. config w' = config w)
      (act_bind (handle_connect_fix_id (\<not> connect_ok x ?i) srv key ?i) (\<lambda>conected. act_ret (?i, conected)))"
    using keeps_connect unfolding handle_connect_fix_id_def by (auto intro!: keeps_bind keeps_do)
  with c show "config (snd (peer_handle_client_fix x ep srv key w)) = config w"
    by (simp add: peer_handle_client_fix_def Let_def keeps_def)
qed

lemma watch_slot_config: "watch_slot x sv i w = Some (r, w') \<Longrightarrow> config w' = config w"
proof -
  have "config (snd (connect_slot x sp key w)) = config w" for sp key
  proof (cases "resolve x (next_session w) (sp ! 1) (sp ! 2)")
    case (Some ep)
    let ?srv = "sp ! 0 @ '':'' @ sp ! 1 @ '':'' @ sp ! 2"
    obtain c w1 where "peer_handle_client_fix x ep ?srv key w = (Ret c, w1)"
      using client_fix_returns by blast
    with peer_handle_client_config(2) [of x ep ?srv key w] Some show ?thesis
      by (simp add: connect_slot_def act_defs)
  qed (simp add: connect_slot_def)
  from this [of "split_str x (CHR '':'') sv" "slot_id sv (int i)"]
  show "watch_slot x sv i w = Some (r, w') \<Longrightarrow> config w' = config w"
    by (auto simp: watch_slot_def Let_def split: option.splits if_splits)
qed

end
