(* ===== verification/Lifecycle.thy ===== *)
theory Lifecycle
  imports Relay IoThreads Uncaught
begin

text \<open>
  Start and exit of the process: \<^verbatim>\<open>main\<close> and \<^verbatim>\<open>system_exst_thread\<close> (main.cpp), the acceptor's
  constructor and \<^verbatim>\<open>stop\<close> (src/peer_handle_server.cpp), and the caches a worker
  makes for itself (\<^verbatim>\<open>session_task::init_cache_map\<close>, src/session_task.cpp). Whether the log
  directory can be made and the port bound is an argument. The start sequence is a function; the
  running process is a step relation over the main thread, the exit thread, the workers, the
  threads of the io services (\<open>IoThreads\<close>), the network handlers they run and the exceptions these let
  out (\<open>Uncaught\<close>), the heart-beat thread, the server-list watcher and the answers the workers write. The tasks themselves are
  counted in the pool's queue here; what a worker does with one is in \<open>Relay\<close>.
\<close>

subsection \<open>Start\<close>

text \<open>\<^verbatim>\<open>std::atoi\<close>: leading white space, a sign, the digits that follow. A value that is not an
  int is undefined behaviour, the value \<open>None\<close>.\<close>

definition is_space :: "char \<Rightarrow> bool" where
  "is_space c \<longleftrightarrow> c \<in> {CHR '' '', CHR 0x09, CHR 0x0A, CHR 0x0B, CHR 0x0C, CHR 0x0D}"

definition is_digit :: "char \<Rightarrow> bool" where
  "is_digit c \<longleftrightarrow> 48 \<le> (of_char c :: nat) \<and> (of_char c :: nat) < 58"

definition c_atoi :: "string \<Rightarrow> int option" where
  "c_atoi s =
     (let t = dropWhile is_space s;
          neg = (t \<noteq> [] \<and> hd t = CHR ''-'');
          u = (if t \<noteq> [] \<and> (hd t = CHR ''-'' \<or> hd t = CHR ''+'') then tl t else t);
          n = int (read_nat (takeWhile is_digit u));
          v = (if neg then - n else n)
      in if - (2 ^ 31) \<le> v \<and> v < 2 ^ 31 then Some v else None)"

text \<open>What a worker's caches, which are not part of the program, answer; their calls may throw.\<close>

record cache_ext =
  sess_init :: "string \<Rightarrow> string \<Rightarrow> int outcome"
  sess_lookup :: "string \<Rightarrow> (string, string) std_map"
  mongo_connect :: "(string \<times> int) list \<Rightarrow> mongo_client option outcome"

text \<open>\<open>made_at_startup\<close>: \<^verbatim>\<open>boost::serialization::singleton\<close> makes its instances before \<^verbatim>\<open>main\<close>, as it does
  where static data is initialised at startup; then the pool of io services is made before the
  configuration is read. \<open>session_home\<close>: the io service a session's socket was made on. \<open>worker_caches\<close>:
  what the caches answer to each worker. \<open>watch_lets_out\<close>: whether the server-list cache lets an exception
  of \<^verbatim>\<open>servlist_callback\<close> out of the thread that calls it.\<close>

record start_ext = net_ext +
  log_path_ok :: "string \<Rightarrow> bool"
  bind_ok :: "int \<Rightarrow> bool"
  hardware_concurrency :: nat
  made_at_startup :: bool
  session_home :: "nat \<Rightarrow> nat"
  worker_caches :: "nat \<Rightarrow> cache_ext"
  watch_lets_out :: bool

definition main_args :: "string list \<Rightarrow> (int \<times> string \<times> string) option" where
  "main_args argv =
     (if length argv = 4 then map_option (\<lambda>port. (port, argv ! 2, argv ! 3)) (c_atoi (argv ! 1))
      else Some (0, ''/tmp/log'', ''/usr/etc/server_service_config.ini''))"

text \<open>The acceptor's constructor: open, bind and listen, then the first accept.\<close>

definition peer_handle_server_new :: "('x) start_ext_scheme \<Rightarrow> int \<Rightarrow> (world, nat) action" where
  "peer_handle_server_new x port w =
     (if \<not> bind_ok x port then (Throws, w)
      else case start_accept x w of (i, w1) \<Rightarrow> (Ret i, w1))"

text \<open>The exit thread: sleeping, and after the stop flag the calls of its \<^verbatim>\<open>run\<close>; \<open>Sys_Ios\<close> to
  \<open>Sys_Io_Join\<close> are \<^verbatim>\<open>io_service_provide::stop\<close>: the loop that stops the services, the three calls
  on the task queue, which are the \<^const>\<open>stop_pc\<close> steps of the pool, and the two joins.\<close>

datatype sys_pc =
  Sys_Sleep | Sys_Close_All | Sys_Server_Stop | Sys_Ios nat | Sys_Pool | Sys_Join | Sys_Io_Join | Sys_Exit

datatype main_pc = Run_Server | Run_Pool | Join_Server | Join_Heart

text \<open>How the process ends: by \<^verbatim>\<open>exit\<close> or \<^verbatim>\<open>main\<close>'s return, with a status, or by \<^verbatim>\<open>std::terminate\<close>.\<close>

datatype process_end = Status int | Terminated

record process =
  p_world :: world
  p_pool :: pool
  p_threads :: nat
  p_port :: int
  p_armed :: bool
  p_stop :: bool
  p_srv :: io_group
  p_ios :: io_group
  p_sys :: sys_pc
  p_main :: main_pc
  p_exit :: "process_end option"

definition process_new :: "int \<Rightarrow> nat \<Rightarrow> (nat \<Rightarrow> nat) \<Rightarrow> nat \<Rightarrow> world \<Rightarrow> process" where
  "process_new port n home m w =
     \<lparr>p_world = w, p_pool = pool_new, p_threads = n, p_port = port, p_armed = True, p_stop = False,
      p_srv = server_group_new, p_ios = provide_new home m, p_sys = Sys_Sleep, p_main = Run_Server, p_exit = None\<rparr>"

datatype start = Exits int | Starts process | Undefined_Start

text \<open>The constructor of \<^verbatim>\<open>io_service_provide\<close>: the number of its services, from the configuration as it
  is when the instance is made.\<close>

definition services_made :: "('x) start_ext_scheme \<Rightarrow> configwrap \<Rightarrow> configwrap \<Rightarrow> nat" where
  "services_made x c0 c = pool_size (io_pool_size (if made_at_startup x then c0 else c)) (hardware_concurrency x)"

text \<open>\<^verbatim>\<open>main\<close> up to \<^verbatim>\<open>server->run()\<close>. Every exception is caught and \<^verbatim>\<open>main\<close> then returns 0. With no io
  service the first \<^verbatim>\<open>get_io_service\<close> reads past the vector.\<close>

definition main_start :: "('x) start_ext_scheme \<Rightarrow> string list \<Rightarrow> configwrap \<Rightarrow> start" where
  "main_start x argv c0 =
     (case main_args argv of
        None \<Rightarrow> Undefined_Start
      | Some (port, log_path, config_path) \<Rightarrow>
          if \<not> log_path_ok x log_path then Exits 0
          else case cfg_init x config_path c0 of
              (Throws, c) \<Rightarrow> Exits 0
            | (Ret status, c) \<Rightarrow>
                if status \<noteq> 0 then Exits 1
                else let port' = (if port = 0 then cfg_port c else port);
                         m = services_made x c0 c
                     in if m = 0 then Undefined_Start
                        else case peer_handle_server_new x port' (world_new c) of
                          (Throws, w) \<Rightarrow> Exits 0
                        | (Ret i, w) \<Rightarrow>
                            (case init_server_connection x w of
                               None \<Rightarrow> Undefined_Start
                             | Some w1 \<Rightarrow> Starts (process_new port' (nat (thread_cout c)) (session_home x) m w1)))"

subsection \<open>A worker's caches\<close>

text \<open>\<^verbatim>\<open>init_cache_map\<close>: what it sets up, and the worker's view after it. Neither it nor \<^verbatim>\<open>work()\<close>, which calls
  it before its \<^verbatim>\<open>try\<close>, catches anything.\<close>

definition cache_init ::
  "cache_ext \<Rightarrow> configwrap \<Rightarrow> ((string \<Rightarrow> (string, string) std_map) option \<times> mongo_client option) outcome" where
  "cache_init k c =
     (case sess_init k (session_path c) (session_path_bak c) of
        Throws \<Rightarrow> Throws
      | Ret status \<Rightarrow>
          let sess = (if status \<noteq> 0 then None else Some (sess_lookup k))
          in if length (mongo_hosts c) \<noteq> 0
             then (case mongo_connect k (mongo_hosts c) of Throws \<Rightarrow> Throws | Ret m \<Rightarrow> Ret (sess, m))
             else Ret (sess, None))"


subsection \<open>The running process\<close>

text \<open>What the exit thread does next; no value while it has to wait. The pool's stop steps are those
  of \<^const>\<open>pool_step\<close>.\<close>

definition sys_next :: "process \<Rightarrow> process option" where
  "sys_next p =
     (case p_sys p of
        Sys_Sleep \<Rightarrow> if p_stop p then Some (p\<lparr>p_sys := Sys_Close_All\<rparr>) else None
      | Sys_Close_All \<Rightarrow> Some (p\<lparr>p_world := (p_world p)\<lparr>cpeers := close_all (cpeers (p_world p))\<rparr>,
          p_sys := Sys_Server_Stop\<rparr>)
      | Sys_Server_Stop \<Rightarrow> Some (p\<lparr>p_srv := stop_service 0 (p_srv p), p_sys := Sys_Ios 0\<rparr>)
      | Sys_Ios i \<Rightarrow>
          if i < length (io_services (p_ios p)) then Some (p\<lparr>p_ios := stop_service i (p_ios p), p_sys := Sys_Ios (Suc i)\<rparr>)
          else Some (p\<lparr>p_sys := Sys_Pool\<rparr>)
      | Sys_Pool \<Rightarrow>
          let q = p_pool p
          in if stop_pc q = 0 then Some (p\<lparr>p_pool := q\<lparr>queue := task_stop (queue q), stop_pc := 1\<rparr>\<rparr>)
             else if stop_pc q = 1 then Some (p\<lparr>p_pool := (notify_all q)\<lparr>stop_pc := 2\<rparr>\<rparr>)
             else Some (p\<lparr>p_pool := q\<lparr>interrupted := True, stop_pc := 3\<rparr>, p_sys := Sys_Join\<rparr>)
      | Sys_Join \<Rightarrow> if \<forall>i < p_threads p. workers (p_pool p) i = Ended then Some (p\<lparr>p_sys := Sys_Io_Join\<rparr>) else None
      | Sys_Io_Join \<Rightarrow> if joined (p_ios p) then Some (p\<lparr>p_sys := Sys_Exit\<rparr>) else None
      | Sys_Exit \<Rightarrow> Some (p\<lparr>p_exit := Some (Status 1)\<rparr>))"

text \<open>The main thread after the start: the loops of \<^verbatim>\<open>server->run()\<close> and of the pool's \<^verbatim>\<open>run()\<close>, then
  \<^verbatim>\<open>server->join()\<close> and \<^verbatim>\<open>heart_thread.join()\<close>. The heart thread loops for ever and nobody interrupts
  it, so the second join has no step.\<close>

definition main_next :: "process \<Rightarrow> process option" where
  "main_next p =
     (case p_main p of
        Run_Server \<Rightarrow> (case server_run_next (p_srv p) of
            Some g \<Rightarrow> Some (p\<lparr>p_srv := g\<rparr>) | None \<Rightarrow> Some (p\<lparr>p_main := Run_Pool\<rparr>))
      | Run_Pool \<Rightarrow> (case provide_run_next (p_ios p) of
            Some g \<Rightarrow> Some (p\<lparr>p_ios := g\<rparr>) | None \<Rightarrow> Some (p\<lparr>p_main := Join_Server\<rparr>))
      | Join_Server \<Rightarrow> if joined (p_srv p) then Some (p\<lparr>p_main := Join_Heart\<rparr>) else None
      | Join_Heart \<Rightarrow> None)"

text \<open>One rule per thread (the workers' steps are pool steps, those of the io threads group steps), and
  the signal: its handler runs once, in a thread of the first service, and \<^verbatim>\<open>async_wait\<close> is not called
  again. Pool steps leave the stop sequence to the exit thread. A network step is made by an io
  thread that is in a handler; the heart-beat thread goes through its slots until the process ends; a
  worker with a task writes answers; the watcher replaces the server map and goes through its slots
  (\<open>watcher_runs\<close> below puts these steps together). An exception that leaves a handler, the watcher or
  the start of a worker ends the process.\<close>

definition io_running :: "process \<Rightarrow> bool" where
  "io_running p \<longleftrightarrow> handling (p_srv p) \<or> handling (p_ios p)"

text \<open>Worker \<open>k\<close> has started and what its caches do throws; a slot the watcher comes to.\<close>

definition cache_throws :: "('x) start_ext_scheme \<Rightarrow> process \<Rightarrow> nat \<Rightarrow> bool" where
  "cache_throws x p k \<longleftrightarrow> k < p_threads p \<and> workers (p_pool p) k = Starting \<and>
     cache_init (worker_caches x k) (config (p_world p)) = Throws"

definition watched :: "string \<Rightarrow> nat \<Rightarrow> world \<Rightarrow> bool" where
  "watched sv i w \<longleftrightarrow> sv \<in> snd ` set (server_map (config w)) \<and> i < nat (connect_count (config w))"

inductive proc_step :: "('x) start_ext_scheme \<Rightarrow> nat \<Rightarrow> process \<Rightarrow> process \<Rightarrow> bool" for x mx where
  signal: "p_exit p = None \<Longrightarrow> p_armed p \<Longrightarrow> (0, Run_Wait) \<in> set (run_threads (p_ios p)) \<Longrightarrow> \<not> stopped 0 (p_ios p) \<Longrightarrow>
     proc_step x mx p (p\<lparr>p_armed := False, p_stop := True\<rparr>)"
| sys: "p_exit p = None \<Longrightarrow> sys_next p = Some p' \<Longrightarrow> proc_step x mx p p'"
| main: "p_exit p = None \<Longrightarrow> main_next p = Some p' \<Longrightarrow> proc_step x mx p p'"
| pool: "p_exit p = None \<Longrightarrow> pool_step mx (p_threads p) (p_pool p) q \<Longrightarrow> stop_pc q = stop_pc (p_pool p) \<Longrightarrow>
     \<forall>k. cache_throws x p k \<longrightarrow> workers q k = Starting \<Longrightarrow> proc_step x mx p (p\<lparr>p_pool := q\<rparr>)"
| srv: "p_exit p = None \<Longrightarrow> group_step (p_srv p) g \<Longrightarrow> proc_step x mx p (p\<lparr>p_srv := g\<rparr>)"
| ios: "p_exit p = None \<Longrightarrow> group_step (p_ios p) g \<Longrightarrow> proc_step x mx p (p\<lparr>p_ios := g\<rparr>)"
| network: "p_exit p = None \<Longrightarrow> io_running p \<Longrightarrow> net_step x (p_world p) w \<Longrightarrow> proc_step x mx p (p\<lparr>p_world := w\<rparr>)"
| heart: "p_exit p = None \<Longrightarrow> heart_slot x sv i (p_world p) = (r, w) \<Longrightarrow> proc_step x mx p (p\<lparr>p_world := w\<rparr>)"
| answer: "p_exit p = None \<Longrightarrow> k < p_threads p \<Longrightarrow> workers (p_pool p) k = Working t \<Longrightarrow>
     proc_step x mx p (p\<lparr>p_world := world_write i m (p_world p)\<rparr>)"
| accept_throws: "p_exit p = None \<Longrightarrow> handling (p_srv p) \<Longrightarrow> accept_throws x (p_world p) w \<Longrightarrow>
     proc_step x mx p (p\<lparr>p_world := w, p_exit := Some Terminated\<rparr>)"
| session_throws: "p_exit p = None \<Longrightarrow> handling (p_ios p) \<Longrightarrow> session_throws x (p_world p) w \<Longrightarrow>
     proc_step x mx p (p\<lparr>p_world := w, p_exit := Some Terminated\<rparr>)"
| watch_list: "p_exit p = None \<Longrightarrow> scs \<noteq> [] \<Longrightarrow>
     proc_step x mx p (p\<lparr>p_world := (p_world p)\<lparr>config := (config (p_world p))\<lparr>server_map := insert_servers scs []\<rparr>\<rparr>\<rparr>)"
| watch: "p_exit p = None \<Longrightarrow> watched sv i (p_world p) \<Longrightarrow> watch_slot x sv i (p_world p) = Some (r, w) \<Longrightarrow>
     r = Ret () \<or> \<not> watch_lets_out x \<Longrightarrow> proc_step x mx p (p\<lparr>p_world := w\<rparr>)"
| watch_throws: "p_exit p = None \<Longrightarrow> watch_lets_out x \<Longrightarrow> watched sv i (p_world p) \<Longrightarrow>
     watch_slot x sv i (p_world p) = Some (Throws, w) \<Longrightarrow> proc_step x mx p (p\<lparr>p_world := w, p_exit := Some Terminated\<rparr>)"
| caches_throw: "p_exit p = None \<Longrightarrow> cache_throws x p k \<Longrightarrow> proc_step x mx p (p\<lparr>p_exit := Some Terminated\<rparr>)"

text \<open>The invariant: the pool's own, and how far the stop sequence has come.\<close>

fun before_pool :: "sys_pc \<Rightarrow> bool" where
  "before_pool Sys_Sleep = True"
| "before_pool Sys_Close_All = True"
| "before_pool Sys_Server_Stop = True"
| "before_pool (Sys_Ios i) = True"
| "before_pool _ = False"

definition proc_inv :: "process \<Rightarrow> bool" where
  "proc_inv p \<longleftrightarrow> pool_inv (p_threads p) (p_pool p) \<and> p_exit p \<in> {None, Some (Status 1), Some Terminated} \<and>
     (p_armed p \<longrightarrow> \<not> p_stop p) \<and> (\<not> p_stop p \<longrightarrow> p_sys p = Sys_Sleep) \<and>
     (p_exit p = Some (Status 1) \<longrightarrow> p_sys p = Sys_Exit) \<and>
     (stop_pc (p_pool p) = 3 \<longleftrightarrow> p_sys p \<in> {Sys_Join, Sys_Io_Join, Sys_Exit}) \<and>
     (before_pool (p_sys p) \<longrightarrow> stop_pc (p_pool p) = 0) \<and>
     (p_sys p \<in> {Sys_Io_Join, Sys_Exit} \<longrightarrow> (\<forall>i < p_threads p. workers (p_pool p) i = Ended))"

lemma proc_inv_new: "proc_inv (process_new port n home m w)"
  using pool_inv_new [of n] by (simp add: proc_inv_def process_new_def) (simp add: pool_new_def)

lemma pool_inv_stop:
  "pool_inv n q \<Longrightarrow> pool_inv n (q\<lparr>queue := task_stop (queue q), stop_pc := 1\<rparr>)" if "stop_pc q = 0"
  using pool_step_inv [OF pool_step.stops [OF that]] by blast

lemma pool_inv_notify:
  "pool_inv n q \<Longrightarrow> pool_inv n ((notify_all q)\<lparr>stop_pc := 2\<rparr>)" if "stop_pc q = 1"
  using pool_step_inv [OF pool_step.notifies [OF that]] by blast

lemma pool_inv_interrupt:
  "pool_inv n q \<Longrightarrow> pool_inv n (q\<lparr>interrupted := True, stop_pc := 3\<rparr>)" if "stop_pc q = 2"
  using pool_step_inv [OF pool_step.interrupts [OF that]] by blast

lemma stop_pc_le: "pool_inv n q \<Longrightarrow> stop_pc q \<le> 3"
  by (simp add: pool_inv_def stop_ok_def)

lemma main_next_cases:
  assumes "main_next p = Some p'"
  obtains
    (server) g where "p_main p = Run_Server" "server_run_next (p_srv p) = Some g" "p' = p\<lparr>p_srv := g\<rparr>"
  | (served) "p_main p = Run_Server" "server_run_next (p_srv p) = None" "p' = p\<lparr>p_main := Run_Pool\<rparr>"
  | (pool) g where "p_main p = Run_Pool" "provide_run_next (p_ios p) = Some g" "p' = p\<lparr>p_ios := g\<rparr>"
  | (pooled) "p_main p = Run_Pool" "provide_run_next (p_ios p) = None" "p' = p\<lparr>p_main := Join_Server\<rparr>"
  | (joined) "p_main p = Join_Server" "joined (p_srv p)" "p' = p\<lparr>p_main := Join_Heart\<rparr>"
  using assms by (auto simp: main_next_def split: main_pc.splits option.splits if_splits)

lemma sys_next_cases:
  assumes "sys_next p = Some p'" "proc_inv p"
  obtains
    (wake) "p_sys p = Sys_Sleep" "p_stop p" "p' = p\<lparr>p_sys := Sys_Close_All\<rparr>"
  | (close) "p_sys p = Sys_Close_All"
      "p' = p\<lparr>p_world := (p_world p)\<lparr>cpeers := close_all (cpeers (p_world p))\<rparr>, p_sys := Sys_Server_Stop\<rparr>"
  | (server) "p_sys p = Sys_Server_Stop" "p' = p\<lparr>p_srv := stop_service 0 (p_srv p), p_sys := Sys_Ios 0\<rparr>"
  | (service) i where "p_sys p = Sys_Ios i" "i < length (io_services (p_ios p))"
      "p' = p\<lparr>p_ios := stop_service i (p_ios p), p_sys := Sys_Ios (Suc i)\<rparr>"
  | (services) i where "p_sys p = Sys_Ios i" "length (io_services (p_ios p)) \<le> i" "p' = p\<lparr>p_sys := Sys_Pool\<rparr>"
  | (pool0) "p_sys p = Sys_Pool" "stop_pc (p_pool p) = 0"
      "p' = p\<lparr>p_pool := (p_pool p)\<lparr>queue := task_stop (queue (p_pool p)), stop_pc := 1\<rparr>\<rparr>"
  | (pool1) "p_sys p = Sys_Pool" "stop_pc (p_pool p) = 1" "p' = p\<lparr>p_pool := (notify_all (p_pool p))\<lparr>stop_pc := 2\<rparr>\<rparr>"
  | (pool2) "p_sys p = Sys_Pool" "stop_pc (p_pool p) = 2"
      "p' = p\<lparr>p_pool := (p_pool p)\<lparr>interrupted := True, stop_pc := 3\<rparr>, p_sys := Sys_Join\<rparr>"
  | (join) "p_sys p = Sys_Join" "\<forall>i < p_threads p. workers (p_pool p) i = Ended" "p' = p\<lparr>p_sys := Sys_Io_Join\<rparr>"
  | (io_join) "p_sys p = Sys_Io_Join" "joined (p_ios p)" "p' = p\<lparr>p_sys := Sys_Exit\<rparr>"
  | (exit) "p_sys p = Sys_Exit" "p' = p\<lparr>p_exit := Some (Status 1)\<rparr>"
proof (cases "p_sys p")
  case Sys_Pool
  then have "stop_pc (p_pool p) \<noteq> 3" "stop_pc (p_pool p) \<le> 3"
    using assms(2) stop_pc_le by (auto simp: proc_inv_def)
  then consider "stop_pc (p_pool p) = 0" | "stop_pc (p_pool p) = 1" | "stop_pc (p_pool p) = 2" by linarith
  then show ?thesis
    using assms(1) Sys_Pool pool0 pool1 pool2 by cases (auto simp: sys_next_def Let_def)
next
  case Sys_Sleep
  with assms(1) wake show ?thesis by (simp add: sys_next_def split: if_splits)
next
  case Sys_Close_All
  with assms(1) close show ?thesis by (simp add: sys_next_def)
next
  case Sys_Server_Stop
  with assms(1) server show ?thesis by (simp add: sys_next_def)
next
  case (Sys_Ios i)
  with assms(1) service services show ?thesis by (auto simp: sys_next_def split: if_splits)
next
  case Sys_Join
  with assms(1) join show ?thesis by (simp add: sys_next_def split: if_splits)
next
  case Sys_Io_Join
  with assms(1) io_join show ?thesis by (simp add: sys_next_def split: if_splits)
next
  case Sys_Exit
  with assms(1) exit show ?thesis by (simp add: sys_next_def)
qed

lemma sys_next_inv:
  assumes "sys_next p = Some p'" "proc_inv p" "p_exit p = None"
  shows "proc_inv p'"
  using assms(1,2)
  by (cases rule: sys_next_cases)
    (use assms(2,3) in \<open>auto simp: proc_inv_def intro: pool_inv_stop [unfolded One_nat_def] pool_inv_notify pool_inv_interrupt\<close>)

lemma worker_next_keeps:
  assumes "worker_next mx j q = Some q'" "pool_inv n q"
  shows "(\<forall>k. k \<noteq> j \<longrightarrow> workers q' k = workers q k) \<and> stop_pc q' = stop_pc q \<and> interrupted q' = interrupted q"
proof -
  have "queue_ok (queue q)" "lock_ok n q" using assms(2) by (simp_all add: pool_inv_def)
  with assms(1) show ?thesis by (cases rule: worker_next_cases) simp_all
qed

lemma ended_stays:
  assumes "pool_step mx n q q'" "stop_pc q' = stop_pc q" "workers q i = Ended" "pool_inv n q"
  shows "workers q' i = Ended"
  using assms(1)
proof (cases rule: pool_step.cases)
  case (worker j)
  have "workers q' k = workers q k" if "k \<noteq> j" for k
    using worker_next_keeps [OF worker(2) assms(4)] that by blast
  moreover have "j \<noteq> i" using worker(2) assms(3) by (auto simp: worker_next_def)
  ultimately show ?thesis using assms(3) by simp
qed (use assms(2,3) in \<open>auto simp: notify_all_def\<close>)

lemma proc_step_inv:
  assumes "proc_step x mx p p'" "proc_inv p"
  shows "proc_inv p'"
  using assms(1)
proof (cases rule: proc_step.cases)
  case signal
  with assms(2) show ?thesis by (auto simp: proc_inv_def)
next
  case sys
  show ?thesis by (rule sys_next_inv [OF sys(2) assms(2) sys(1)])
next
  case main
  from main(2) show ?thesis by (cases rule: main_next_cases) (use assms(2) in \<open>simp_all add: proc_inv_def\<close>)
next
  case (pool q)
  have inv: "pool_inv (p_threads p) (p_pool p)" using assms(2) by (simp add: proc_inv_def)
  from pool_step_inv [OF pool(3) inv] ended_stays [OF pool(3,4) _ inv] pool assms(2) show ?thesis
    by (simp add: proc_inv_def)
qed (use assms(2) in \<open>simp_all add: proc_inv_def\<close>)

lemma proc_reach_inv: "(proc_step x mx)\<^sup>*\<^sup>* (process_new port n home m w) p \<Longrightarrow> proc_inv p"
  by (induction rule: rtranclp_induct) (auto intro: proc_inv_new proc_step_inv)

subsection \<open>The io threads\<close>

text \<open>Which services the exit thread has stopped, and who runs what: \<open>main\<close> makes the pool's threads in
  the order of the services, one each.\<close>

fun ios_stopped :: "sys_pc \<Rightarrow> nat \<Rightarrow> bool" where
  "ios_stopped Sys_Sleep i = False"
| "ios_stopped Sys_Close_All i = False"
| "ios_stopped Sys_Server_Stop i = False"
| "ios_stopped (Sys_Ios k) i = (i < k)"
| "ios_stopped _ i = True"

definition io_inv :: "process \<Rightarrow> bool" where
  "io_inv p \<longleftrightarrow> group_ok (p_srv p) \<and> group_ok (p_ios p) \<and> length (io_services (p_srv p)) = 1 \<and>
     stopped 0 (p_srv p) = (p_sys p \<notin> {Sys_Sleep, Sys_Close_All, Sys_Server_Stop}) \<and>
     (\<forall>i < length (io_services (p_ios p)). stopped i (p_ios p) = ios_stopped (p_sys p) i) \<and>
     map fst (run_threads (p_ios p)) = [0..<length (run_threads (p_ios p))] \<and>
     length (run_threads (p_ios p)) \<le> length (io_services (p_ios p)) \<and>
     (p_main p \<noteq> Run_Server \<longrightarrow> run_threads (p_srv p) \<noteq> []) \<and>
     (p_main p = Join_Heart \<longrightarrow> stopped 0 (p_srv p)) \<and>
     (p_sys p = Sys_Exit \<longrightarrow> \<not> handling (p_ios p))"

lemma io_inv_new: "io_inv (process_new port n home m w)"
  using group_ok_new(1) [of home m] group_ok_new(2)
  by (simp add: io_inv_def process_new_def)
    (simp add: provide_new_def server_group_new_def stopped_def io_service_new_def)

lemma server_run_next_ok:
  assumes "server_run_next g = Some g'" "group_ok g" "length (io_services g) = 1"
  shows "group_ok g' \<and> length (io_services g') = 1 \<and> stopped i g' = stopped i g \<and> run_threads g' \<noteq> []"
  using assms group_ok_create [of g 0]
  by (auto simp: server_run_next_def split: if_splits) (simp_all add: create_thread_def stopped_def)

lemma provide_run_next_ok:
  assumes "provide_run_next g = Some g'" "group_ok g"
  shows "group_ok g' \<and> stopped i g' = stopped i g \<and> handling g' = handling g \<and> group_left g' = Suc (group_left g)"
  using assms group_ok_create [of g]
  by (auto simp: provide_run_next_def group_left_create Let_def split: if_splits) (simp_all add: create_thread_def stopped_def)

lemma joined_stopped:
  assumes "joined g" "group_ok g" "length (io_services g) = 1" "run_threads g \<noteq> []"
  shows "stopped 0 g"
  using assms by (cases "run_threads g") (auto simp: joined_def group_ok_def thread_ok_def)

lemma io_inv_main:
  assumes "main_next p = Some p'" "io_inv p"
  shows "io_inv p'"
  using assms(1)
proof (cases rule: main_next_cases)
  case (server g)
  with server_run_next_ok [OF server(2)] assms(2) show ?thesis by (simp add: io_inv_def)
next
  case served
  then have "run_threads (p_srv p) \<noteq> []" by (auto simp: server_run_next_def)
  with served assms(2) show ?thesis by (simp add: io_inv_def)
next
  case (pool g)
  with provide_run_next_ok [OF pool(2)] provide_run_next_fst [OF pool(2)] assms(2) show ?thesis by (simp add: io_inv_def)
next
  case pooled
  with assms(2) show ?thesis by (simp add: io_inv_def)
next
  case joined
  with joined_stopped [OF joined(2)] assms(2) show ?thesis by (simp add: io_inv_def)
qed

lemma io_inv_sys:
  assumes "sys_next p = Some p'" "proc_inv p" "io_inv p"
  shows "io_inv p'"
  using assms(1,2)
proof (cases rule: sys_next_cases)
  case server
  with assms(3) show ?thesis by (auto simp: io_inv_def group_ok_stop_service stopped_stop_service)
next
  case (service i)
  with assms(3) show ?thesis
    by (auto simp: io_inv_def group_ok_stop_service stopped_stop_service less_Suc_eq)
next
  case io_join
  with assms(3) joined_not_handling show ?thesis by (auto simp: io_inv_def)
qed (use assms(3) in \<open>auto simp: io_inv_def\<close>)

lemma io_inv_group:
  assumes "group_step (p_ios p) g" "io_inv p"
  shows "io_inv (p\<lparr>p_ios := g\<rparr>)"
proof -
  have "length (run_threads g) = length (run_threads (p_ios p))"
    using group_step_keeps [OF assms(1)] by (metis length_map)
  moreover have "p_sys p = Sys_Exit \<Longrightarrow> \<not> handling g"
    using handling_stops [OF assms(1)] assms(2) by (auto simp: io_inv_def)
  ultimately show ?thesis
    using group_step_keeps [OF assms(1)] group_ok_step [OF assms(1)] assms(2) by (auto simp: io_inv_def)
qed

lemma io_inv_step:
  assumes "proc_step x mx p p'" "proc_inv p" "io_inv p"
  shows "io_inv p'"
  using assms(1)
proof (cases rule: proc_step.cases)
  case sys
  show ?thesis by (rule io_inv_sys [OF sys(2) assms(2,3)])
next
  case main
  show ?thesis by (rule io_inv_main [OF main(2) assms(3)])
next
  case (srv g)
  have "run_threads g = [] \<longleftrightarrow> run_threads (p_srv p) = []"
    using group_step_keeps [OF srv(3)] by (metis list.map_disc_iff)
  with srv group_step_keeps [OF srv(3)] group_ok_step [OF srv(3)] assms(3) show ?thesis by (auto simp: io_inv_def)
next
  case (ios g)
  with io_inv_group assms(3) show ?thesis by simp
qed (use assms(3) in \<open>auto simp: io_inv_def\<close>)

lemma proc_reach_io: "(proc_step x mx)\<^sup>*\<^sup>* (process_new port n home m w) p \<Longrightarrow> io_inv p"
  by (induction rule: rtranclp_induct) (auto intro: io_inv_new io_inv_step proc_reach_inv)

subsection \<open>What is left of the stop sequence\<close>

fun sys_left :: "sys_pc \<Rightarrow> nat \<Rightarrow> nat \<Rightarrow> nat" where
  "sys_left Sys_Sleep m n = m + 10"
| "sys_left Sys_Close_All m n = m + 9"
| "sys_left Sys_Server_Stop m n = m + 8"
| "sys_left (Sys_Ios i) m n = (m - i) + 7"
| "sys_left Sys_Pool m n = 6 - n"
| "sys_left Sys_Join m n = 3"
| "sys_left Sys_Io_Join m n = 2"
| "sys_left Sys_Exit m n = 1"

definition ios_left :: "process \<Rightarrow> nat" where
  "ios_left p = (if before_pool (p_sys p) then 2 * length (io_services (p_ios p))
     else group_left (p_ios p) + 2 * (length (io_services (p_ios p)) - length (run_threads (p_ios p))))"

definition shutdown_left :: "process \<Rightarrow> nat" where
  "shutdown_left p =
     (if p_exit p = None then sys_left (p_sys p) (length (io_services (p_ios p))) (stop_pc (p_pool p)) else 0) +
     (if stop_pc (p_pool p) = 3 then work_left (p_threads p) (p_pool p) else 5 * p_threads p) + ios_left p"

lemma ios_left_le: "io_inv p \<Longrightarrow> ios_left p \<le> 2 * length (io_services (p_ios p))"
  using group_left_le [of "p_ios p"] by (auto simp: ios_left_def io_inv_def Let_def)

lemma sys_next_less:
  assumes "sys_next p = Some p'" "proc_inv p" "io_inv p" "p_exit p = None"
  shows "shutdown_left p' < shutdown_left p"
  using assms(1,2)
proof (cases rule: sys_next_cases)
  case pool2
  have "work_left (p_threads p) ((p_pool p)\<lparr>interrupted := True, stop_pc := 3\<rparr>) \<le> 5 * p_threads p"
    by (rule work_left_bound)
  with pool2 assms(4) show ?thesis by (simp add: shutdown_left_def ios_left_def)
next
  case (services i)
  with ios_left_le [OF assms(3)] assms(2-4) show ?thesis
    using group_left_le [of "p_ios p"] by (auto simp: shutdown_left_def ios_left_def proc_inv_def io_inv_def Let_def)
qed (use assms(2,4) in \<open>auto simp: shutdown_left_def ios_left_def proc_inv_def Let_def\<close>)

lemma main_next_left:
  assumes "main_next p = Some p'" "io_inv p"
  shows "shutdown_left p' \<le> shutdown_left p"
  using assms(1)
proof (cases rule: main_next_cases)
  case (pool g)
  with provide_run_next_ok [OF pool(2)] provide_run_next_fst [OF pool(2)] assms(2) show ?thesis
    by (auto simp: shutdown_left_def ios_left_def io_inv_def Let_def)
qed (simp_all add: shutdown_left_def ios_left_def)

lemma ios_step_left:
  assumes "group_step (p_ios p) g" "io_inv p"
  shows "shutdown_left (p\<lparr>p_ios := g\<rparr>) \<le> shutdown_left p"
proof -
  have "length (run_threads g) = length (run_threads (p_ios p))"
    using group_step_keeps [OF assms(1)] by (metis length_map)
  moreover have "group_left g \<le> group_left (p_ios p)" if "\<not> before_pool (p_sys p)"
    using group_step_left [OF assms(1)] assms(2) that by (cases "p_sys p") (auto simp: io_inv_def)
  ultimately show ?thesis
    using group_step_keeps [OF assms(1)] by (simp add: shutdown_left_def ios_left_def)
qed

lemma proc_step_left:
  assumes "proc_step x mx p p'" "proc_inv p" "io_inv p"
  shows "shutdown_left p' \<le> shutdown_left p"
  using assms(1)
proof (cases rule: proc_step.cases)
  case sys
  with sys_next_less [OF _ assms(2,3)] show ?thesis by (simp add: less_imp_le)
next
  case main
  show ?thesis by (rule main_next_left [OF main(2) assms(3)])
next
  case (pool q)
  have "pool_inv (p_threads p) (p_pool p)" "stop_pc (p_pool p) = 3 \<Longrightarrow> interrupted (p_pool p)"
    using assms(2) by (auto simp: proc_inv_def pool_inv_def stop_ok_def)
  with pool_step_left [OF pool(3)] pool show ?thesis by (simp add: shutdown_left_def ios_left_def)
next
  case (ios g)
  with ios_step_left assms(3) show ?thesis by simp
qed (simp_all add: shutdown_left_def ios_left_def)

text \<open>The steps that bring the end nearer: those of the exit thread, those of the workers once they are
  interrupted, and those of the io threads once their services are stopped.\<close>

inductive shutdown_step :: "nat \<Rightarrow> process \<Rightarrow> process \<Rightarrow> bool" for mx where
  exit_thread: "p_exit p = None \<Longrightarrow> sys_next p = Some p' \<Longrightarrow> shutdown_step mx p p'"
| worker: "p_exit p = None \<Longrightarrow> stop_pc (p_pool p) = 3 \<Longrightarrow> k < p_threads p \<Longrightarrow> worker_next mx k (p_pool p) = Some q \<Longrightarrow>
     shutdown_step mx p (p\<lparr>p_pool := q\<rparr>)"
| io_thread: "p_exit p = None \<Longrightarrow> \<not> before_pool (p_sys p) \<Longrightarrow> run_next k j (p_ios p) = Some g \<Longrightarrow>
     shutdown_step mx p (p\<lparr>p_ios := g\<rparr>)"

lemma worker_step_left:
  assumes "stop_pc (p_pool p) = 3" "k < p_threads p" "worker_next mx k (p_pool p) = Some q" "proc_inv p"
  shows "shutdown_left (p\<lparr>p_pool := q\<rparr>) < shutdown_left p" "stop_pc q = stop_pc (p_pool p)"
proof -
  have inv: "pool_inv (p_threads p) (p_pool p)" "interrupted (p_pool p)"
    using assms(1,4) by (auto simp: proc_inv_def pool_inv_def stop_ok_def)
  with worker_next_keeps [OF assms(3)] show pc: "stop_pc q = stop_pc (p_pool p)" by blast
  with worker_step_less [OF assms(3) inv(1) assms(2) inv(2)] assms(1)
  show "shutdown_left (p\<lparr>p_pool := q\<rparr>) < shutdown_left p" by (simp add: shutdown_left_def ios_left_def)
qed

lemma io_step_left:
  assumes "\<not> before_pool (p_sys p)" "run_next k j (p_ios p) = Some g" "io_inv p"
  shows "shutdown_left (p\<lparr>p_ios := g\<rparr>) < shutdown_left p"
proof -
  have k: "k < length (run_threads (p_ios p))" using assms(2) by (auto simp: run_next_def split: if_splits)
  have st: "stopped i (p_ios p)" if "i < length (io_services (p_ios p))" for i
    using assms(1,3) that by (cases "p_sys p") (auto simp: io_inv_def)
  have "group_ok (p_ios p)" using assms(3) by (simp add: io_inv_def)
  with k have "thread_ok (p_ios p) (run_threads (p_ios p) ! k)" by (simp add: group_ok_def)
  with st have "group_left g < group_left (p_ios p)"
    by (intro run_next_less [OF assms(2)]) (simp add: thread_ok_def)
  moreover have "length (run_threads g) = length (run_threads (p_ios p))"
    using run_next_keeps [OF assms(2)] by (metis length_map)
  ultimately show ?thesis
    using run_next_keeps [OF assms(2)] assms(1) by (simp add: shutdown_left_def ios_left_def)
qed

lemma shutdown_step_less:
  assumes "shutdown_step mx p p'" "proc_inv p" "io_inv p"
  shows "shutdown_left p' < shutdown_left p \<and> p_exit p' \<noteq> Some Terminated"
  using assms(1)
proof cases
  case exit_thread
  from exit_thread(2) assms(2) have "p_exit p' \<noteq> Some Terminated"
    by (cases rule: sys_next_cases) (use exit_thread(1) in auto)
  with sys_next_less [OF exit_thread(2) assms(2,3) exit_thread(1)] show ?thesis by blast
next
  case (worker k q)
  with worker_step_left [OF worker(3-5) assms(2)] show ?thesis by simp
next
  case (io_thread k j g)
  with io_step_left [OF io_thread(3,4) assms(3)] show ?thesis by simp
qed

text \<open>They are steps of the process, unless what a worker's caches do throws.\<close>

definition caches_return :: "('x) start_ext_scheme \<Rightarrow> bool" where
  "caches_return x \<longleftrightarrow> (\<forall>k c. cache_init (worker_caches x k) c \<noteq> Throws)"

lemma shutdown_step_made:
  assumes "shutdown_step mx p p'" "proc_inv p" "caches_return x"
  shows "proc_step x mx p p'"
  using assms(1)
proof cases
  case exit_thread
  then show ?thesis by (rule proc_step.sys)
next
  case (worker k q)
  have "\<not> cache_throws x p j" for j using assms(3) by (simp add: cache_throws_def caches_return_def)
  with worker worker_step_left(2) [OF worker(3-5) assms(2)] show ?thesis
    by (auto intro!: proc_step.pool pool_step.worker)
next
  case (io_thread k j g)
  then show ?thesis by (auto intro!: proc_step.ios group_step.run)
qed

text \<open>Until the process has ended one of them can be made.\<close>

lemma shutdown_moves:
  assumes "proc_inv p" "io_inv p" "p_stop p" "p_exit p = None"
  shows "\<exists>p'. shutdown_step mx p p'"
proof (cases "sys_next p")
  case (Some p')
  then show ?thesis using assms(4) by (blast intro: shutdown_step.exit_thread)
next
  case None
  then consider (join) "p_sys p = Sys_Join" "\<not> (\<forall>i < p_threads p. workers (p_pool p) i = Ended)"
    | (io_join) "p_sys p = Sys_Io_Join" "\<not> joined (p_ios p)"
    using assms(3) by (auto simp: sys_next_def Let_def split: sys_pc.splits if_splits)
  then show ?thesis
  proof cases
    case join
    have inv: "pool_inv (p_threads p) (p_pool p)" "stop_pc (p_pool p) = 3" "interrupted (p_pool p)"
      using assms(1) join(1) by (auto simp: proc_inv_def pool_inv_def stop_ok_def)
    from join(2) obtain i where "i < p_threads p" "workers (p_pool p) i \<noteq> Ended" by blast
    with some_worker_steps [OF inv(1), of i mx] inv(3) obtain k q where
      "k < p_threads p" "worker_next mx k (p_pool p) = Some q" by (auto simp: active_def)
    with inv(2) assms(4) show ?thesis by (blast intro: shutdown_step.worker)
  next
    case io_join
    from some_thread_steps [OF io_join(2)] assms(2) io_join(1) obtain k g where
      "run_next k 0 (p_ios p) = Some g" by (auto simp: io_inv_def)
    moreover have "\<not> before_pool (p_sys p)" using io_join(1) by simp
    ultimately show ?thesis using assms(4) by (blast intro: shutdown_step.io_thread)
  qed
qed

lemma stop_stays:
  assumes "proc_step x mx p p'" "p_stop p" "proc_inv p"
  shows "p_stop p'"
  using assms(1)
proof (cases rule: proc_step.cases)
  case sys
  from sys(2) assms(3) show ?thesis by (cases rule: sys_next_cases) (use assms(2) in auto)
next
  case main
  from main(2) show ?thesis by (cases rule: main_next_cases) (use assms(2) in auto)
qed (use assms(2) in auto)

lemma shutdown_bound:
  "proc_inv p \<Longrightarrow> io_inv p \<Longrightarrow> shutdown_left p \<le> 5 * p_threads p + 3 * length (io_services (p_ios p)) + 10"
  using work_left_bound [of "p_threads p" "p_pool p"] ios_left_le [of p]
  by (cases "p_sys p") (auto simp: shutdown_left_def proc_inv_def)

lemma shutdown_ends:
  "proc_inv p \<Longrightarrow> io_inv p \<Longrightarrow> p_stop p \<Longrightarrow> p_exit p \<noteq> Some Terminated \<Longrightarrow> caches_return x \<Longrightarrow>
     \<exists>p'. (proc_step x mx)\<^sup>*\<^sup>* p p' \<and> p_exit p' = Some (Status 1)"
proof (induction "shutdown_left p" arbitrary: p rule: less_induct)
  case less
  show ?case
  proof (cases "p_exit p = None")
    case True
    with shutdown_moves [OF less.prems(1-3), of mx] shutdown_step_less [OF _ less.prems(1,2)]
      shutdown_step_made [OF _ less.prems(1,5)] obtain p' where
      "proc_step x mx p p'" "shutdown_left p' < shutdown_left p" "p_exit p' \<noteq> Some Terminated" by blast
    with less proc_step_inv io_inv_step stop_stays show ?thesis by (meson converse_rtranclp_into_rtranclp)
  next
    case False
    with less.prems(1,4) show ?thesis by (auto simp: proc_inv_def)
  qed
qed

lemma process_ends:
  assumes "proc_inv p" "io_inv p"
  shows "p_exit p = None \<or> p_exit p = Some Terminated \<or>
      p_exit p = Some (Status 1) \<and> p_stop p \<and> (\<forall>i < p_threads p. workers (p_pool p) i = Ended) \<and> \<not> handling (p_ios p)"
proof (cases "p_exit p = Some (Status 1)")
  case True
  then have sys: "p_sys p = Sys_Exit" using assms(1) by (simp add: proc_inv_def)
  then have "p_stop p" "\<forall>i < p_threads p. workers (p_pool p) i = Ended" using assms(1) by (auto simp: proc_inv_def)
  moreover have "\<not> handling (p_ios p)" using assms(2) sys by (simp add: io_inv_def)
  ultimately show ?thesis using True by simp
next
  case False
  then show ?thesis using assms(1) by (simp add: proc_inv_def)
qed

subsection \<open>Exceptions\<close>

text \<open>Until the process ends no session reconnects, so that only \<^verbatim>\<open>handle_accept\<close> can throw.\<close>

lemma no_reconnect_process:
  assumes "proc_step x mx p p'" "no_reconnect (p_world p)" "p_exit p' \<noteq> Some Terminated"
  shows "no_reconnect (p_world p')"
  using assms(1)
proof (cases rule: proc_step.cases)
  case sys
  from sys(2) assms(2) show ?thesis
    by (auto simp: sys_next_def Let_def split: sys_pc.splits if_splits)
next
  case main
  from main(2) show ?thesis by (cases rule: main_next_cases) (use assms(2) in auto)
next
  case (network w)
  with net_step_no_reconnect [OF network(4) assms(2)] show ?thesis by simp
next
  case (heart sv i r w)
  with heart_slot_no_reconnect [OF assms(2), of x sv i] show ?thesis by simp
next
  case (answer k t i m)
  with assms(2) show ?thesis by (simp add: world_write_def no_reconnect_upd)
next
  case (watch_list scs)
  with assms(2) show ?thesis by (simp add: no_reconnect_def)
next
  case (watch sv i r w)
  with watch_slot_no_reconnect [OF watch(4) assms(2)] show ?thesis by simp
qed (use assms(2,3) in simp_all)

lemma running_before: "proc_step x mx p p' \<Longrightarrow> p_exit p = None"
  by (cases rule: proc_step.cases) simp_all

lemma proc_reach_reconnect:
  "(proc_step x mx)\<^sup>*\<^sup>* p0 p \<Longrightarrow> no_reconnect (p_world p0) \<Longrightarrow> p_exit p = None \<Longrightarrow> no_reconnect (p_world p)"
proof (induction rule: rtranclp_induct)
  case (step p p')
  then show ?case using no_reconnect_process [OF step(2)] running_before [OF step(2)] by simp
qed simp

lemma terminated_cases:
  assumes "proc_step x mx p p'" "p_exit p' = Some Terminated" "proc_inv p"
  obtains (accept) "handling (p_srv p)" "accept_throws x (p_world p) (p_world p')"
    | (session) "handling (p_ios p)" "session_throws x (p_world p) (p_world p')"
    | (watcher) sv i where "watch_lets_out x" "watched sv i (p_world p)" "watch_slot x sv i (p_world p) = Some (Throws, p_world p')"
    | (caches) k where "cache_throws x p k" "p_world p' = p_world p"
  using assms(1)
proof (cases rule: proc_step.cases)
  case sys
  from sys(2) assms(3) have "p_exit p' \<noteq> Some Terminated" by (cases rule: sys_next_cases) (use sys(1) in auto)
  with assms(2) show ?thesis by simp
next
  case main
  from main(2) have "p_exit p' = p_exit p" by (cases rule: main_next_cases) auto
  with assms(2) main(1) show ?thesis by simp
next
  case (accept_throws w)
  with accept show ?thesis by simp
next
  case (session_throws w)
  with session show ?thesis by simp
next
  case (watch_throws sv i w)
  with watcher show ?thesis by simp
next
  case (caches_throw k)
  with caches show ?thesis by simp
qed (use assms(2) in simp_all)

text \<open>The watcher's callback is a run of its steps: the list, then slot after slot.\<close>

lemma watch_slots_run:
  assumes "risky_list (\<lambda>(sv, i). watch_slot x sv i) sis (p_world p) = Some (r, w)" "p_exit p = None"
    and "\<forall>(sv, i) \<in> set sis. watched sv i (p_world p)" "watch_lets_out x \<or> r = Ret ()"
  shows "(proc_step x mx)\<^sup>*\<^sup>* p (if r = Throws then p\<lparr>p_world := w, p_exit := Some Terminated\<rparr> else p\<lparr>p_world := w\<rparr>)"
  using assms
proof (induction sis arbitrary: p)
  case Nil
  then have "r = Ret ()" "p\<lparr>p_world := w\<rparr> = p" by auto
  then show ?case by simp
next
  case (Cons si sis)
  obtain sv i where si: "si = (sv, i)" by (cases si)
  from Cons.prems(1) obtain r1 w1 where w1: "watch_slot x sv i (p_world p) = Some (r1, w1)"
    by (auto simp: si risky_then_def split: option.splits)
  have sv: "watched sv i (p_world p)" using Cons.prems(3) by (simp add: si)
  show ?case
  proof (cases r1)
    case (Ret u)
    let ?p = "p\<lparr>p_world := w1\<rparr>"
    have "proc_step x mx p ?p" by (rule proc_step.watch [OF Cons.prems(2) sv w1]) (simp add: Ret)
    moreover have "risky_list (\<lambda>(sv, i). watch_slot x sv i) sis (p_world ?p) = Some (r, w)"
      using Cons.prems(1) w1 Ret by (simp add: si risky_then_def split: unit.splits)
    moreover have "\<forall>(sv, i) \<in> set sis. watched sv i (p_world ?p)"
      using Cons.prems(3) watch_slot_config [OF w1] by (simp add: watched_def split_beta)
    ultimately show ?thesis
      using Cons.IH [of ?p] Cons.prems(2,4) by (auto intro: converse_rtranclp_into_rtranclp)
  next
    case Throws
    with Cons.prems(1) w1 have "r = Throws" "w = w1" by (auto simp: si risky_then_def)
    moreover from this Cons.prems(2,4) sv w1 Throws have "proc_step x mx p (p\<lparr>p_world := w, p_exit := Some Terminated\<rparr>)"
      by (intro proc_step.watch_throws) simp_all
    ultimately show ?thesis by auto
  qed
qed

lemma watcher_runs:
  assumes "servlist_callback x scs (p_world p) = Some (r, w)" "p_exit p = None" "watch_lets_out x \<or> r \<noteq> Throws"
  shows "(proc_step x mx)\<^sup>*\<^sup>* p (if r = Throws then p\<lparr>p_world := w, p_exit := Some Terminated\<rparr> else p\<lparr>p_world := w\<rparr>)"
proof (cases "scs = []")
  case True
  with assms(1) show ?thesis by (auto simp: servlist_callback_def)
next
  case False
  let ?m = "insert_servers scs []"
  let ?p = "p\<lparr>p_world := (p_world p)\<lparr>config := (config (p_world p))\<lparr>server_map := ?m\<rparr>\<rparr>\<rparr>"
  let ?sis = "[(sv, i). sv \<leftarrow> map snd ?m, i \<leftarrow> [0..<nat (connect_count (config (p_world p)))]]"
  let ?run = "risky_list (\<lambda>(sv, i). watch_slot x sv i) ?sis ((p_world p)\<lparr>config := (config (p_world p))\<lparr>server_map := ?m\<rparr>\<rparr>)"
  have "map_option (\<lambda>(r, w2). (case r of Ret () \<Rightarrow> Ret 0 | Throws \<Rightarrow> Throws, w2)) ?run = Some (r, w)"
    using assms(1) unfolding servlist_callback_def Let_def if_not_P [OF False] .
  then obtain z where "?run = Some z" "(case z of (r, w2) \<Rightarrow> (case r of Ret () \<Rightarrow> Ret 0 | Throws \<Rightarrow> Throws, w2)) = (r, w)"
    unfolding map_option_eq_Some by blast
  then obtain r1 where r1: "?run = Some (r1, w)" "r = (case r1 of Ret () \<Rightarrow> Ret 0 | Throws \<Rightarrow> Throws)"
    by (cases z) simp
  have t: "r = Throws \<longleftrightarrow> r1 = Throws"
    unfolding r1(2) by (cases r1) (simp_all split: unit.split)
  have t2: "r1 = Ret () \<or> r1 = Throws" by (cases r1) simp_all
  have w: "p_world ?p = (p_world p)\<lparr>config := (config (p_world p))\<lparr>server_map := ?m\<rparr>\<rparr>" by simp
  have "proc_step x mx p ?p" by (rule proc_step.watch_list [OF assms(2) False])
  moreover have "(proc_step x mx)\<^sup>*\<^sup>* ?p (if r1 = Throws then ?p\<lparr>p_world := w, p_exit := Some Terminated\<rparr> else ?p\<lparr>p_world := w\<rparr>)"
  proof (rule watch_slots_run)
    show "risky_list (\<lambda>(sv, i). watch_slot x sv i) ?sis (p_world ?p) = Some (r1, w)"
      unfolding w by (rule r1(1))
    show "\<forall>(sv, i) \<in> set ?sis. watched sv i (p_world ?p)" by (auto simp: watched_def)
    show "p_exit ?p = None" using assms(2) by simp
    show "watch_lets_out x \<or> r1 = Ret ()" using assms(3) t t2 by blast
  qed
  ultimately have "(proc_step x mx)\<^sup>*\<^sup>* p (if r1 = Throws then ?p\<lparr>p_world := w, p_exit := Some Terminated\<rparr> else ?p\<lparr>p_world := w\<rparr>)"
    by (rule converse_rtranclp_into_rtranclp)
  then show ?thesis unfolding t by (cases "r1 = Throws") simp_all
qed

subsection \<open>What a started process has\<close>

definition config_ok :: "configwrap \<Rightarrow> world \<Rightarrow> bool" where
  "config_ok c w \<longleftrightarrow> world_ok w \<and> no_reconnect w \<and> config w = c"

lemma risky_list_keeps:
  assumes "\<And>a w r w'. f a w = Some (r, w') \<Longrightarrow> I w \<Longrightarrow> I w'"
  shows "risky_list f as w = Some (r, w') \<Longrightarrow> I w \<Longrightarrow> I w'"
proof (induction as arbitrary: w)
  case (Cons a as)
  from Cons.prems(1) obtain r1 w1 where f: "f a w = Some (r1, w1)"
    by (auto simp: risky_then_def split: option.splits)
  have "I w1" by (rule assms [OF f Cons.prems(2)])
  with f Cons.prems(1) Cons.IH [of w1] show ?case
    by (cases r1) (auto simp: risky_then_def split: unit.splits)
qed simp

lemma start_slot_keeps:
  assumes "start_slot x addrs w = Some (r, w')" "config_ok c w"
  shows "config_ok c w'"
proof (cases "w' = w")
  case False
  obtain ep where "act_bind (peer_handle_client_new x ep) (\<lambda>c. act_do (registe x c) (act_ret ())) w = (r, w')"
    using assms(1) False by (auto simp: start_slot_def Let_def split: if_splits option.splits)
  then have "w' = snd (peer_handle_client_new x ep w) \<or> (\<exists>q. w' = registe x q (snd (peer_handle_client_new x ep w)))"
    by (auto simp: act_bind_def act_do_def act_ret_def split: prod.splits outcome.splits)
  moreover have "config_ok c (snd (peer_handle_client_new x ep w))"
    using assms(2) peer_handle_client_ok(1) [of w x ep] peer_handle_client_config(1) [of x ep w]
      keeps_peer_handle_client(1) [of x ep] by (simp add: config_ok_def keeps_def)
  ultimately show ?thesis by (auto simp: config_ok_def)
qed (use assms(2) in simp)

lemma init_server_connection_keeps:
  assumes "init_server_connection x w = Some w'" "config_ok c w"
  shows "config_ok c w'"
proof -
  from assms(1) obtain r where "risky_list (\<lambda>(sv, i). start_slot x sv)
      [(sv, i). sv \<leftarrow> map snd (server_map (config w)), i \<leftarrow> [0..<nat (connect_count (config w))]] w = Some (r, w')"
    unfolding init_server_connection_def by auto
  then show ?thesis
    by (rule risky_list_keeps [where I = "config_ok c", rotated]) (use assms(2) in \<open>auto intro: start_slot_keeps\<close>)
qed

lemma started:
  assumes "main_start x argv c0 = Starts p"
  obtains port lp cp c where "main_args argv = Some (port, lp, cp)" "cfg_init x cp c0 = (Ret 0, c)"
    "p = process_new (if port = 0 then cfg_port c else port) (nat (thread_cout c)) (session_home x) (services_made x c0 c) (p_world p)"
    "bind_ok x (p_port p)" "config_ok c (p_world p)" "0 < services_made x c0 c"
proof -
  from assms obtain port lp cp where a: "main_args argv = Some (port, lp, cp)" "log_path_ok x lp"
    by (auto simp: main_start_def split: option.splits prod.splits if_splits)
  from assms a obtain c where c: "cfg_init x cp c0 = (Ret 0, c)"
    by (auto simp: main_start_def split: prod.splits outcome.splits if_splits)
  let ?port = "if port = 0 then cfg_port c else port"
  let ?w = "snd (start_accept x (world_new c))"
  have b: "bind_ok x ?port" "services_made x c0 c \<noteq> 0"
    using assms a c by (auto simp: main_start_def peer_handle_server_new_def Let_def split: if_splits)
  then obtain w1 where w1: "init_server_connection x ?w = Some w1"
      "p = process_new ?port (nat (thread_cout c)) (session_home x) (services_made x c0 c) w1"
    using assms a c
    by (auto simp: main_start_def peer_handle_server_new_def Let_def split: option.splits prod.splits)
  have "config_ok c ?w"
    using world_ok_new [of c] by (auto simp: config_ok_def start_accept_def world_ok_def world_new_def no_reconnect_def Let_def)
  from init_server_connection_keeps [OF w1(1) this] a c b w1(2) that show ?thesis
    by (simp add: process_new_def)
qed

subsection \<open>Properties\<close>

text \<open>C16: A signal ends the process. In every state reachable from the start, whatever the
  interleaving of threads, the process is running, or was ended by an exception, or has
  exited with status 1; in the last case a signal had come, every worker had returned and no session
  handler was running. Once the signal has come, at most 5 n + 3 m + 10 of these steps are left, for
  n workers and m io services: those of the exit thread, those of a worker after its interruption
  and those of an io thread after its service was stopped. Each of them makes that number smaller,
  no step of any thread makes it larger, and as long as the process runs one of them can be
  made. The steps that workers and io threads make before the exit thread has come to them are not
  counted, so a scheduler has to let the exit thread run. A run to status 1 exists
  unless a worker's caches throw; the main thread's own return, status 0, is never reached because it
  waits for the heart-beat thread.\<close>

theorem signal_ends_process:
  assumes "(proc_step x mx)\<^sup>*\<^sup>* (process_new port n home m w) p"
  shows "(p_exit p = None \<or> p_exit p = Some Terminated \<or>
        p_exit p = Some (Status 1) \<and> p_stop p \<and> (\<forall>i < p_threads p. workers (p_pool p) i = Ended) \<and> \<not> handling (p_ios p)) \<and>
     (p_stop p \<longrightarrow> shutdown_left p \<le> 5 * p_threads p + 3 * length (io_services (p_ios p)) + 10 \<and>
        (\<forall>p'. proc_step x mx p p' \<longrightarrow> shutdown_left p' \<le> shutdown_left p) \<and>
        (\<forall>p'. shutdown_step mx p p' \<longrightarrow> shutdown_left p' < shutdown_left p) \<and>
        (p_exit p = None \<longrightarrow> (\<exists>p'. shutdown_step mx p p')) \<and>
        (caches_return x \<longrightarrow> (\<forall>p'. shutdown_step mx p p' \<longrightarrow> proc_step x mx p p')) \<and>
        (p_exit p \<noteq> Some Terminated \<and> caches_return x \<longrightarrow> (\<exists>p'. (proc_step x mx)\<^sup>*\<^sup>* p p' \<and> p_exit p' = Some (Status 1))))"
proof -
  have inv: "proc_inv p" "io_inv p" by (rule proc_reach_inv [OF assms] proc_reach_io [OF assms])+
  show ?thesis
    using process_ends [OF inv] shutdown_bound [OF inv] proc_step_left [OF _ inv, of x mx]
      shutdown_step_less [OF _ inv, of mx] shutdown_moves [OF inv, of mx] shutdown_step_made [OF _ inv(1), of mx _ x]
      shutdown_ends [OF inv, of x mx] by blast
qed

text \<open>A start with the port given: the settings all read 1, one server is in the list.\<close>

definition demo_cache :: cache_ext where
  "demo_cache = \<lparr>sess_init = (\<lambda>_ _. Ret 0), sess_lookup = (\<lambda>_. []), mongo_connect = (\<lambda>_. Ret None)\<rparr>"

definition demo_start :: start_ext where
  "demo_start = net_ext.extend demo_net \<lparr>log_path_ok = (\<lambda>_. True), bind_ok = (\<lambda>p. p = 8080),
     hardware_concurrency = 8, made_at_startup = False, session_home = id, worker_caches = (\<lambda>_. demo_cache),
     watch_lets_out = True\<rparr>"

lemma demo_caches_return: "caches_return demo_start"
  by (simp add: caches_return_def cache_init_def demo_start_def demo_cache_def net_ext.defs Let_def)

text \<open>A process of one io service whose thread is made and which then gets a signal.\<close>

lemma demo_signal:
  "\<exists>p. (proc_step demo_start 4)\<^sup>*\<^sup>* (process_new 80 2 id 1 (world_new (configwrap_new 4 0))) p \<and> p_stop p \<and> p_exit p = None"
proof -
  let ?step = "proc_step demo_start 4"
  have main: "?step\<^sup>*\<^sup>* p p'" if "(((\<lambda>q. Option.bind q main_next) ^^ n) (Some p)) = Some p'" "p_exit p = None" for n p p'
    using that
  proof (induction n arbitrary: p')
    case (Suc n)
    then obtain q where q: "((\<lambda>q. Option.bind q main_next) ^^ n) (Some p) = Some q" "main_next q = Some p'"
      by (auto simp: bind_eq_Some_conv)
    have "p_exit q = None"
      using q(1) that(2)
    proof (induction n arbitrary: q)
      case (Suc n)
      then obtain r where "p_exit r = None" "main_next r = Some q" by (auto simp: bind_eq_Some_conv)
      then show ?case by (auto elim!: main_next_cases)
    qed simp
    with q Suc show ?case by (meson proc_step.main rtranclp.rtrancl_into_rtrancl)
  qed simp
  let ?p = "process_new 80 2 id 1 (world_new (configwrap_new 4 0))"
  let ?q = "?p\<lparr>p_srv := \<lparr>io_home = (\<lambda>h. 0), io_services = [io_service_new], run_threads = replicate 4 (0, Run_Wait)\<rparr>,
    p_ios := \<lparr>io_home = id, io_services = [io_service_new], run_threads = [(0, Run_Wait)]\<rparr>, p_main := Run_Pool\<rparr>"
  have "((\<lambda>q. Option.bind q main_next) ^^ 6) (Some ?p) = Some ?q"
    by (simp add: numeral_eq_Suc main_next_def process_new_def server_run_next_def provide_run_next_def create_thread_def
        server_group_new_def provide_new_def)
  from main [OF this] have "?step\<^sup>*\<^sup>* ?p ?q" by (simp add: process_new_def)
  moreover have "?step ?q (?q\<lparr>p_armed := False, p_stop := True\<rparr>)"
    by (rule proc_step.signal) (simp_all add: process_new_def stopped_def io_service_new_def)
  ultimately have "?step\<^sup>*\<^sup>* ?p (?q\<lparr>p_armed := False, p_stop := True\<rparr>)" by simp
  moreover have "p_exit (?q\<lparr>p_armed := False, p_stop := True\<rparr>) = None" by (simp add: process_new_def)
  ultimately show ?thesis by (intro exI [of _ "?q\<lparr>p_armed := False, p_stop := True\<rparr>"] conjI) simp_all
qed

theorem signal_ends_process_witness:
  "\<exists>p p'. p_stop p \<and> (proc_step demo_start 4)\<^sup>*\<^sup>* (process_new 80 2 id 1 (world_new (configwrap_new 4 0))) p \<and>
     (proc_step demo_start 4)\<^sup>*\<^sup>* p p' \<and> p_exit p' = Some (Status 1)"
proof -
  obtain p where p: "(proc_step demo_start 4)\<^sup>*\<^sup>* (process_new 80 2 id 1 (world_new (configwrap_new 4 0))) p" "p_stop p" "p_exit p = None"
    using demo_signal by blast
  with signal_ends_process [OF p(1)] obtain p' where
    "(proc_step demo_start 4)\<^sup>*\<^sup>* p p'" "p_exit p' = Some (Status 1)" using demo_caches_return by auto
  with p show ?thesis by blast
qed

text \<open>C18: Who runs the handlers. In every reachable state no two threads of the pool are in
  handlers of the same session (each service has one thread, and a session's handlers stay on its
  service); and until a signal has come no thread of the pool or of the acceptor has returned from
  \<^verbatim>\<open>run\<close>, and \<^verbatim>\<open>main\<close> is not past
  \<^verbatim>\<open>server->join()\<close>.\<close>

theorem handlers_exclusive:
  assumes "(proc_step x mx)\<^sup>*\<^sup>* (process_new port n home m w) p"
  shows "(\<forall>a b h. a < length (run_threads (p_ios p)) \<and> b < length (run_threads (p_ios p)) \<and>
        snd (run_threads (p_ios p) ! a) = Run_Handler h \<and> snd (run_threads (p_ios p) ! b) = Run_Handler h \<longrightarrow> a = b) \<and>
     (\<not> p_stop p \<longrightarrow> Run_Returned \<notin> snd ` set (run_threads (p_srv p)) \<and> Run_Returned \<notin> snd ` set (run_threads (p_ios p)) \<and>
        p_main p \<noteq> Join_Heart)"
proof -
  have inv: "proc_inv p" "io_inv p" by (rule proc_reach_inv [OF assms] proc_reach_io [OF assms])+
  then have "distinct (map fst (run_threads (p_ios p)))" "group_ok (p_ios p)" by (simp_all add: io_inv_def)
  from one_handler [OF this] have one: "\<forall>a b h. a < length (run_threads (p_ios p)) \<and> b < length (run_threads (p_ios p)) \<and>
        snd (run_threads (p_ios p) ! a) = Run_Handler h \<and> snd (run_threads (p_ios p) ! b) = Run_Handler h \<longrightarrow> a = b"
    by blast
  have "p_sys p = Sys_Sleep" if "\<not> p_stop p" using inv(1) that by (simp add: proc_inv_def)
  with inv(2) have "Run_Returned \<notin> snd ` set (run_threads (p_srv p)) \<and> Run_Returned \<notin> snd ` set (run_threads (p_ios p)) \<and>
        p_main p \<noteq> Join_Heart" if "\<not> p_stop p"
    using that by (fastforce simp: io_inv_def group_ok_def thread_ok_def)
  with one show ?thesis by blast
qed

theorem handlers_exclusive_witness:
  "\<exists>p. (proc_step demo_start 4)\<^sup>*\<^sup>* (process_new 80 2 id 1 (world_new (configwrap_new 4 0))) p \<and> \<not> p_stop p \<and> p_main p \<noteq> Join_Heart"
  using handlers_exclusive [of demo_start 4 80 2 id 1 "world_new (configwrap_new 4 0)" "process_new 80 2 id 1 (world_new (configwrap_new 4 0))"]
  by (auto simp: process_new_def)

text \<open>C17: What ends the server without an exit. In a started process a step that ends it by
  \<^verbatim>\<open>std::terminate\<close> is one of three: the accept of a connection whose peer has gone, so that
  \<^verbatim>\<open>remote_endpoint()\<close> throws, before anything was registered; the server-list watcher at a slot that is
  not connected and whose server does not resolve, if the cache that calls it lets the exception out; a
  worker whose caches throw before it serves its first task. No handler of a session is
  among them. Each of these steps can be made whenever its condition holds, the first whenever a thread of the
  acceptor is in its handler; afterwards nothing runs, no stop sequence, no answer to a queued
  task. (Undefined behaviour is not a step.)\<close>

theorem what_terminates_server:
  assumes "main_start x argv c0 = Starts p0" "(proc_step x mx)\<^sup>*\<^sup>* p0 p"
    and accept: "accept = (\<lambda>p'. handling (p_srv p) \<and>
       p_world p' = (case start_accept x (p_world p) of (i, w) \<Rightarrow> upd_session i (\<lambda>s. s\<lparr>remote_endpoint := None\<rparr>) w))"
    and watch: "unresolved = (\<exists>sv i. watched sv i (p_world p) \<and> fix_get (slot_id sv (int i)) (cpeers (p_world p)) = None \<and>
       length (split_str x (CHR '':'') sv) = 3 \<and>
       resolve x (next_session (p_world p)) (split_str x (CHR '':'') sv ! 1) (split_str x (CHR '':'') sv ! 2) = None)"
  shows "(\<forall>p'. proc_step x mx p p' \<and> p_exit p' = Some Terminated \<longrightarrow>
        accept p' \<or> watch_lets_out x \<and> unresolved \<or> (\<exists>k. cache_throws x p k)) \<and>
     (p_exit p = None \<longrightarrow> ((\<exists>p'. proc_step x mx p p' \<and> p_exit p' = Some Terminated) \<longleftrightarrow>
        handling (p_srv p) \<or> watch_lets_out x \<and> unresolved \<or> (\<exists>k. cache_throws x p k))) \<and>
     (p_exit p = Some Terminated \<longrightarrow> (\<nexists>p'. proc_step x mx p p'))"
proof -
  obtain port home n m w where start: "p0 = process_new port n home m w" "no_reconnect (p_world p0)"
    by (rule started [OF assms(1)]) (auto simp: config_ok_def)
  have inv: "proc_inv p" using assms(2) unfolding start(1) by (rule proc_reach_inv)
  obtain i w1 where a: "start_accept x (p_world p) = (i, w1)" by (cases "start_accept x (p_world p)")
  note throws = accept_throws_iff [OF a]
  have only: "accept p' \<or> watch_lets_out x \<and> unresolved \<or> (\<exists>k. cache_throws x p k)"
    if "proc_step x mx p p'" "p_exit p' = Some Terminated" for p'
    using that inv
  proof (cases rule: terminated_cases)
    case accept
    with throws a show ?thesis by (simp add: assms(3))
  next
    case session
    with session_handlers_return proc_reach_reconnect [OF assms(2) start(2) running_before [OF that(1)]] show ?thesis by blast
  next
    case (watcher sv i)
    then show ?thesis unfolding watch_slot_throws by (auto simp: assms(4))
  qed blast
  have made: "\<exists>p'. proc_step x mx p p' \<and> p_exit p' = Some Terminated"
    if "p_exit p = None" "proc_step x mx p (p\<lparr>p_world := w', p_exit := Some Terminated\<rparr>)" for w'
    using that(2) by (intro exI [of _ "p\<lparr>p_world := w', p_exit := Some Terminated\<rparr>"]) simp
  have "\<exists>p'. proc_step x mx p p' \<and> p_exit p' = Some Terminated" if "p_exit p = None" "handling (p_srv p)"
    using that throws by (intro made [OF that(1) proc_step.accept_throws]) simp_all
  moreover have "\<exists>p'. proc_step x mx p p' \<and> p_exit p' = Some Terminated" if "p_exit p = None" "watch_lets_out x" "unresolved"
  proof -
    from that(3) obtain sv i where "watched sv i (p_world p)" "watch_slot x sv i (p_world p) = Some (Throws, p_world p)"
      unfolding assms(4) watch_slot_throws by blast
    with that made [OF that(1) proc_step.watch_throws] show ?thesis by blast
  qed
  moreover have "\<exists>p'. proc_step x mx p p' \<and> p_exit p' = Some Terminated" if "p_exit p = None" "cache_throws x p k" for k
    using proc_step.caches_throw [OF that, of mx] by (metis process.select_convs(11) process.surjective process.update_convs(11))
  moreover have "p_exit p = None" if "proc_step x mx p p'" for p' using that by (rule running_before)
  ultimately show ?thesis using only by (auto simp: assms(3))
qed


lemma demo_starts:
  "\<exists>p. main_start demo_start [''bserver'', ''8080'', ''/tmp/l'', ''/etc/x.ini''] (configwrap_new 4 0) = Starts p"
proof -
  let ?s = "main_start demo_start [''bserver'', ''8080'', ''/tmp/l'', ''/etc/x.ini''] (configwrap_new 4 0)"
  have "(case ?s of Starts p \<Rightarrow> True | _ \<Rightarrow> False)" by code_simp
  then show ?thesis by (auto split: start.splits)
qed


text \<open>That process, its first acceptor thread made and in the handler of an accept.\<close>

lemma demo_accepting:
  assumes "p_exit p = None" "p_main p = Run_Server" "p_srv p = server_group_new"
  shows "\<exists>p'. (proc_step x mx)\<^sup>*\<^sup>* p p' \<and> p_exit p' = None \<and> handling (p_srv p')"
proof -
  let ?s = "\<lambda>q pc. \<lparr>io_home = (\<lambda>h. 0), io_services = [io_service_new\<lparr>io_ready := q\<rparr>], run_threads = [(0, pc)]\<rparr>"
  have made: "proc_step x mx p (p\<lparr>p_srv := ?s [] Run_Wait\<rparr>)"
    using assms by (intro proc_step.main) (simp_all add: main_next_def server_run_next_def server_group_new_def
        create_thread_def io_service_new_def)
  have posted: "proc_step x mx (p\<lparr>p_srv := ?s [] Run_Wait\<rparr>) (p\<lparr>p_srv := ?s [7] Run_Wait\<rparr>)"
    using assms(1) proc_step.srv [of "p\<lparr>p_srv := ?s [] Run_Wait\<rparr>" "post_handler 7 (?s [] Run_Wait)" x mx]
      group_step.post [of "?s [] Run_Wait" 7]
    by (simp add: post_handler_def io_service_new_def)
  have "run_next 0 0 (?s [7] Run_Wait) = Some (?s [] (Run_Handler 7))"
    by (simp add: run_next_def set_pc_def io_service_new_def)
  then have taken: "proc_step x mx (p\<lparr>p_srv := ?s [7] Run_Wait\<rparr>) (p\<lparr>p_srv := ?s [] (Run_Handler 7)\<rparr>)"
    using assms(1) proc_step.srv [of "p\<lparr>p_srv := ?s [7] Run_Wait\<rparr>" "?s [] (Run_Handler 7)" x mx] group_step.run by simp
  have "(proc_step x mx)\<^sup>*\<^sup>* p (p\<lparr>p_srv := ?s [] (Run_Handler 7)\<rparr>)"
    using made posted taken by (meson converse_rtranclp_into_rtranclp rtranclp.rtrancl_refl)
  then show ?thesis
    using assms(1) by (intro exI [of _ "p\<lparr>p_srv := ?s [] (Run_Handler 7)\<rparr>"]) (simp add: handling_def)
qed

theorem what_terminates_server_witness:
  "\<exists>p0 p p'. main_start demo_start [''bserver'', ''8080'', ''/tmp/l'', ''/etc/x.ini''] (configwrap_new 4 0) = Starts p0 \<and>
     (proc_step demo_start 4)\<^sup>*\<^sup>* p0 p \<and> p_exit p = None \<and> proc_step demo_start 4 p p' \<and> p_exit p' = Some Terminated"
proof -
  obtain p0 where p0: "main_start demo_start [''bserver'', ''8080'', ''/tmp/l'', ''/etc/x.ini''] (configwrap_new 4 0) = Starts p0"
    using demo_starts by blast
  then have "p_exit p0 = None \<and> p_main p0 = Run_Server \<and> p_srv p0 = server_group_new"
    by (rule started) (metis process_new_def process.select_convs)
  then obtain p where p: "(proc_step demo_start 4)\<^sup>*\<^sup>* p0 p" "p_exit p = None" "handling (p_srv p)"
    using demo_accepting by blast
  from what_terminates_server [OF p0 p(1) refl refl] p p0 show ?thesis by blast
qed

end
