(* ===== verification/LoadClient.thy ===== *)
theory LoadClient
  imports Sessions Lifecycle
begin

text \<open>
  The load test client of include/system_tool.h: the three request loops, the commands that
  start them in threads, and the console. The socket is the bytes sent and the bytes that will
  arrive; the copy through the boost iterators in \<^verbatim>\<open>Base64Encode\<close>, the random generator, connecting
  and the messages of the missing push_server.pb.h are arguments. \<open>None\<close> is undefined behaviour, as in Connections.
\<close>

subsection \<open>One exchange\<close>

record test_sock =
  ts_sent :: bytes
  ts_in :: bytes
  ts_count :: nat

record client_ext =
  base64 :: "string \<Rightarrow> string"
  rand_seq :: "nat \<Rightarrow> nat"
  connects :: bool
  split_compress :: splitter

type_synonym test_run = "test_sock \<Rightarrow> (unit outcome \<times> test_sock) option"

text \<open>The counter of all exchanges, and the line a turn of \<^verbatim>\<open>test_print_global_count\<close> logs, with the count
  the next turn starts from.\<close>

definition test_add_count :: "test_sock \<Rightarrow> test_sock" where
  "test_add_count s = s\<lparr>ts_count := Suc (ts_count s)\<rparr>"

definition test_print_global_count :: "nat \<Rightarrow> test_sock \<Rightarrow> string \<times> nat" where
  "test_print_global_count old s =
     (''now receive count:'' @ show_nat (ts_count s) @ '' tps:'' @ show_int (int (ts_count s) - int old), ts_count s)"

text \<open>\<^verbatim>\<open>Base64Encode\<close>: the text with its padding.\<close>

definition client_base64 :: "client_ext \<Rightarrow> string \<Rightarrow> string" where
  "client_base64 X input = base64 X input @ replicate ((3 - length input mod 3) mod 3) (CHR ''='')"

text \<open>\<^verbatim>\<open>boost::asio::read\<close> of \<open>n\<close> bytes: it throws when the stream ends first.\<close>

definition sock_read :: "nat \<Rightarrow> (bytes \<Rightarrow> test_run) \<Rightarrow> test_run" where
  "sock_read n k s = (if length (ts_in s) < n then Some (Throws, s)
     else k (take n (ts_in s)) (s\<lparr>ts_in := drop n (ts_in s)\<rparr>))"

text \<open>Send a frame, read a head, decode it, and read the declared body into the vector. The status
  of \<^verbatim>\<open>decode_header\<close> is not looked at, so the vector may be smaller than the read.\<close>

definition test_exchange :: "int32 \<Rightarrow> bytes \<Rightarrow> head \<Rightarrow> test_run" where
  "test_exchange c service_content g s =
     (let smf = make_frame \<lparr>magic = 0, len = len g, cmd = c\<rparr> service_content (message_format_new g)
      in sock_read message_head_length (\<lambda>hd s1.
           case decode_header ((message_format_new g)\<lparr>mf_head := hd\<rparr>) of (res, h, mf) \<Rightarrow>
             if length (mf_body mf) < mf_body_length mf then None
             else sock_read (mf_body_length mf) (\<lambda>body s2. Some (Ret (), test_add_count s2)) s1)
         (s\<lparr>ts_sent := ts_sent s @ the (wire smf)\<rparr>))"

fun test_repeat :: "(nat \<Rightarrow> test_run) \<Rightarrow> nat \<Rightarrow> nat \<Rightarrow> test_run" where
  "test_repeat f i 0 s = Some (Ret (), s)"
| "test_repeat f i (Suc n) s =
     (case f i s of None \<Rightarrow> None | Some (Throws, s') \<Rightarrow> Some (Throws, s') | Some (Ret _, s') \<Rightarrow> test_repeat f (Suc i) n s')"

text \<open>Exceptions end the loop and are logged.\<close>

definition caught :: "(unit outcome \<times> test_sock) option \<Rightarrow> test_sock option" where
  "caught r = map_option snd r"

subsection \<open>The loops\<close>

definition push_json :: "string \<Rightarrow> nat \<Rightarrow> string \<Rightarrow> string" where
  "push_json cid type content =
     ''{\"type\":10, \"push_req\":{\"cid\":\"'' @ cid @ ''\",\"type\":'' @ show_nat type @
     '',\"msgid\":123456789,\"expiry\":1234,\"data\":\"'' @ content @ ''\"}}''"

text \<open>\<^verbatim>\<open>random_num\<close> of this file: \<^verbatim>\<open>rand() % count\<close>.\<close>

definition test_random_num :: "nat \<Rightarrow> int \<Rightarrow> int" where
  "test_random_num r n = int r mod n"

text \<open>\<^verbatim>\<open>test_send_loop\<close>; the parameter \<open>content\<close> is hidden by a local variable. The sum of the
  start and the random number is a C \<^verbatim>\<open>int\<close>: its overflow is undefined.\<close>

definition int_ok :: "int \<Rightarrow> bool" where
  "int_ok n \<longleftrightarrow> - (2 ^ 31) \<le> n \<and> n < 2 ^ 31"

definition test_send_loop ::
  "client_ext \<Rightarrow> string \<Rightarrow> string \<Rightarrow> int \<Rightarrow> int \<Rightarrow> int \<Rightarrow> int32 \<Rightarrow> head \<Rightarrow> test_sock \<Rightarrow> test_sock option" where
  "test_send_loop X content cid_prex count start num c g s =
     (if \<not> connects X then Some s
      else let content = client_base64 X ''{\"type\":\"test\"}''
           in caught (test_repeat (\<lambda>i.
                let start_tmp = start + (if 0 < num then test_random_num (rand_seq X i) num else 0)
                in if int_ok start_tmp
                   then test_exchange c (bytes_of (push_json (cid_prex @ show_int start_tmp) 200 content)) g
                   else (\<lambda>_. None))
              0 (nat count) s))"

definition test_send_specify ::
  "client_ext \<Rightarrow> string \<Rightarrow> string \<Rightarrow> int \<Rightarrow> nat \<Rightarrow> int32 \<Rightarrow> head \<Rightarrow> test_sock \<Rightarrow> test_sock option" where
  "test_send_specify X content cid_prex count i c g s =
     (if \<not> connects X then Some s
      else let strcontent = ''{\"title\":\"test'' @ show_nat i @ ''\",\"type\":\"6\", \"url\":\"http://www.baidu.com\", \"content\":\"''
                 @ content @ show_nat i @ ''\"}'';
               content2 = client_base64 X strcontent
           in caught (test_repeat (\<lambda>_. test_exchange c (bytes_of (push_json cid_prex 100 content2)) g) 0 (nat count) s))"

text \<open>\<^verbatim>\<open>test_send_service_request\<close>; \<open>payload\<close> is the serialized \<^verbatim>\<open>PushPacket\<close>. The serialized
  request goes through \<^verbatim>\<open>c_str()\<close>; the parsed answer is only printed. The counter is a \<^verbatim>\<open>size_t\<close>, so
  a negative count is converted to one.\<close>

definition test_request :: "bytes \<Rightarrow> service_request" where
  "test_request payload = \<lparr>sq_sessid = Some (bytes_of ''test''), sq_service_type = Some 100,
     sq_sn = Some (bytes_of ''1234567890''), sq_payload = Some payload, sq_unknown = []\<rparr>"

definition c_str_bytes :: "bytes \<Rightarrow> bytes" where
  "c_str_bytes b = takeWhile (\<lambda>x. x \<noteq> 0) b"

definition test_send_service_request ::
  "client_ext \<Rightarrow> pb_rt \<Rightarrow> bytes \<Rightarrow> int \<Rightarrow> int32 \<Rightarrow> head \<Rightarrow> test_sock \<Rightarrow> test_sock option" where
  "test_send_service_request X R payload count c g s =
     (if \<not> connects X then Some s
      else let service_content = serialize R service_request_desc (test_request payload)
           in caught (test_repeat (\<lambda>_. test_exchange c (c_str_bytes service_content) g) 0 (unat (word_of_int count :: 64 word)) s))"

subsection \<open>Commands\<close>

datatype test_thread =
  Send_Loop string string string string int int int int int
| Send_Specify string string string string int int int
| Send_Request string string string string int int int
| Send string string string int

text \<open>What a thread does to its socket, which starts with \<open>ts_in\<close> to come; the connection of \<^verbatim>\<open>test_send\<close> and
  all it sends are commented out.\<close>

definition test_send :: "test_sock \<Rightarrow> test_sock option" where
  "test_send s = Some s"

definition run_test_thread :: "client_ext \<Rightarrow> pb_rt \<Rightarrow> bytes \<Rightarrow> head \<Rightarrow> test_thread \<Rightarrow> test_sock \<Rightarrow> test_sock option" where
  "run_test_thread X R payload g t s =
     (case t of
        Send_Loop ip port content cid_prex count i start num c \<Rightarrow>
          test_send_loop X content cid_prex count start num (word_of_int c) g s
      | Send_Specify ip port content cid_prex count i c \<Rightarrow>
          test_send_specify X content cid_prex count (nat i) (word_of_int c) g s
      | Send_Request ip port content cid_prex count i c \<Rightarrow>
          test_send_service_request X R payload count (word_of_int c) g s
      | Send ip port content i \<Rightarrow> test_send s)"

text \<open>The numbers of a command; \<open>None\<close> when \<^verbatim>\<open>atoi\<close> is undefined.\<close>

fun atois :: "string list \<Rightarrow> int list option" where
  "atois [] = Some []"
| "atois (x # xs) = (case (c_atoi x, atois xs) of (Some i, Some is) \<Rightarrow> Some (i # is) | _ \<Rightarrow> None)"

definition system_ls :: "client_ext \<Rightarrow> string \<Rightarrow> test_thread list option" where
  "system_ls X system_params =
     (if system_params = [] then Some []
      else let sp = split_compress X (CHR '' '') system_params
           in if length sp \<noteq> 10 then Some []
              else map_option (\<lambda>ns. map (\<lambda>i. Send_Loop (sp ! 1) (sp ! 2) (sp ! 3) (sp ! 4) (ns ! 1) (int i) (ns ! 2) (ns ! 3) (ns ! 4))
                [0..<nat (ns ! 0)]) (atois (drop 5 sp)))"

definition system_ss :: "client_ext \<Rightarrow> string \<Rightarrow> test_thread list option" where
  "system_ss X system_params =
     (if system_params = [] then Some []
      else let sp = split_compress X (CHR '' '') system_params
           in if length sp \<noteq> 8 then Some []
              else map_option (\<lambda>ns. map (\<lambda>i. Send_Specify (sp ! 1) (sp ! 2) (sp ! 3) (sp ! 4) (ns ! 1) (int i) (ns ! 2))
                [0..<nat (ns ! 0)]) (atois (drop 5 sp)))"

definition system_sr :: "client_ext \<Rightarrow> string \<Rightarrow> test_thread list option" where
  "system_sr X system_params =
     (if system_params = [] then Some []
      else let sp = split_compress X (CHR '' '') system_params
           in if length sp \<noteq> 8 then Some []
              else map_option (\<lambda>ns. map (\<lambda>i. Send_Request (sp ! 1) (sp ! 2) (sp ! 3) (sp ! 4) (ns ! 1) (int i) (ns ! 2))
                [0..<nat (ns ! 0)]) (atois (drop 5 sp)))"

text \<open>One line of the console: the threads it starts, or the end.\<close>

datatype reaction = Quit | Starts_Threads "test_thread list" | Shows_Help | Undefined_Line

definition command :: "client_ext \<Rightarrow> string \<Rightarrow> reaction" where
  "command X input_string =
     (if input_string = ''quit'' then Quit
      else let sp = split_compress X (CHR '' '') input_string
           in if sp = [] then Starts_Threads []
              else if hd sp = ''cs'' then
                (if length sp \<noteq> 5 then Starts_Threads []
                 else case c_atoi (sp ! 4) of None \<Rightarrow> Undefined_Line
                   | Some n \<Rightarrow> Starts_Threads (map (\<lambda>i. Send (sp ! 1) (sp ! 2) (sp ! 3) (int i)) [0..<nat n]))
              else if hd sp = ''ls'' then
                (if length sp \<noteq> 10 then Starts_Threads []
                 else case atois (drop 5 sp) of None \<Rightarrow> Undefined_Line
                   | Some ns \<Rightarrow> Starts_Threads (map (\<lambda>i. Send_Loop (sp ! 1) (sp ! 2) (sp ! 3) (sp ! 4) (ns ! 1) (int i)
                       (ns ! 2) (ns ! 3) (ns ! 4)) [0..<nat (ns ! 0)]))
              else if hd sp = ''help'' then Shows_Help
              else Starts_Threads [])"

subsection \<open>What an exchange does\<close>

text \<open>A well-formed answer is consumed exactly; an answer whose head has a bad length makes the read
  run past the vector, because the status of \<^verbatim>\<open>decode_header\<close> is ignored.\<close>

lemma test_exchange_answer:
  assumes "ts_in s = frame_bytes h body @ rest" "length body \<le> max_body"
  shows "test_exchange c content g s = Some (Ret (), s\<lparr>ts_sent := ts_sent s @ frame_bytes \<lparr>magic = 0, len = len g, cmd = c\<rparr> content,
     ts_in := rest, ts_count := Suc (ts_count s)\<rparr>)"
proof -
  let ?m = "(message_format_new g)\<lparr>mf_head := take 12 (frame_bytes h body)\<rparr>"
  obtain h' m where d: "decode_header ?m = (0, h', m)" "mf_body_length m = length body" "length (mf_body m) = 12 + length body"
    using decode_header_frame [of ?m h body] assms(2) by simp
  with assms(1) show ?thesis
    by (simp add: test_exchange_def test_add_count_def sock_read_def message_head_length_def Let_def)
qed

lemma test_exchange_bad_head:
  assumes "12 \<le> length (ts_in s)"
    and "\<not> (12 \<le> sint (be32 (take 4 (drop 4 (ts_in s)))) \<and> sint (be32 (take 4 (drop 4 (ts_in s)))) \<le> 12 + 1024 * 1024)"
  shows "test_exchange c content g s = None"
proof -
  let ?m = "(message_format_new g)\<lparr>mf_head := take 12 (ts_in s)\<rparr>"
  have t: "take 4 (drop 4 (take 12 (ts_in s))) = take 4 (drop 4 (ts_in s))" by (simp add: drop_take)
  then obtain h m where d: "decode_header ?m = (-1, h, m)"
    using decode_header_status_code [of ?m] assms(2) by (cases "decode_header ?m") (auto simp: Let_def)
  then have "mf_body m = []" "max_body < mf_body_length m"
    by (auto simp: decode_header_def message_format_new_def Let_def split: if_splits)
  with assms(1) d show ?thesis
    by (simp add: test_exchange_def sock_read_def message_head_length_def)
qed

text \<open>\<open>n\<close> exchanges send \<open>n\<close> frames and consume \<open>n\<close> answers, whatever the bodies.\<close>

lemma test_repeat_exchanges:
  assumes "\<forall>f \<in> set fs. length (snd f) \<le> max_body"
  shows "ts_in s = concat (map (\<lambda>f. frame_bytes (fst f) (snd f)) fs) @ rest \<Longrightarrow>
    test_repeat (\<lambda>i. test_exchange c (content i) g) i (length fs) s = Some (Ret (), s\<lparr>
      ts_sent := ts_sent s @ concat (map (\<lambda>j. frame_bytes \<lparr>magic = 0, len = len g, cmd = c\<rparr> (content j)) [i..<i + length fs]),
      ts_in := rest, ts_count := ts_count s + length fs\<rparr>)"
  using assms
proof (induction fs arbitrary: i s)
  case (Cons f fs)
  from Cons.prems(2) have "length (snd f) \<le> max_body" by simp
  from test_exchange_answer [OF _ this, of s "fst f" "concat (map (\<lambda>f. frame_bytes (fst f) (snd f)) fs) @ rest" c "content i" g]
    Cons.prems Cons.IH [of "s\<lparr>ts_sent := ts_sent s @ frame_bytes \<lparr>magic = 0, len = len g, cmd = c\<rparr> (content i),
      ts_in := concat (map (\<lambda>f. frame_bytes (fst f) (snd f)) fs) @ rest, ts_count := Suc (ts_count s)\<rparr>" "Suc i"]
  moreover have "[i..<i + length (f # fs)] = i # [Suc i..<Suc i + length fs]"
    by (simp add: upt_conv_Cons del: upt_Suc)
  ultimately show ?case by (simp del: upt_Suc)
qed simp

text \<open>A request whose serialized form contains a zero byte (an unset number in the payload is enough)
  is cut off there: what is sent is a proper prefix.\<close>

lemma test_request_cut_off:
  assumes "0 \<in> set (serialize R service_request_desc (test_request payload))"
  shows "length (c_str_bytes (serialize R service_request_desc (test_request payload))) <
     length (serialize R service_request_desc (test_request payload))"
proof -
  let ?b = "serialize R service_request_desc (test_request payload)"
  from assms have "dropWhile (\<lambda>x. x \<noteq> 0) ?b \<noteq> []" by (auto simp: dropWhile_eq_Nil_conv)
  moreover have "length (c_str_bytes ?b) + length (dropWhile (\<lambda>x. x \<noteq> 0) ?b) = length ?b"
    unfolding c_str_bytes_def by (metis length_append takeWhile_dropWhile_id)
  ultimately show ?thesis by (metis length_greater_0_conv less_add_same_cancel1)
qed

lemma test_request_cut_off_demo:
  "test_send_service_request \<lparr>base64 = id, rand_seq = id, connects = True, split_compress = split_ref\<rparr> demo_rt [8, 0] 1 200
     zero_head \<lparr>ts_sent = [], ts_in = frame_bytes zero_head [], ts_count = 0\<rparr> =
   Some \<lparr>ts_sent = frame_bytes \<lparr>magic = 0, len = 0, cmd = 200\<rparr>
      (c_str_bytes (serialize demo_rt service_request_desc (test_request [8, 0]))), ts_in = [], ts_count = 1\<rparr> \<and>
   c_str_bytes (serialize demo_rt service_request_desc (test_request [8, 0])) \<noteq>
     serialize demo_rt service_request_desc (test_request [8, 0])"
proof -
  let ?b = "serialize demo_rt service_request_desc (test_request [8, 0])"
  have "0 \<in> set ?b" by code_simp
  from test_request_cut_off [OF this] have "c_str_bytes ?b \<noteq> ?b" by (metis less_irrefl)
  moreover have "test_repeat (\<lambda>_. test_exchange 200 (c_str_bytes ?b) zero_head) 0 1
      \<lparr>ts_sent = [], ts_in = frame_bytes zero_head [], ts_count = 0\<rparr> =
    Some (Ret (), \<lparr>ts_sent = frame_bytes \<lparr>magic = 0, len = 0, cmd = 200\<rparr> (c_str_bytes ?b), ts_in = [], ts_count = 1\<rparr>)"
    using test_repeat_exchanges [of "[(zero_head, [])]" "\<lparr>ts_sent = [], ts_in = frame_bytes zero_head [], ts_count = 0\<rparr>" "[]"
        200 "\<lambda>_. c_str_bytes ?b" zero_head 0]
    by (simp add: zero_head_def)
  ultimately show ?thesis by (simp add: test_send_service_request_def caught_def Let_def)
qed

text \<open>The counter and the frames: an \<^verbatim>\<open>ls\<close> thread that gets an answer to each request counts them all.\<close>

lemma send_loop_counts:
  assumes "connects X" "\<forall>f \<in> set fs. length (snd f) \<le> max_body" "ts_in s = concat (map (\<lambda>f. frame_bytes (fst f) (snd f)) fs)"
    and "\<And>k. int_ok (start + (if 0 < num then test_random_num (rand_seq X k) num else 0))"
  shows "\<exists>s'. run_test_thread X R payload g (Send_Loop ip port content cid (int (length fs)) i start num c) s = Some s' \<and>
     ts_count s' = ts_count s + length fs \<and> ts_in s' = []"
  using test_repeat_exchanges [OF assms(2), of s "[]" "word_of_int c"
      "\<lambda>k. bytes_of (push_json (cid @ show_int (start + (if 0 < num then test_random_num (rand_seq X k) num else 0))) 200
        (client_base64 X ''{\"type\":\"test\"}''))" g 0] assms(1,3,4)
  by (simp add: run_test_thread_def test_send_loop_def caught_def Let_def)

text \<open>The loop's requests reach a server: the frames sent for \<open>n\<close> answers are queued by a session
  that reads them as \<open>n\<close> tasks with the command's cmd and the JSON of each request.\<close>

lemma test_send_loop_reaches_queue:
  assumes "connects X" "\<forall>f \<in> set fs. length (snd f) \<le> max_body" "ts_in s = concat (map (\<lambda>f. frame_bytes (fst f) (snd f)) fs)"
    and "ts_sent s = []" "ready i w" "c \<noteq> 1"
    and fits: "\<And>k. int_ok (start + (if 0 < num then test_random_num (rand_seq X k) num else 0))"
    and bodies: "\<And>k. length (body k) \<le> max_body"
    and body: "\<And>k. body k = bytes_of (push_json (cid @ show_int (start + (if 0 < num then test_random_num (rand_seq X k) num else 0)))
       200 (client_base64 X ''{\"type\":\"test\"}''))"
  shows "\<exists>s' w'. test_send_loop X content cid (int (length fs)) start num c g s = Some s' \<and>
     recv x i (ts_sent s') w = (w', []) \<and>
     map (\<lambda>m. snd (snd (task_of m))) (tasks w') = map (\<lambda>m. snd (snd (task_of m))) (tasks w) @ map body [0..<length fs]"
proof -
  let ?h = "\<lparr>magic = 0, len = len g, cmd = c\<rparr>"
  let ?gs = "map (\<lambda>k. (?h, body k)) [0..<length fs]"
  have run: "test_send_loop X content cid (int (length fs)) start num c g s = Some (s\<lparr>
      ts_sent := concat (map (\<lambda>k. frame_bytes ?h (body k)) [0..<length fs]), ts_in := [], ts_count := ts_count s + length fs\<rparr>)"
    using test_repeat_exchanges [OF assms(2), of s "[]" c body g 0] assms(1,3,4)
    by (simp add: test_send_loop_def caught_def Let_def body [symmetric] fits)
  have "filter (\<lambda>f. cmd (fst f) \<noteq> 1) ?gs = ?gs" using assms(6) by (auto simp: filter_id_conv)
  with recv_frames_all [OF assms(5), of ?gs x] bodies obtain w' where
    "recv x i (concat (map (\<lambda>f. frame_bytes (fst f) (snd f)) ?gs)) w = (w', [])"
    "map task_of (tasks w') = map task_of (tasks w) @ map (frame_task (mf_remote_id (read_msg (sessions w i)))) ?gs"
    by auto
  moreover from arg_cong [OF this(2), of "map (\<lambda>t. snd (snd t))"]
  have "map (\<lambda>m. snd (snd (task_of m))) (tasks w') = map (\<lambda>m. snd (snd (task_of m))) (tasks w) @ map body [0..<length fs]"
    by (simp add: comp_def frame_task_def)
  ultimately show ?thesis using run by (simp add: comp_def)
qed

end
