(* ===== verification/PythonApi.thy ===== *)
theory PythonApi
  imports Responders "HOL-Library.Multiset"
begin

text \<open>
  The call into Python behind \<open>python_parser\<close>: \<^verbatim>\<open>python_status_ensure\<close>, \<^verbatim>\<open>python_call_base\<close> and the
  parts of include/ffpython.h it runs (\<^verbatim>\<open>pyops_t\<close>, \<^verbatim>\<open>pycall_arg_t\<close>, \<^verbatim>\<open>pycall_t\<close>, the string
  conversions, \<^verbatim>\<open>ffpython_t::call\<close>), with its modules and global variables. CPython is an argument:
  what a C API function answers and does to the interpreter is a field of \<open>py_api\<close>. The state of
  the calling thread is explicit: the references it owns, its error indicator, and how often it
  has entered the interpreter lock. A fault is undefined behaviour.
\<close>

subsection \<open>The C API\<close>

type_synonym obj = nat

record py_err =
  err_type :: "obj option"
  err_value :: "obj option"
  err_tb :: "obj option"

text \<open>What the type tests see of an object; a unicode object may have no default encoding.\<close>

datatype py_view =
  Py_String string
| Py_Unicode "string option"
| Py_List "obj list"
| Py_Tuple "obj list"
| Py_Object

text \<open>A new reference, or null with an error.\<close>

type_synonym 'i api_new = "'i \<Rightarrow> (obj + py_err) \<times> 'i"

record 'i py_api =
  api_string :: "string \<Rightarrow> 'i \<Rightarrow> obj \<times> 'i"
  api_tuple :: "nat \<Rightarrow> 'i \<Rightarrow> obj \<times> 'i"
  api_tuple_set :: "obj \<Rightarrow> nat \<Rightarrow> obj \<Rightarrow> 'i \<Rightarrow> 'i"
  api_view :: "obj \<Rightarrow> 'i \<Rightarrow> py_view"
  api_import :: "string \<Rightarrow> 'i api_new"
  api_reload :: "obj \<Rightarrow> 'i api_new"
  api_getattr :: "obj \<Rightarrow> string \<Rightarrow> 'i api_new"
  api_setattr :: "obj \<Rightarrow> string \<Rightarrow> obj \<Rightarrow> 'i \<Rightarrow> py_err option \<times> 'i"
  api_callable :: "obj \<Rightarrow> 'i \<Rightarrow> bool"
  api_call :: "obj \<Rightarrow> obj option \<Rightarrow> 'i api_new"
  api_call_args :: "obj \<Rightarrow> obj list \<Rightarrow> 'i api_new"
  api_str :: "obj \<Rightarrow> 'i api_new"
  api_encode_error :: "obj \<Rightarrow> 'i \<Rightarrow> py_err \<times> 'i"
  api_run :: "string \<Rightarrow> 'i \<Rightarrow> 'i"
  api_is_initialized :: "'i \<Rightarrow> bool"
  api_initialize :: "'i \<Rightarrow> 'i"
  api_finalize :: "'i \<Rightarrow> 'i"

record 'i py_thread =
  interp :: 'i
  owned :: "obj multiset"
  py_error :: "py_err option"
  gil :: nat

datatype fault = Null_String | Bad_Release | No_Gil

type_synonym ('i, 'a) py = "'i py_thread \<Rightarrow> fault + ('a \<times> 'i py_thread)"

definition py_ret :: "'a \<Rightarrow> ('i, 'a) py" where
  "py_ret x s = Inr (x, s)"

definition py_fault :: "fault \<Rightarrow> ('i, 'a) py" where
  "py_fault f s = Inl f"

definition py_bind :: "('i, 'a) py \<Rightarrow> ('a \<Rightarrow> ('i, 'b) py) \<Rightarrow> ('i, 'b) py" where
  "py_bind m k s = (case m s of Inl f \<Rightarrow> Inl f | Inr (r, s') \<Rightarrow> k r s')"

text \<open>Every API function needs the interpreter lock.\<close>

definition py_api_fn :: "('i py_thread \<Rightarrow> 'a \<times> 'i py_thread) \<Rightarrow> ('i, 'a) py" where
  "py_api_fn f s = (if gil s = 0 then Inl No_Gil else Inr (f s))"

definition py_read :: "('i \<Rightarrow> 'a) \<Rightarrow> ('i, 'a) py" where
  "py_read f = py_api_fn (\<lambda>s. (f (interp s), s))"

definition py_new :: "'i api_new \<Rightarrow> ('i, obj option) py" where
  "py_new f = py_api_fn (\<lambda>s. case f (interp s) of
       (Inl p, i) \<Rightarrow> (Some p, s\<lparr>interp := i, owned := add_mset p (owned s)\<rparr>)
     | (Inr e, i) \<Rightarrow> (None, s\<lparr>interp := i, py_error := Some e\<rparr>))"

definition py_make :: "('i \<Rightarrow> obj \<times> 'i) \<Rightarrow> ('i, obj) py" where
  "py_make f = py_api_fn (\<lambda>s. case f (interp s) of (p, i) \<Rightarrow> (p, s\<lparr>interp := i, owned := add_mset p (owned s)\<rparr>))"

text \<open>\<^verbatim>\<open>Py_DECREF\<close>: giving back a reference that is not held is a fault.\<close>

definition py_decref :: "obj \<Rightarrow> ('i, unit) py" where
  "py_decref p s =
     (if gil s = 0 then Inl No_Gil else if p \<notin># owned s then Inl Bad_Release
      else Inr ((), s\<lparr>owned := owned s - {#p#}\<rparr>))"

definition py_xdecref :: "obj option \<Rightarrow> ('i, unit) py" where
  "py_xdecref x = (case x of None \<Rightarrow> py_ret () | Some p \<Rightarrow> py_decref p)"

definition py_err_occurred :: "('i, bool) py" where
  "py_err_occurred = py_api_fn (\<lambda>s. (py_error s \<noteq> None, s))"

definition py_err_set :: "('i \<Rightarrow> py_err \<times> 'i) \<Rightarrow> ('i, unit) py" where
  "py_err_set f = py_api_fn (\<lambda>s. case f (interp s) of (e, i) \<Rightarrow> ((), s\<lparr>interp := i, py_error := Some e\<rparr>))"

definition py_err_clear :: "('i, unit) py" where
  "py_err_clear = py_api_fn (\<lambda>s. ((), s\<lparr>py_error := None\<rparr>))"

definition ref_of :: "obj option \<Rightarrow> obj multiset" where
  "ref_of x = (case x of None \<Rightarrow> {#} | Some p \<Rightarrow> {#p#})"

text \<open>\<^verbatim>\<open>PyErr_Fetch\<close>: the three references pass to the caller and the indicator is cleared.\<close>

definition err_none :: py_err where
  "err_none = \<lparr>err_type = None, err_value = None, err_tb = None\<rparr>"

definition py_err_fetch :: "('i, py_err) py" where
  "py_err_fetch = py_api_fn (\<lambda>s. case py_error s of
       None \<Rightarrow> (err_none, s)
     | Some e \<Rightarrow> (e, s\<lparr>py_error := None, owned := owned s + ref_of (err_type e) + ref_of (err_value e) + ref_of (err_tb e)\<rparr>))"

text \<open>\<^verbatim>\<open>PyString_AsString\<close> assigned to or added to a \<^verbatim>\<open>std::string\<close>: up to the first zero, and a null
  pointer is a fault.\<close>

definition as_string :: "'i py_api \<Rightarrow> obj \<Rightarrow> ('i, string) py" where
  "as_string A p = py_bind (py_read (api_view A p)) (\<lambda>v. case v of
       Py_String t \<Rightarrow> py_ret (c_str t)
     | Py_Unicode (Some t) \<Rightarrow> py_ret (c_str t)
     | _ \<Rightarrow> py_fault Null_String)"

subsection \<open>\<^verbatim>\<open>pyops_t::traceback\<close>\<close>

text \<open>The text of an item. \<^verbatim>\<open>PyObject_Str\<close> may fail; the result is used untested.\<close>

definition str_text :: "'i py_api \<Rightarrow> obj \<Rightarrow> ('i, string) py" where
  "str_text A p = py_bind (py_new (api_str A p)) (\<lambda>q. case q of
       None \<Rightarrow> py_fault Null_String
     | Some pystr \<Rightarrow> py_bind (as_string A pystr) (\<lambda>t. py_bind (py_decref pystr) (\<lambda>_. py_ret t)))"

text \<open>The same where the result is tested.\<close>

definition str_text_if :: "'i py_api \<Rightarrow> obj \<Rightarrow> string \<Rightarrow> ('i, string) py" where
  "str_text_if A p sep = py_bind (py_new (api_str A p)) (\<lambda>q. case q of
       None \<Rightarrow> py_ret []
     | Some pystr \<Rightarrow> py_bind (as_string A pystr) (\<lambda>t. py_bind (py_decref pystr) (\<lambda>_. py_ret (t @ sep))))"

text \<open>The items of a list or tuple are taken before its loop: printing them does not change it.\<close>

fun each_text :: "(obj \<Rightarrow> ('i, string) py) \<Rightarrow> string \<Rightarrow> obj list \<Rightarrow> string \<Rightarrow> ('i, string) py" where
  "each_text f sep [] ret = py_ret ret"
| "each_text f sep (p # ps) ret = py_bind (f p) (\<lambda>t. each_text f sep ps (ret @ t @ sep))"

definition newline :: string where
  "newline = [CHR 0x0A]"

definition tuple_item_text :: "'i py_api \<Rightarrow> obj \<Rightarrow> ('i, string) py" where
  "tuple_item_text A tmp_str = py_bind (py_read (api_view A tmp_str)) (\<lambda>v. case v of
       Py_Tuple ps \<Rightarrow> each_text (str_text A) '','' ps []
     | _ \<Rightarrow> str_text A tmp_str)"

definition value_text :: "'i py_api \<Rightarrow> obj \<Rightarrow> string \<Rightarrow> ('i, string) py" where
  "value_text A pvalue ret = py_bind (py_read (api_view A pvalue)) (\<lambda>v. case v of
       Py_Tuple ps \<Rightarrow> each_text (tuple_item_text A) newline ps ret
     | Py_List ps \<Rightarrow> py_bind (each_text (str_text A) newline ps ret) (\<lambda>ret.
         py_bind (str_text_if A pvalue newline) (\<lambda>t. py_ret (ret @ t)))
     | _ \<Rightarrow> py_bind (str_text_if A pvalue newline) (\<lambda>t. py_ret (ret @ t)))"

text \<open>The lines of \<^verbatim>\<open>traceback.format_exception\<close>, when it can be called.\<close>

definition format_lines :: "'i py_api \<Rightarrow> obj option \<Rightarrow> string \<Rightarrow> ('i, string) py" where
  "format_lines A pyth_val ret = (case pyth_val of
       None \<Rightarrow> py_ret ret
     | Some r \<Rightarrow> py_bind (py_read (api_view A r)) (\<lambda>v. case v of
           Py_List ps \<Rightarrow> each_text (\<lambda>p. str_text_if A p []) newline ps ret
         | _ \<Rightarrow> py_ret ret))"

definition full_traceback :: "'i py_api \<Rightarrow> obj option \<Rightarrow> py_err \<Rightarrow> string \<Rightarrow> ('i, string \<times> obj option) py" where
  "full_traceback A pyth_module e ret =
     (case (pyth_module, err_type e, err_value e, err_tb e) of
        (Some m, Some t, Some v, Some tb) \<Rightarrow>
          py_bind (py_new (api_getattr A m ''format_exception'')) (\<lambda>pyth_func. case pyth_func of
             None \<Rightarrow> py_ret (ret, None)
           | Some f \<Rightarrow> py_bind (py_read (api_callable A f)) (\<lambda>callable.
               if \<not> callable then py_ret (ret, Some f)
               else py_bind (py_new (api_call_args A f [t, v, tb])) (\<lambda>pyth_val.
                 py_bind (format_lines A pyth_val ret) (\<lambda>ret.
                 py_bind (py_xdecref pyth_val) (\<lambda>_. py_ret (ret, Some f))))))
      | _ \<Rightarrow> py_ret (ret, None))"

definition traceback :: "'i py_api \<Rightarrow> string \<Rightarrow> ('i, int \<times> string) py" where
  "traceback A ret = py_bind py_err_occurred (\<lambda>err.
     if \<not> err then py_ret (- 1, ret)
     else py_bind py_err_fetch (\<lambda>e.
       py_bind (case err_value e of None \<Rightarrow> py_ret ret | Some pvalue \<Rightarrow> value_text A pvalue ret) (\<lambda>ret.
       py_bind (py_make (api_string A ''traceback'')) (\<lambda>module_name.
       py_bind (py_new (api_import A ''traceback'')) (\<lambda>pyth_module.
       py_bind (py_decref module_name) (\<lambda>_.
       py_bind (full_traceback A pyth_module e ret) (\<lambda>(ret, pyth_func).
       py_bind (py_xdecref pyth_func) (\<lambda>_.
       py_bind (py_xdecref pyth_module) (\<lambda>_.
       py_bind (py_xdecref (err_type e)) (\<lambda>_.
       py_bind (py_xdecref (err_value e)) (\<lambda>_.
       py_bind (py_xdecref (err_tb e)) (\<lambda>_.
       py_bind py_err_clear (\<lambda>_. py_ret (0, ret))))))))))))))"

subsection \<open>Arguments and results\<close>

record pycall_arg =
  arg_index :: nat
  pargs_tuple :: "obj option"
  tuple_size :: nat

definition pycall_arg_new :: "'i py_api \<Rightarrow> nat \<Rightarrow> ('i, pycall_arg) py" where
  "pycall_arg_new A arg_num = py_bind (py_make (api_tuple A arg_num)) (\<lambda>p.
     py_ret \<lparr>arg_index = 0, pargs_tuple = Some p, tuple_size = arg_num\<rparr>)"

text \<open>\<^verbatim>\<open>PyTuple_SetItem\<close> takes the reference of the item over.\<close>

definition tuple_set_item :: "'i py_api \<Rightarrow> obj \<Rightarrow> nat \<Rightarrow> obj \<Rightarrow> ('i, unit) py" where
  "tuple_set_item A tup n p = py_bind (py_decref p) (\<lambda>_.
     py_api_fn (\<lambda>s. ((), s\<lparr>interp := api_tuple_set A tup n p (interp s)\<rparr>)))"

definition pycall_arg_add :: "'i py_api \<Rightarrow> string \<Rightarrow> pycall_arg \<Rightarrow> ('i, pycall_arg) py" where
  "pycall_arg_add A val a = (case pargs_tuple a of
       None \<Rightarrow> py_ret a
     | Some tup \<Rightarrow>
         if arg_index a < tuple_size a
         then py_bind (py_make (api_string A val)) (\<lambda>tmp_arg.
              py_bind (tuple_set_item A tup (arg_index a) tmp_arg) (\<lambda>_. py_ret (a\<lparr>arg_index := arg_index a + 1\<rparr>)))
         else py_ret a)"

fun pycall_arg_adds :: "'i py_api \<Rightarrow> string list \<Rightarrow> pycall_arg \<Rightarrow> ('i, pycall_arg) py" where
  "pycall_arg_adds A [] a = py_ret a"
| "pycall_arg_adds A (v # vs) a = py_bind (pycall_arg_add A v a) (pycall_arg_adds A vs)"

definition pycall_arg_release :: "pycall_arg \<Rightarrow> ('i, pycall_arg) py" where
  "pycall_arg_release a = py_bind (py_xdecref (pargs_tuple a)) (\<lambda>_. py_ret (a\<lparr>pargs_tuple := None\<rparr>))"

text \<open>\<^verbatim>\<open>pytype_traits_t<string>::pyobj_to_cppobj\<close>: a unicode object without a default encoding sets the
  error and still returns 0 with an empty string.\<close>

definition pyobj_to_cppobj :: "'i py_api \<Rightarrow> obj \<Rightarrow> string \<Rightarrow> ('i, int \<times> string) py" where
  "pyobj_to_cppobj A pvalue m_ret = py_bind (py_read (api_view A pvalue)) (\<lambda>v. case v of
       Py_String t \<Rightarrow> py_ret (0, t)
     | Py_Unicode (Some t) \<Rightarrow> py_ret (0, t)
     | Py_Unicode None \<Rightarrow> py_bind (py_err_set (api_encode_error A pvalue)) (\<lambda>_. py_ret (0, []))
     | _ \<Rightarrow> py_ret (- 1, m_ret))"

subsection \<open>\<^verbatim>\<open>pycall_t\<close>\<close>

text \<open>The value, the arguments and the error text are passed by reference.\<close>

definition call_value ::
  "'i py_api \<Rightarrow> obj \<Rightarrow> string \<Rightarrow> pycall_arg \<Rightarrow> string \<Rightarrow> ('i, pycall_arg \<times> string \<times> string) py" where
  "call_value A pFunc loc pyarg err = py_bind (py_new (api_call A pFunc (pargs_tuple pyarg))) (\<lambda>pValue.
     py_bind (pycall_arg_release pyarg) (\<lambda>pyarg. case pValue of
       None \<Rightarrow> py_ret (pyarg, [], err)
     | Some v \<Rightarrow> py_bind (pyobj_to_cppobj A v []) (\<lambda>(st, r).
         py_bind (py_decref v) (\<lambda>_.
         py_ret (pyarg, r, if st \<noteq> 0 then err @ ''value returned is not string'' @ loc else err)))))"

definition err_traceback :: "'i py_api \<Rightarrow> pycall_arg \<times> string \<times> string \<Rightarrow> ('i, pycall_arg \<times> string \<times> string) py" where
  "err_traceback A = (\<lambda>(pyarg, r, err). py_bind py_err_occurred (\<lambda>e.
     if e then py_bind (traceback A err) (\<lambda>(_, err). py_ret (pyarg, r, err)) else py_ret (pyarg, r, err)))"

definition call_func ::
  "'i py_api \<Rightarrow> obj \<Rightarrow> string \<Rightarrow> string \<Rightarrow> pycall_arg \<Rightarrow> string \<Rightarrow> ('i, pycall_arg \<times> string \<times> string) py" where
  "call_func A pModule mod_name func_name pyarg err =
     py_bind (py_new (api_getattr A pModule (c_str func_name))) (\<lambda>pFunc.
     py_bind (case pFunc of None \<Rightarrow> py_ret False | Some f \<Rightarrow> py_read (api_callable A f)) (\<lambda>callable.
     py_bind (if callable
       then call_value A (the pFunc) ('' '' @ func_name @ '' in '' @ mod_name) pyarg err
       else py_ret (pyarg, [], err @ ''Cannot find function '' @ func_name @ '' in '' @ mod_name @ '','')) (\<lambda>r.
     py_bind (py_xdecref pFunc) (\<lambda>_. err_traceback A r))))"

definition call_func_obj ::
  "'i py_api \<Rightarrow> obj option \<Rightarrow> pycall_arg \<Rightarrow> string \<Rightarrow> ('i, pycall_arg \<times> string \<times> string) py" where
  "call_func_obj A pFunc pyarg err =
     py_bind (case pFunc of None \<Rightarrow> py_ret False | Some f \<Rightarrow> py_read (api_callable A f)) (\<lambda>callable.
     py_bind (if callable then call_value A (the pFunc) [] pyarg err else py_ret (pyarg, [], err @ ''invalid function''))
       (err_traceback A))"

text \<open>A result is the exception's text (\<open>Inl\<close>) or the value.\<close>

definition end_call :: "pycall_arg \<times> string \<times> string \<Rightarrow> pycall_arg \<times> (string + string)" where
  "end_call = (\<lambda>(pyarg, r, err). (pyarg, if err \<noteq> [] then Inl (c_str err) else Inr r))"

definition pycall_call ::
  "'i py_api \<Rightarrow> string \<Rightarrow> string \<Rightarrow> pycall_arg \<Rightarrow> ('i, pycall_arg \<times> (string + string)) py" where
  "pycall_call A mod_name func_name pyarg =
     py_bind (py_make (api_string A (c_str mod_name))) (\<lambda>pName.
     py_bind (py_new (api_import A (c_str mod_name))) (\<lambda>pModule.
     py_bind (py_decref pName) (\<lambda>_. case pModule of
       None \<Rightarrow> py_bind (traceback A []) (\<lambda>(_, err_msg). py_ret (pyarg, Inl (c_str err_msg)))
     | Some m \<Rightarrow> py_bind (call_func A m mod_name func_name pyarg []) (\<lambda>r.
         py_bind (py_decref m) (\<lambda>_. py_ret (end_call r))))))"

definition call_obj_method ::
  "'i py_api \<Rightarrow> obj option \<Rightarrow> string \<Rightarrow> pycall_arg \<Rightarrow> ('i, pycall_arg \<times> (string + string)) py" where
  "call_obj_method A pObj func_name pyarg = (case pObj of
       None \<Rightarrow> py_bind (traceback A []) (\<lambda>(_, err_msg). py_ret (pyarg, Inl (c_str err_msg)))
     | Some m \<Rightarrow> py_bind (call_func A m ''NaN'' func_name pyarg []) (\<lambda>r. py_ret (end_call r)))"

definition call_lambda :: "'i py_api \<Rightarrow> obj option \<Rightarrow> pycall_arg \<Rightarrow> ('i, pycall_arg \<times> (string + string)) py" where
  "call_lambda A pFunc pyarg = (case pFunc of
       None \<Rightarrow> py_ret (pyarg, Inl ''can not call null PyObject'')
     | Some f \<Rightarrow> py_bind (call_func_obj A pFunc pyarg []) (\<lambda>r. py_ret (end_call r)))"

subsection \<open>\<^verbatim>\<open>ffpython_t\<close>\<close>

text \<open>The overloads of \<^verbatim>\<open>call\<close>, \<^verbatim>\<open>obj_call\<close> and \<^verbatim>\<open>call_lambda\<close> differ in the number of arguments: make
  the tuple, add them, call, and the destructor of the arguments runs on every way out.\<close>

definition with_args ::
  "'i py_api \<Rightarrow> string list \<Rightarrow> (pycall_arg \<Rightarrow> ('i, pycall_arg \<times> (string + string)) py) \<Rightarrow> ('i, string + string) py" where
  "with_args A as f = py_bind (pycall_arg_new A (length as)) (\<lambda>a. py_bind (pycall_arg_adds A as a) (\<lambda>a.
     py_bind (f a) (\<lambda>(a, r). py_bind (pycall_arg_release a) (\<lambda>_. py_ret r))))"

definition ffpython_call :: "'i py_api \<Rightarrow> string \<Rightarrow> string \<Rightarrow> string list \<Rightarrow> ('i, string + string) py" where
  "ffpython_call A mod_name func as = with_args A as (pycall_call A mod_name func)"

definition ffpython_obj_call :: "'i py_api \<Rightarrow> obj option \<Rightarrow> string \<Rightarrow> string list \<Rightarrow> ('i, string + string) py" where
  "ffpython_obj_call A pobj func as = with_args A as (call_obj_method A pobj func)"

definition ffpython_call_lambda :: "'i py_api \<Rightarrow> obj option \<Rightarrow> string list \<Rightarrow> ('i, string + string) py" where
  "ffpython_call_lambda A pobj as = with_args A as (call_lambda A pobj)"

text \<open>\<^verbatim>\<open>add_path\<close>: \<^verbatim>\<open>snprintf\<close> cuts the script at 1023 characters.\<close>

definition quote :: "string \<Rightarrow> string" where
  "quote t = [CHR 0x27] @ t @ [CHR 0x27]"

definition path_script :: "string \<Rightarrow> string" where
  "path_script path = take 1023 (''import sys'' @ newline @ ''if '' @ quote (c_str path) @ '' not in sys.path:'' @ newline @
     [CHR 0x09] @ ''sys.path.append('' @ quote (c_str path) @ '')'' @ newline)"

definition add_path :: "'i py_api \<Rightarrow> string \<Rightarrow> ('i, unit) py" where
  "add_path A path = py_api_fn (\<lambda>s. ((), s\<lparr>interp := api_run A (path_script path) (interp s)\<rparr>))"

text \<open>Modules: import, then act on the module.\<close>

definition with_module :: "'i py_api \<Rightarrow> string \<Rightarrow> (obj \<Rightarrow> ('i, string + 'r) py) \<Rightarrow> ('i, string + 'r) py" where
  "with_module A py_name f =
     py_bind (py_make (api_string A (c_str py_name))) (\<lambda>pName.
     py_bind (py_new (api_import A (c_str py_name))) (\<lambda>pModule.
     py_bind (py_decref pName) (\<lambda>_. case pModule of
       None \<Rightarrow> py_bind (traceback A []) (\<lambda>(_, err_msg). py_ret (Inl (c_str err_msg)))
     | Some m \<Rightarrow> f m)))"

definition load :: "'i py_api \<Rightarrow> string \<Rightarrow> ('i, string + int) py" where
  "load A py_name = with_module A py_name (\<lambda>m. py_bind (py_decref m) (\<lambda>_. py_ret (Inr 0)))"

definition reload :: "'i py_api \<Rightarrow> string \<Rightarrow> ('i, string + int) py" where
  "reload A py_name = with_module A py_name (\<lambda>m.
     py_bind (py_new (api_reload A m)) (\<lambda>pNewMod. py_bind (py_decref m) (\<lambda>_. case pNewMod of
       None \<Rightarrow> py_bind (traceback A []) (\<lambda>(_, err_msg). py_ret (Inl (c_str err_msg)))
     | Some n \<Rightarrow> py_bind (py_decref n) (\<lambda>_. py_ret (Inr 0)))))"

definition get_global_var :: "'i py_api \<Rightarrow> string \<Rightarrow> string \<Rightarrow> ('i, string + string) py" where
  "get_global_var A mod_name var_name = with_module A mod_name (\<lambda>m.
     py_bind (py_new (api_getattr A m (c_str var_name))) (\<lambda>pvalue. py_bind (py_decref m) (\<lambda>_. case pvalue of
       None \<Rightarrow> py_bind (traceback A []) (\<lambda>(_, err_msg). py_ret (Inl (c_str err_msg)))
     | Some v \<Rightarrow> py_bind (pyobj_to_cppobj A v []) (\<lambda>(st, r).
         py_bind (py_decref v) (\<lambda>_. py_ret (if st \<noteq> 0 then Inl ''type invalid'' else Inr r))))))"

definition set_global_var :: "'i py_api \<Rightarrow> string \<Rightarrow> string \<Rightarrow> string \<Rightarrow> ('i, string + int) py" where
  "set_global_var A mod_name var_name val = with_module A mod_name (\<lambda>m.
     py_bind (py_make (api_string A val)) (\<lambda>pval.
     py_bind (py_api_fn (\<lambda>s. case api_setattr A m (c_str var_name) pval (interp s) of
         (None, i) \<Rightarrow> (0 :: int, s\<lparr>interp := i\<rparr>)
       | (Some e, i) \<Rightarrow> (- 1, s\<lparr>interp := i, py_error := Some e\<rparr>))) (\<lambda>ret.
     py_bind (py_decref m) (\<lambda>_. py_ret (Inr (if ret \<noteq> - 1 then 0 else - 1))))))"

text \<open>The object: made, it initialises Python if nobody has; \<^verbatim>\<open>init_py\<close> and \<^verbatim>\<open>final_py\<close> always do. These may be
  called without the lock.\<close>

definition init_py :: "'i py_api \<Rightarrow> ('i, int) py" where
  "init_py A s = Inr (0, s\<lparr>interp := api_initialize A (interp s)\<rparr>)"

definition final_py :: "'i py_api \<Rightarrow> ('i, int) py" where
  "final_py A s = Inr (0, s\<lparr>interp := api_finalize A (interp s)\<rparr>)"

definition ffpython_new :: "'i py_api \<Rightarrow> ('i, unit) py" where
  "ffpython_new A s =
     (if api_is_initialized A (interp s) then Inr ((), s) else Inr ((), s\<lparr>interp := api_initialize A (interp s)\<rparr>))"

definition run_string :: "'i py_api \<Rightarrow> string \<Rightarrow> ('i, int) py" where
  "run_string A t = py_api_fn (\<lambda>s. (0, s\<lparr>interp := api_run A (c_str t) (interp s)\<rparr>))"

text \<open>The cached objects; the destructor clears them too.\<close>

definition cache_pyobject :: "obj option \<Rightarrow> obj option list \<Rightarrow> obj option list" where
  "cache_pyobject pobj m_cache_pyobject = m_cache_pyobject @ [pobj]"

fun xdecref_all :: "obj option list \<Rightarrow> ('i, unit) py" where
  "xdecref_all [] = py_ret ()"
| "xdecref_all (p # ps) = py_bind (py_xdecref p) (\<lambda>_. xdecref_all ps)"

definition clear_cache_pyobject :: "'i py_api \<Rightarrow> obj option list \<Rightarrow> ('i, obj option list) py" where
  "clear_cache_pyobject A m_cache_pyobject s =
     (if api_is_initialized A (interp s) then py_bind (xdecref_all m_cache_pyobject) (\<lambda>_. py_ret []) s
      else py_ret m_cache_pyobject s)"

subsection \<open>\<^verbatim>\<open>python_call_base\<close>\<close>

text \<open>\<^verbatim>\<open>PYTHON_API_ENTER\<close>: the constructor takes the lock, the destructor gives it back.\<close>

definition gil_ensure :: "('i, unit) py" where
  "gil_ensure s = Inr ((), s\<lparr>gil := Suc (gil s)\<rparr>)"

definition gil_release :: "('i, unit) py" where
  "gil_release s = (if gil s = 0 then Inl No_Gil else Inr ((), s\<lparr>gil := gil s - 1\<rparr>))"

definition python_api_enter :: "('i, 'a) py \<Rightarrow> ('i, 'a) py" where
  "python_api_enter m = py_bind gil_ensure (\<lambda>_. py_bind m (\<lambda>r. py_bind gil_release (\<lambda>_. py_ret r)))"

definition python_call_in :: "'i py_api \<Rightarrow> string \<Rightarrow> string \<Rightarrow> string list \<Rightarrow> ('i, string + string) py" where
  "python_call_in A mod_name func as = python_api_enter (ffpython_call A (c_str mod_name) (c_str func) as)"

definition python_call_path :: "'i py_api \<Rightarrow> string \<Rightarrow> string \<Rightarrow> string \<Rightarrow> string list \<Rightarrow> ('i, string + string) py" where
  "python_call_path A path mod_name func as =
     python_api_enter (py_bind (add_path A path) (\<lambda>_. ffpython_call A (c_str mod_name) (c_str func) as))"

text \<open>What the responser sees of a call that ended.\<close>

fun py_outcome :: "string + string \<Rightarrow> py_result" where
  "py_outcome (Inr v) = Py_Returns v"
| "py_outcome (Inl what) = Py_Exception what"

end
