(* ===== verification/PythonCall.thy ===== *)
theory PythonCall
  imports PythonApi
begin

text \<open>
  What a call into Python keeps and what it answers: a rule for the references a thread owns and the
  interpreter lock (\<open>holds\<close>), one for results (\<open>runs\<close>), both proved for every operation of
  \<open>PythonApi\<close>, and from them the balance of a call and the answers of the Python responser.
\<close>

subsection \<open>References, the lock and the error indicator\<close>

text \<open>\<open>holds m E Q\<close>: started with the references \<open>E\<close> and any others, in the lock, \<open>m\<close> ends with \<open>Q\<close> of
  its result and the others, still in the lock; its only fault is the null string.\<close>

definition holds :: "('i, 'a) py \<Rightarrow> obj multiset \<Rightarrow> ('a \<Rightarrow> obj multiset) \<Rightarrow> bool" where
  "holds m E Q \<longleftrightarrow> (\<forall>s F. 0 < gil s \<longrightarrow> owned s = F + E \<longrightarrow>
     (\<forall>f. m s = Inl f \<longrightarrow> f = Null_String) \<and>
     (\<forall>r s'. m s = Inr (r, s') \<longrightarrow> owned s' = F + Q r \<and> gil s' = gil s))"

named_theorems py_rules
named_theorems py_steps

lemma holdsD:
  assumes "holds (m :: ('i, 'a) py) E Q" "0 < gil s" "owned s = F + E"
  shows "m s = Inl f \<Longrightarrow> f = Null_String"
    "m s = Inr (r, s') \<Longrightarrow> owned s' = F + Q r" "m s = Inr (r, s') \<Longrightarrow> gil s' = gil s"
  using assms unfolding holds_def by blast+

lemma holds_bind:
  assumes m: "holds (m :: ('i, 'a) py) E P" and k: "\<And>r. holds (k r) (P r) Q"
  shows "holds (py_bind m k) E Q"
  unfolding holds_def
proof (intro allI impI)
  fix s :: "'i py_thread" and F
  assume s: "0 < gil s" "owned s = F + E"
  show "(\<forall>f. py_bind m k s = Inl f \<longrightarrow> f = Null_String) \<and>
      (\<forall>r s'. py_bind m k s = Inr (r, s') \<longrightarrow> owned s' = F + Q r \<and> gil s' = gil s)"
  proof (cases "m s")
    case (Inl f)
    then show ?thesis using holdsD(1) [OF m s] by (simp add: py_bind_def)
  next
    case (Inr rs)
    then obtain r s1 where e: "m s = Inr (r, s1)" by (cases rs) simp
    note s1 = holdsD(2,3) [OF m s this]
    from s1 s(1) have "0 < gil s1" by simp
    note k1 = holdsD [OF k this s1(1)]
    show ?thesis using k1 s1 e by (auto simp: py_bind_def)
  qed
qed

lemma holds_frame:
  assumes "holds (m :: ('i, 'a) py) E Q"
  shows "holds m (E + R) (\<lambda>r. Q r + R)"
  unfolding holds_def
proof (intro allI impI)
  fix s :: "'i py_thread" and F
  assume s: "0 < gil s" "owned s = F + (E + R)"
  from s(2) have "owned s = (F + R) + E" by (simp add: ac_simps)
  note d = holdsD [OF assms s(1) this]
  show "(\<forall>f. m s = Inl f \<longrightarrow> f = Null_String) \<and>
      (\<forall>r s'. m s = Inr (r, s') \<longrightarrow> owned s' = F + (Q r + R) \<and> gil s' = gil s)"
    using d by (auto simp: ac_simps)
qed

lemma holds_eq:
  assumes "holds m E Q" "E' = E" "\<And>r. Q r = Q' r"
  shows "holds m E' Q'"
proof -
  from assms(3) have "Q = Q'" by (rule ext)
  with assms(1,2) show ?thesis by blast
qed

lemma holds_same: "holds m {#} (\<lambda>_. {#}) \<Longrightarrow> holds m E (\<lambda>_. E)"
  by (drule holds_frame [of _ _ _ E]) (simp only: add_0)

lemma holds_ret [py_rules]: "E = Q x \<Longrightarrow> holds (py_ret x) E Q"
  by (simp add: holds_def py_ret_def)

lemma holds_fault [py_rules]: "holds (py_fault Null_String) E Q"
  by (simp add: holds_def py_fault_def)

lemma holds_api_fn:
  "(\<And>s. owned (snd (f s)) = owned s \<and> gil (snd (f s)) = gil s) \<Longrightarrow> holds (py_api_fn f) E (\<lambda>_. E)"
  by (auto simp: holds_def py_api_fn_def split: prod.splits) (metis snd_conv)+

lemma holds_read [py_rules]: "holds (py_read f) E (\<lambda>_. E)"
  unfolding py_read_def by (rule holds_api_fn) simp

lemma holds_occurred [py_rules]: "holds py_err_occurred E (\<lambda>_. E)"
  unfolding py_err_occurred_def by (rule holds_api_fn) simp

lemma holds_err_set [py_rules]: "holds (py_err_set f) E (\<lambda>_. E)"
  unfolding py_err_set_def by (rule holds_api_fn) (simp split: prod.split)

lemma holds_err_clear [py_rules]: "holds py_err_clear E (\<lambda>_. E)"
  unfolding py_err_clear_def by (rule holds_api_fn) simp

lemma holds_new [py_rules]: "holds (py_new f) E (\<lambda>x. E + ref_of x)"
  by (auto simp: holds_def py_new_def py_api_fn_def ref_of_def split: prod.splits sum.splits)

lemma holds_make [py_rules]: "holds (py_make f) E (\<lambda>p. E + {#p#})"
  by (auto simp: holds_def py_make_def py_api_fn_def split: prod.splits)

lemma holds_fetch [py_rules]: "holds py_err_fetch E (\<lambda>e. E + ref_of (err_type e) + ref_of (err_value e) + ref_of (err_tb e))"
  by (auto simp: holds_def py_err_fetch_def py_api_fn_def ref_of_def err_none_def split: option.splits)

lemma holds_decref [py_rules]: "E = E' + {#p#} \<Longrightarrow> holds (py_decref p) E (\<lambda>_. E')"
  by (simp add: holds_def py_decref_def)

lemma holds_xdecref [py_rules]: "E = E' + ref_of x \<Longrightarrow> holds (py_xdecref x) E (\<lambda>_. E')"
  by (cases x) (auto simp: py_xdecref_def ref_of_def intro: py_rules)

text \<open>The same as steps of a sequence; releasing needs the reference to be held.\<close>

lemma step_decref [py_steps]:
  "p \<in># E \<Longrightarrow> holds (k ()) (E - {#p#}) Q \<Longrightarrow> holds (py_bind (py_decref p) k) E Q"
  by (rule holds_bind [OF holds_decref [of _ "E - {#p#}"]]) auto

lemma step_xdecref [py_steps]:
  "ref_of x \<subseteq># E \<Longrightarrow> holds (k ()) (E - ref_of x) Q \<Longrightarrow> holds (py_bind (py_xdecref x) k) E Q"
  by (rule holds_bind [OF holds_xdecref [of _ "E - ref_of x"]]) auto

lemmas [py_steps] =
  holds_bind [OF holds_read] holds_bind [OF holds_occurred] holds_bind [OF holds_err_set] holds_bind [OF holds_err_clear]
  holds_bind [OF holds_new] holds_bind [OF holds_make] holds_bind [OF holds_fetch]

lemma ref_of_simps [simp]: "ref_of None = {#}" "ref_of (Some p) = {#p#}"
  by (simp_all add: ref_of_def)

subsection \<open>Each operation is balanced\<close>

lemma holds_as_string [py_rules]: "holds (as_string A p) E (\<lambda>_. E)"
  unfolding as_string_def by (auto split: py_view.split option.split intro!: py_rules py_steps)

lemmas [py_steps] = holds_bind [OF holds_as_string]

lemma holds_str_text [py_rules]: "holds (str_text A p) E (\<lambda>_. E)"
  unfolding str_text_def by (auto split: option.split intro!: py_rules py_steps)

lemma holds_str_text_if [py_rules]: "holds (str_text_if A p sep) E (\<lambda>_. E)"
  unfolding str_text_if_def by (auto split: option.split intro!: py_rules py_steps)

lemma holds_each_text [py_rules]: "(\<And>p. holds (f p) E (\<lambda>_. E)) \<Longrightarrow> holds (each_text f sep ps ret) E (\<lambda>_. E)"
  by (induction ps arbitrary: ret) (auto intro: py_rules holds_bind)

lemma holds_tuple_item_text [py_rules]: "holds (tuple_item_text A p) E (\<lambda>_. E)"
  unfolding tuple_item_text_def by (auto split: py_view.split intro!: py_rules py_steps)

lemmas [py_steps] = holds_bind [OF holds_each_text] holds_bind [OF holds_str_text_if]

lemma holds_value_text [py_rules]: "holds (value_text A p ret) E (\<lambda>_. E)"
  unfolding value_text_def by (auto split: py_view.split intro!: py_rules py_steps)

lemma holds_format_lines [py_rules]: "holds (format_lines A x ret) E (\<lambda>_. E)"
  unfolding format_lines_def by (auto split: option.split py_view.split intro!: py_rules py_steps)

lemmas [py_steps] = holds_bind [OF holds_value_text] holds_bind [OF holds_format_lines]

lemma holds_full_traceback: "holds (full_traceback A m e ret) E (\<lambda>x. E + ref_of (snd x))"
  unfolding full_traceback_def by (auto split: option.split intro!: py_rules py_steps)

lemmas [py_steps] = holds_bind [OF holds_full_traceback]

lemma holds_err_value [py_steps]:
  "(\<And>r. holds (k r) E Q) \<Longrightarrow>
   holds (py_bind (case x of None \<Rightarrow> py_ret ret | Some v \<Rightarrow> value_text A v ret) k) E Q"
  by (rule holds_bind [where P = "\<lambda>_. E"]) (auto split: option.split intro: py_rules)

lemma holds_traceback: "holds (traceback A ret) E (\<lambda>_. E)"
  unfolding traceback_def by (auto split: prod.split intro!: py_rules py_steps)

lemmas [py_steps] = holds_bind [OF holds_traceback]

subsection \<open>Calls are balanced\<close>

abbreviation arg_ref :: "pycall_arg \<Rightarrow> obj multiset" where
  "arg_ref a \<equiv> ref_of (pargs_tuple a)"

text \<open>An operation that takes over the reference of the arguments.\<close>

lemma step_args:
  assumes "\<And>E. holds m (E + arg_ref a) (\<lambda>r. E + P r)" "arg_ref a \<subseteq># E"
    "\<And>r. holds (k r) (E - arg_ref a + P r) Q"
  shows "holds (py_bind m k) E Q"
proof (rule holds_bind [OF _ assms(3)])
  from assms(1) [of "E - arg_ref a"] assms(2) show "holds m E (\<lambda>r. E - arg_ref a + P r)" by simp
qed

lemma holds_arg_new: "holds (pycall_arg_new A n) E (\<lambda>a. E + arg_ref a)"
  unfolding pycall_arg_new_def by (auto intro!: py_rules py_steps)

lemma holds_arg_add: "holds (pycall_arg_add A v a) (E + arg_ref a) (\<lambda>a'. E + arg_ref a')"
  unfolding pycall_arg_add_def tuple_set_item_def
  by (auto split: option.split intro!: py_rules py_steps holds_bind [where P = "\<lambda>_. E + arg_ref a"] holds_api_fn)

lemma holds_arg_adds: "holds (pycall_arg_adds A vs a) (E + arg_ref a) (\<lambda>a'. E + arg_ref a')"
  by (induction vs arbitrary: a) (auto intro: py_rules holds_bind [OF holds_arg_add])

lemma holds_arg_release: "holds (pycall_arg_release a) (E + arg_ref a) (\<lambda>a'. E + arg_ref a')"
  unfolding pycall_arg_release_def by (auto intro!: py_rules py_steps)

lemma holds_arg_destroy: "holds (pycall_arg_release a) (E + arg_ref a) (\<lambda>_. E + {#})"
  unfolding pycall_arg_release_def by (auto intro!: py_rules py_steps)

lemma holds_to_cppobj: "holds (pyobj_to_cppobj A v m) E (\<lambda>_. E)"
  unfolding pyobj_to_cppobj_def by (auto split: py_view.split option.split intro!: py_rules py_steps)

lemmas [py_steps] = holds_bind [OF holds_to_cppobj]

lemma holds_call_value: "holds (call_value A f loc a err) (E + arg_ref a) (\<lambda>r. E + arg_ref (fst r))"
  unfolding call_value_def
  by (auto split: option.split prod.split intro!: py_rules py_steps step_args [OF holds_arg_release])

lemma holds_err_traceback: "holds (err_traceback A r) (E + arg_ref (fst r)) (\<lambda>r'. E + arg_ref (fst r'))"
  unfolding err_traceback_def by (cases r) (auto split: prod.split intro!: py_rules py_steps)

lemma holds_callable [py_steps]:
  "(\<And>c. holds (k c) E Q) \<Longrightarrow>
   holds (py_bind (case f of None \<Rightarrow> py_ret False | Some p \<Rightarrow> py_read (api_callable A p)) k) E Q"
  by (rule holds_bind [where P = "\<lambda>_. E"]) (auto split: option.split intro: py_rules)

lemma holds_call_if:
  "holds (if c then call_value A f loc a err else py_ret (a, r, err')) (E + arg_ref a) (\<lambda>r. E + arg_ref (fst r))"
  by (auto intro: py_rules holds_call_value)

lemma end_args:
  assumes "\<And>E. holds m (E + arg_ref a) (\<lambda>r. E + P r)" "arg_ref a \<subseteq># E" "\<And>r. Q r = E - arg_ref a + P r"
  shows "holds m E Q"
proof (rule holds_eq [OF assms(1)])
  from assms(2) show "E = E - arg_ref a + arg_ref a" by simp
qed (simp add: assms(3))

lemma holds_call_func: "holds (call_func A m md fn a err) (E + arg_ref a) (\<lambda>r. E + arg_ref (fst r))"
  unfolding call_func_def
  by (auto intro!: py_rules py_steps step_args [OF holds_call_if] end_args [OF holds_err_traceback])

lemma holds_call_func_obj: "holds (call_func_obj A f a err) (E + arg_ref a) (\<lambda>r. E + arg_ref (fst r))"
  unfolding call_func_obj_def
  by (auto intro!: py_rules py_steps step_args [OF holds_call_if] end_args [OF holds_err_traceback])

lemma arg_ref_end_call [simp]: "arg_ref (fst (end_call r)) = arg_ref (fst r)"
  by (cases r) (simp add: end_call_def)

lemma holds_pycall_call: "holds (pycall_call A md fn a) (E + arg_ref a) (\<lambda>r. E + arg_ref (fst r))"
  unfolding pycall_call_def
  by (auto split: option.split prod.split intro!: py_rules py_steps step_args [OF holds_call_func])

lemma holds_call_obj_method: "holds (call_obj_method A p fn a) (E + arg_ref a) (\<lambda>r. E + arg_ref (fst r))"
  unfolding call_obj_method_def
  by (auto split: option.split prod.split intro!: py_rules py_steps step_args [OF holds_call_func])

lemma holds_call_lambda: "holds (call_lambda A p a) (E + arg_ref a) (\<lambda>r. E + arg_ref (fst r))"
  unfolding call_lambda_def
  by (auto split: option.split prod.split intro!: py_rules py_steps step_args [OF holds_call_func_obj])

lemma holds_with_args:
  assumes "\<And>a E. holds (f a) (E + arg_ref a) (\<lambda>r. E + arg_ref (fst r))"
  shows "holds (with_args A as f) E (\<lambda>_. E)"
  unfolding with_args_def
  by (auto split: prod.split intro!: holds_bind [OF holds_arg_new] holds_bind [OF holds_arg_adds] holds_bind [OF assms]
      step_args [OF holds_arg_destroy] py_rules)

lemma holds_calls [py_rules]:
  "holds (ffpython_call A md fn as) E (\<lambda>_. E)"
  "holds (ffpython_obj_call A p fn as) E (\<lambda>_. E)"
  "holds (ffpython_call_lambda A p as) E (\<lambda>_. E)"
  unfolding ffpython_call_def ffpython_obj_call_def ffpython_call_lambda_def
  by (rule holds_with_args holds_pycall_call holds_call_obj_method holds_call_lambda)+

lemma holds_add_path [py_rules]: "holds (add_path A path) E (\<lambda>_. E)"
  unfolding add_path_def by (rule holds_api_fn) simp

lemma holds_run_string [py_rules]: "holds (run_string A t) E (\<lambda>_. E)"
  unfolding run_string_def by (rule holds_api_fn) simp

text \<open>Clearing the cache gives back exactly the references in it.\<close>

lemma holds_xdecref_all: "holds (xdecref_all ps) (E + sum_list (map ref_of ps)) (\<lambda>_. E)"
proof (induction ps)
  case (Cons p ps)
  show ?case
    using holds_bind [OF holds_xdecref [of "E + sum_list (map ref_of (p # ps))" "E + sum_list (map ref_of ps)" p] Cons.IH]
    by (simp add: ac_simps)
qed (auto intro: py_rules)

lemma clear_cache_balanced:
  assumes "api_is_initialized A (interp s)" "0 < gil s" "owned s = F + sum_list (map ref_of ps)"
  shows "\<exists>s'. clear_cache_pyobject A ps s = Inr ([], s') \<and> owned s' = F \<and> gil s' = gil s"
proof -
  have "\<exists>s'. xdecref_all ps s = Inr ((), s')" if "0 < gil s" "sum_list (map ref_of ps) \<subseteq># owned s" for s :: "'a py_thread" and ps
    using that
  proof (induction ps arbitrary: s)
    case (Cons p ps)
    show ?case
    proof (cases p)
      case (Some q)
      with Cons.prems have "q \<in># owned s" "sum_list (map ref_of ps) \<subseteq># owned s - {#q#}"
        by (auto simp: insert_subset_eq_iff)
      with Cons.IH [of "s\<lparr>owned := owned s - {#q#}\<rparr>"] Cons.prems(1) Some show ?thesis
        by (simp add: py_bind_def py_xdecref_def py_decref_def)
    qed (use Cons in \<open>simp add: py_bind_def py_xdecref_def py_ret_def\<close>)
  qed (simp add: py_ret_def)
  with assms(2,3) obtain s' where s': "xdecref_all ps s = Inr ((), s')" by fastforce
  from holdsD(2,3) [OF holds_xdecref_all [of ps "{#}"] assms(2), of F] assms(3) s' have "owned s' = F" "gil s' = gil s"
    by simp_all
  with assms(1) s' show ?thesis by (simp add: clear_cache_pyobject_def py_bind_def py_ret_def)
qed

lemma holds_with_module:
  assumes "\<And>m. holds (f m) (E + {#m#}) (\<lambda>_. E)"
  shows "holds (with_module A n f) E (\<lambda>_. E)"
  unfolding with_module_def
  using assms by (auto split: option.split prod.split intro!: py_rules py_steps)

lemma holds_modules [py_rules]:
  "holds (load A n) E (\<lambda>_. E)"
  "holds (reload A n) E (\<lambda>_. E)"
  "holds (get_global_var A n v) E (\<lambda>_. E)"
  unfolding load_def reload_def get_global_var_def
  by (auto split: option.split prod.split intro!: py_rules py_steps holds_with_module)

lemma holds_api_enter:
  assumes m: "holds m {#} (\<lambda>_. {#})"
  shows "case python_api_enter m s of Inl f \<Rightarrow> f = Null_String | Inr (r, s') \<Rightarrow> owned s' = owned s \<and> gil s' = gil s"
proof -
  let ?s = "s\<lparr>gil := Suc (gil s)\<rparr>"
  have s: "0 < gil ?s" "owned ?s = owned s + {#}" by simp_all
  show ?thesis
  proof (cases "m ?s")
    case (Inl f)
    with holdsD(1) [OF m s] show ?thesis by (simp add: python_api_enter_def py_bind_def gil_ensure_def)
  next
    case (Inr rs)
    then obtain r s1 where e: "m ?s = Inr (r, s1)" by (cases rs) simp
    from holdsD(2,3) [OF m s e] e show ?thesis
      by (simp add: python_api_enter_def py_bind_def gil_ensure_def gil_release_def py_ret_def)
  qed
qed

text \<open>The module functions do not leak, except \<^verbatim>\<open>set_global_var\<close>: \<^verbatim>\<open>PyObject_SetAttrString\<close> takes a
  reference of its own and the value's is never given back.\<close>

lemma set_global_var_leaks:
  assumes "0 < gil s" "api_import A (c_str md) (snd (api_string A (c_str md) (interp s))) = (Inl m, i)"
  shows "\<exists>p r s'. set_global_var A md v val s = Inr (Inr r, s') \<and> owned s' = add_mset p (owned s)"
  using assms
  by (cases "api_string A (c_str md) (interp s)"; cases "api_string A val i";
      cases "fst (api_setattr A m (c_str v) (fst (api_string A val i)) (snd (api_string A val i)))")
    (auto simp: set_global_var_def with_module_def py_bind_def py_make_def py_new_def py_api_fn_def py_decref_def py_ret_def
      split: prod.split)

subsection \<open>What a call answers\<close>

text \<open>\<open>runs N P m Q\<close>: from \<open>P\<close>, if \<open>m\<close> ends then in \<open>Q\<close>, and when \<open>N\<close> it does not fault on a null string.\<close>

definition runs :: "bool \<Rightarrow> ('i py_thread \<Rightarrow> bool) \<Rightarrow> ('i, 'a) py \<Rightarrow> ('a \<Rightarrow> 'i py_thread \<Rightarrow> bool) \<Rightarrow> bool" where
  "runs N P m Q \<longleftrightarrow> (\<forall>s. P s \<longrightarrow> (N \<longrightarrow> m s \<noteq> Inl Null_String) \<and> (\<forall>r s'. m s = Inr (r, s') \<longrightarrow> Q r s'))"

named_theorems run_rules

lemma runs_bind:
  assumes "runs N P m R" "\<And>r. runs N (R r) (k r) Q"
  shows "runs N P (py_bind m k) Q"
  using assms unfolding runs_def by (auto simp: py_bind_def split: sum.split prod.split)

lemma runs_weaken: "runs N P m R \<Longrightarrow> (\<And>s. P' s \<Longrightarrow> P s) \<Longrightarrow> (\<And>r s. R r s \<Longrightarrow> Q r s) \<Longrightarrow> runs N P' m Q"
  unfolding runs_def by blast

lemma runs_any: "runs False P m (\<lambda>_ _. True)"
  by (simp add: runs_def)

lemma runs_never: "runs N (\<lambda>_. False) m Q"
  by (simp add: runs_def)

lemma runs_ret [run_rules]: "(\<And>s. P s \<Longrightarrow> Q x s) \<Longrightarrow> runs N P (py_ret x) Q"
  by (simp add: runs_def py_ret_def)

lemma runs_fault: "runs False P (py_fault f) Q"
  by (simp add: runs_def py_fault_def)

lemma runs_new:
  "(\<And>s p i. P s \<Longrightarrow> f (interp s) = (Inl p, i) \<Longrightarrow> Q (Some p) (s\<lparr>interp := i, owned := add_mset p (owned s)\<rparr>)) \<Longrightarrow>
   (\<And>s e i. P s \<Longrightarrow> f (interp s) = (Inr e, i) \<Longrightarrow> Q None (s\<lparr>interp := i, py_error := Some e\<rparr>)) \<Longrightarrow>
   runs N P (py_new f) Q"
  by (auto simp: runs_def py_new_def py_api_fn_def split: prod.splits sum.splits if_splits)

lemma runs_read: "(\<And>s. P s \<Longrightarrow> Q (f (interp s)) s) \<Longrightarrow> runs N P (py_read f) Q"
  by (auto simp: runs_def py_read_def py_api_fn_def)

lemma runs_occurred: "(\<And>s. P s \<Longrightarrow> Q (py_error s \<noteq> None) s) \<Longrightarrow> runs N P py_err_occurred Q"
  by (auto simp: runs_def py_err_occurred_def py_api_fn_def)

lemma runs_clear: "runs N P py_err_clear (\<lambda>_ s. py_error s = None)"
  by (auto simp: runs_def py_err_clear_def py_api_fn_def)

text \<open>Operations that leave the error indicator alone.\<close>

definition on_err :: "(py_err option \<Rightarrow> bool) \<Rightarrow> 'i py_thread \<Rightarrow> bool" where
  "on_err E s \<longleftrightarrow> E (py_error s)"

lemma runs_quiet [run_rules]:
  "runs N (on_err E) (py_decref p) (\<lambda>_. on_err E)"
  "runs N (on_err E) (py_xdecref x) (\<lambda>_. on_err E)"
  "runs N (on_err E) (py_make g) (\<lambda>_. on_err E)"
  "runs N (on_err E) (pycall_arg_release a) (\<lambda>_. on_err E)"
  "runs N (on_err E) gil_ensure (\<lambda>_. on_err E)"
  "runs N (on_err E) gil_release (\<lambda>_. on_err E)"
  "runs N (on_err E) (add_path A path) (\<lambda>_. on_err E)"
  by (auto simp: runs_def on_err_def py_decref_def py_xdecref_def py_ret_def py_make_def py_api_fn_def pycall_arg_release_def
      py_bind_def gil_ensure_def gil_release_def add_path_def split: option.splits prod.splits if_splits sum.splits)

lemma runs_seq: "(\<And>r. runs False (\<lambda>_. True) (k r) Q) \<Longrightarrow> runs False P (py_bind m k) Q"
  by (rule runs_bind [OF runs_any])

lemma runs_split [run_rules]: "(\<And>a b. r = (a, b) \<Longrightarrow> runs N P (k a b) Q) \<Longrightarrow> runs N P (case r of (a, b) \<Rightarrow> k a b) Q"
  by (cases r) simp

abbreviation no_error :: "'i py_thread \<Rightarrow> bool" where
  "no_error \<equiv> on_err (\<lambda>e. e = None)"

lemma runs_clear_ret: "runs False P (py_bind py_err_clear (\<lambda>_. py_ret x)) (\<lambda>_. no_error)"
  by (rule runs_bind [OF runs_clear]) (auto intro: runs_ret simp: on_err_def)

lemma py_bind_occurred: "py_bind py_err_occurred k s = (if gil s = 0 then Inl No_Gil else k (py_error s \<noteq> None) s)"
  by (simp add: py_bind_def py_err_occurred_def py_api_fn_def)

lemma runs_if_error:
  assumes t: "runs N (\<lambda>s. P s \<and> py_error s \<noteq> None) (k True) Q" and f: "runs N no_error (k False) Q"
  shows "runs N P (py_bind py_err_occurred k) Q"
  unfolding runs_def
proof (intro allI impI)
  fix s
  assume s: "P s"
  show "(N \<longrightarrow> py_bind py_err_occurred k s \<noteq> Inl Null_String) \<and> (\<forall>r s'. py_bind py_err_occurred k s = Inr (r, s') \<longrightarrow> Q r s')"
  proof (cases "py_error s")
    case None
    with f show ?thesis by (simp add: py_bind_occurred runs_def on_err_def)
  next
    case (Some e)
    with s have "P s \<and> py_error s \<noteq> None" by simp
    with t have "(N \<longrightarrow> k True s \<noteq> Inl Null_String) \<and> (\<forall>r s'. k True s = Inr (r, s') \<longrightarrow> Q r s')"
      unfolding runs_def by blast
    with Some show ?thesis by (simp add: py_bind_occurred)
  qed
qed

lemma traceback_clears: "runs False P (traceback A ret) (\<lambda>_. no_error)"
  unfolding traceback_def
  by (rule runs_if_error; simp; (rule runs_clear_ret runs_split runs_seq runs_ret)+)

lemma err_traceback_clears: "runs False P (err_traceback A r) (\<lambda>_. no_error)"
  unfolding err_traceback_def
  by (rule runs_split)+ (rule runs_if_error; simp; auto intro!: run_rules runs_bind [OF traceback_clears])

lemma call_func_clears:
  "runs False P (call_func A m md fn a err) (\<lambda>_. no_error)"
  "runs False P (call_func_obj A f a err) (\<lambda>_. no_error)"
  unfolding call_func_def call_func_obj_def by (rule runs_seq err_traceback_clears)+

lemma pycall_call_clears: "runs False P (pycall_call A md fn a) (\<lambda>_. no_error)"
  unfolding pycall_call_def
  by (rule runs_seq)+
    (auto split: option.split intro!: run_rules runs_bind [OF traceback_clears] runs_bind [OF call_func_clears(1)] runs_bind [OF runs_quiet(1)])

lemma ffpython_call_clears: "runs False P (ffpython_call A md fn as) (\<lambda>_. no_error)"
  unfolding ffpython_call_def with_args_def
  by (rule runs_seq, rule runs_seq)
    (auto intro!: run_rules runs_bind [OF pycall_call_clears] runs_bind [OF runs_quiet(4)])

lemma python_call_clears:
  "runs False P (python_call_in A md fn as) (\<lambda>_. no_error)"
  "runs False P (python_call_path A path md fn as) (\<lambda>_. no_error)"
  unfolding python_call_in_def python_call_path_def python_api_enter_def
  by (rule runs_seq, auto intro!: run_rules runs_bind [OF ffpython_call_clears] runs_bind [OF runs_seq [OF ffpython_call_clears]]
      runs_bind [OF runs_quiet(6)])+

lemma python_call_balanced_ends:
  "case python_call_path A path md fn as s of
     Inl f \<Rightarrow> f = Null_String
   | Inr (r, s') \<Rightarrow> owned s' = owned s \<and> gil s' = gil s \<and> py_error s' = None"
proof -
  have "holds (py_bind (add_path A path) (\<lambda>_. ffpython_call A (c_str md) (c_str fn) as)) {#} (\<lambda>_. {#})"
    by (auto intro!: py_rules holds_bind [OF holds_add_path])
  from holds_api_enter [OF this, of s] python_call_clears(2) [of "\<lambda>_. True" A path md fn as]
  show ?thesis
    by (auto simp: python_call_path_def runs_def on_err_def split: sum.splits prod.splits)
qed

subsection \<open>Steps of a call that reaches its function\<close>

named_theorems run_steps

lemma c_str_idem [simp]: "c_str (c_str t) = c_str t"
  by (simp add: c_str_def)

lemma py_bind_ret [simp]: "py_bind (py_ret x) k = k x"
  by (rule ext) (simp add: py_bind_def py_ret_def)

lemma runs_fact: "(C \<Longrightarrow> runs N P m Q) \<Longrightarrow> runs N (\<lambda>s. C \<and> P s) m Q"
  by (cases C) (simp_all add: runs_def)

lemmas [run_steps] = runs_bind [OF runs_quiet(1)] runs_bind [OF runs_quiet(2)] runs_bind [OF runs_quiet(3)]
  runs_bind [OF runs_quiet(4)] runs_bind [OF runs_quiet(5)] runs_bind [OF runs_quiet(6)] runs_bind [OF runs_quiet(7)]

lemma runs_some:
  assumes "\<And>i :: 'i. \<exists>p j. f i = (Inl p, j)" "\<And>p. runs N (on_err E) (k (Some p)) Q"
  shows "runs N (on_err E) (py_bind (py_new f) k) Q"
proof (rule runs_bind)
  show "runs N (on_err E) (py_new f) (\<lambda>r s. (\<exists>p. r = Some p) \<and> on_err E s)"
  proof (rule runs_new)
    fix s :: "'i py_thread" and e i
    assume "f (interp s) = (Inr e, i)"
    then show "(\<exists>p. None = Some p) \<and> on_err E (s\<lparr>interp := i, py_error := Some e\<rparr>)" using assms(1) [of "interp s"] by auto
  qed (simp add: on_err_def)
  show "runs N (\<lambda>s. (\<exists>p. r = Some p) \<and> on_err E s) (k r) Q" for r
    using assms(2) by (auto intro!: runs_fact)
qed

lemma runs_none:
  assumes "\<And>i :: 'i. \<exists>e j. f i = (Inr e, j) \<and> V (Some e)" "runs N (on_err V) (k None) Q"
  shows "runs N P (py_bind (py_new f) k) Q"
proof (rule runs_bind)
  show "runs N P (py_new f) (\<lambda>r s. r = None \<and> on_err V s)"
  proof (rule runs_new)
    fix s :: "'i py_thread" and p i
    assume "f (interp s) = (Inl p, i)"
    then show "Some p = None \<and> on_err V (s\<lparr>interp := i, owned := add_mset p (owned s)\<rparr>)" using assms(1) [of "interp s"] by auto
  next
    fix s :: "'i py_thread" and e i
    assume "f (interp s) = (Inr e, i)"
    then show "None = None \<and> on_err V (s\<lparr>interp := i, py_error := Some e\<rparr>)" using assms(1) [of "interp s"] by (auto simp: on_err_def)
  qed
  show "runs N (\<lambda>s. r = None \<and> on_err V s) (k r) Q" for r
    using assms(2) by (auto intro!: runs_fact)
qed

lemma runs_either: "(\<And>x. runs N (on_err (\<lambda>_. True)) (k x) Q) \<Longrightarrow> runs N P (py_bind (py_new f) k) Q"
  by (rule runs_bind [OF runs_new [where Q = "\<lambda>_. on_err (\<lambda>_. True)"]]) (auto simp: on_err_def)

lemma runs_callable:
  "(\<And>i. api_callable A f i) \<Longrightarrow> runs N (on_err E) (k True) Q \<Longrightarrow> runs N (on_err E) (py_bind (py_read (api_callable A f)) k) Q"
  by (rule runs_bind [OF runs_read [where Q = "\<lambda>r s. r \<and> on_err E s"]]) (auto intro!: runs_fact)

lemma runs_arg_add: "runs N (on_err E) (pycall_arg_add A v a) (\<lambda>_. on_err E)"
  unfolding pycall_arg_add_def tuple_set_item_def
  by (auto split: option.split intro!: run_rules run_steps runs_bind [where R = "\<lambda>_. on_err E"])
    (auto simp: runs_def on_err_def py_api_fn_def)

lemma runs_arg_adds: "runs N (on_err E) (pycall_arg_adds A vs a) (\<lambda>_. on_err E)"
  by (induction vs arbitrary: a) (auto intro: run_rules runs_bind [OF runs_arg_add])

lemma runs_arg_new: "runs N (on_err E) (pycall_arg_new A n) (\<lambda>_. on_err E)"
  unfolding pycall_arg_new_def by (auto intro!: run_rules run_steps)

subsection \<open>Exceptions and results\<close>

text \<open>The module can be imported and has the function, in every state of the interpreter.\<close>

definition has_function :: "'i py_api \<Rightarrow> string \<Rightarrow> string \<Rightarrow> bool" where
  "has_function A md fn \<longleftrightarrow> (\<forall>i. \<exists>m j. api_import A (c_str md) i = (Inl m, j)) \<and>
     (\<forall>m i. \<exists>f j. api_getattr A m (c_str fn) i = (Inl f, j)) \<and> (\<forall>f i. api_callable A f i)"

lemma on_err_True [simp]: "on_err (\<lambda>_. True) s"
  by (simp add: on_err_def)

lemma runs_pure: "(C \<Longrightarrow> runs N (on_err (\<lambda>_. True)) m Q) \<Longrightarrow> runs N (\<lambda>_. C) m Q"
  by (cases C) (simp_all add: runs_def)

lemma has_functionD:
  "has_function A md fn \<Longrightarrow> \<exists>m j. api_import A (c_str md) i = (Inl m, j)"
  "has_function A md fn \<Longrightarrow> \<exists>f j. api_getattr A m (c_str fn) i = (Inl f, j)"
  "has_function A md fn \<Longrightarrow> api_callable A f i"
  by (auto simp: has_function_def)

lemma call_value_raises:
  assumes "\<And>f t i. \<exists>e j. api_call A f t i = (Inr e, j) \<and> V (Some e)"
  shows "runs N (on_err E) (call_value A f loc a err) (\<lambda>r s. snd r = ([], err) \<and> on_err V s)"
  unfolding call_value_def
  by (rule runs_none [OF assms]) (auto intro!: run_rules run_steps)

lemma runs_error:
  assumes "\<And>s. P s \<Longrightarrow> py_error s \<noteq> None" "runs N P (k True) Q"
  shows "runs N P (py_bind py_err_occurred k) Q"
proof -
  have "py_bind py_err_occurred k s = (if gil s = 0 then Inl No_Gil else k True s)" if "P s" for s
    using assms(1) [OF that] by (simp add: py_bind_occurred)
  with assms(2) show ?thesis by (simp add: runs_def)
qed

lemma on_err_some: "\<not> V None \<Longrightarrow> on_err V s \<Longrightarrow> py_error s \<noteq> None"
  by (cases "py_error s") (auto simp: on_err_def)

lemma err_traceback_raises:
  assumes tb: "runs N (on_err V) (traceback A []) (\<lambda>t _. T (snd t))" and V: "\<not> V None" and r: "snd r = ([], [])"
  shows "runs N (on_err V) (err_traceback A r) (\<lambda>r' _. \<exists>t. T t \<and> snd r' = ([], t))"
proof -
  from r obtain a where r: "r = (a, [], [])" by (cases r) auto
  show ?thesis
    unfolding r err_traceback_def prod.case
    by (rule runs_error, rule on_err_some [where V = V], rule V, simp, simp, rule runs_bind [OF tb]) (auto intro!: run_rules)
qed

lemma call_func_reaches:
  assumes f: "has_function A md fn"
    and v: "\<And>p loc. runs N (on_err E) (call_value A p loc a []) (\<lambda>r s. snd r = x \<and> on_err V s)"
    and e: "\<And>r. snd r = x \<Longrightarrow> runs N (on_err V) (err_traceback A r) (\<lambda>r' _. C (snd r'))"
  shows "runs N (on_err E) (call_func A m md' fn a []) (\<lambda>r' _. C (snd r'))"
  unfolding call_func_def
proof (rule runs_some)
  show "\<exists>p j. api_getattr A m (c_str fn) i = (Inl p, j)" for i by (rule has_functionD(2) [OF f])
  fix p
  show "runs N (on_err E) (py_bind (case Some p of None \<Rightarrow> py_ret False | Some f \<Rightarrow> py_read (api_callable A f)) (\<lambda>callable.
      py_bind (if callable then call_value A (the (Some p)) ('' '' @ fn @ '' in '' @ md') a []
        else py_ret (a, [], [] @ ''Cannot find function '' @ fn @ '' in '' @ md' @ '','')) (\<lambda>r.
      py_bind (py_xdecref (Some p)) (\<lambda>_. err_traceback A r)))) (\<lambda>r' _. C (snd r'))"
    by (simp, rule runs_callable [OF has_functionD(3) [OF f]], simp, rule runs_bind [OF v]) (auto intro!: runs_fact run_steps e)
qed

text \<open>What the function does is what the whole call does.\<close>

lemma python_call_reaches:
  assumes f: "has_function A md fn"
    and c: "\<And>m a. runs N (on_err E) (call_func A m (c_str md) (c_str fn) a []) (\<lambda>r _. C (snd r))"
  shows "runs N (on_err E) (python_call_path A path md fn as)
    (\<lambda>r _. \<exists>v t. C (v, t) \<and> r = (if t \<noteq> [] then Inl (c_str t) else Inr v))"
proof -
  let ?Q = "\<lambda>r. \<exists>v t. C (v, t) \<and> r = (if t \<noteq> [] then Inl (c_str t) else Inr v)"
  have fin: "runs N (\<lambda>_. C (snd r)) (py_bind (py_decref m) (\<lambda>_. py_ret (end_call r))) (\<lambda>r _. ?Q (snd r))" for r m
    by (rule runs_pure, rule run_steps, rule runs_ret) (cases r, auto simp: end_call_def)
  have call: "runs N (on_err E) (pycall_call A (c_str md) (c_str fn) a) (\<lambda>r _. ?Q (snd r))" for a
    unfolding pycall_call_def
  proof (rule run_steps, rule runs_some)
    show "\<exists>m j. api_import A (c_str (c_str md)) i = (Inl m, j)" for i using has_functionD(1) [OF f] by simp
    fix pName m
    show "runs N (on_err E) (py_bind (py_decref pName) (\<lambda>_. case Some m of
         None \<Rightarrow> py_bind (traceback A []) (\<lambda>(_, err_msg). py_ret (a, Inl (c_str err_msg)))
       | Some m \<Rightarrow> py_bind (call_func A m (c_str md) (c_str fn) a []) (\<lambda>r. py_bind (py_decref m) (\<lambda>_. py_ret (end_call r)))))
       (\<lambda>r _. ?Q (snd r))"
      by (rule run_steps, simp only: option.case, rule runs_bind [OF c], rule fin)
  qed
  have args: "runs N (on_err E) (ffpython_call A (c_str md) (c_str fn) as) (\<lambda>r _. ?Q r)"
    unfolding ffpython_call_def with_args_def
    by (rule runs_bind [OF runs_arg_new], rule runs_bind [OF runs_arg_adds], rule runs_bind [OF call], rule runs_pure,
        rule runs_split, rule run_steps, rule runs_ret) auto
  show ?thesis
    unfolding python_call_path_def python_api_enter_def
    by (rule run_steps, rule runs_bind, rule run_steps, rule args) (auto intro!: runs_pure run_steps run_rules)
qed

lemma python_call_raises:
  assumes f: "has_function A md fn"
    and c: "\<And>f t i. \<exists>e j. api_call A f t i = (Inr e, j) \<and> V (Some e)"
    and tb: "runs N (on_err V) (traceback A []) (\<lambda>t _. T (snd t))" "\<not> V None"
  shows "runs N (on_err (\<lambda>_. True)) (python_call_path A path md fn as) (\<lambda>r _. \<exists>t. T t \<and> r = (if t \<noteq> [] then Inl (c_str t) else Inr []))"
proof -
  have "has_function A md (c_str fn)" using f by (simp add: has_function_def)
  from call_func_reaches [OF this call_value_raises [OF c] err_traceback_raises [OF tb], where E = "\<lambda>_. True"]
  have "runs N (on_err (\<lambda>_. True)) (call_func A m (c_str md) (c_str fn) a []) (\<lambda>r _. fst (snd r) = [] \<and> T (snd (snd r)))" for m a
    by (rule runs_weaken) auto
  then show ?thesis
    by (rule runs_weaken [OF python_call_reaches [OF f, where C = "\<lambda>x. fst x = [] \<and> T (snd x)"]]) auto
qed

text \<open>The references of a fetched error.\<close>

lemma runs_fetch: "runs N (on_err (\<lambda>x. \<exists>e. x = Some e \<and> C e)) py_err_fetch (\<lambda>e _. C e)"
  by (auto simp: runs_def on_err_def py_err_fetch_def py_api_fn_def)

text \<open>An exception without a value leaves no text.\<close>

lemma traceback_valueless:
  "runs N (on_err (\<lambda>x. \<exists>e. x = Some e \<and> err_value e = None)) (traceback A []) (\<lambda>t _. snd t = [])"
proof -
  have full: "full_traceback A m e ret = py_ret (ret, None)" if "err_value e = None" for m e and ret :: string
    using that by (simp add: full_traceback_def split: option.split)
  show ?thesis
    unfolding traceback_def
    by (rule runs_error, force simp: on_err_def, simp, rule runs_bind [OF runs_fetch], rule runs_pure, simp add: full,
        rule run_steps, rule runs_either, rule run_steps, (rule run_steps)+, rule runs_bind [OF runs_clear], rule runs_ret) simp
qed

text \<open>One whose value is a tuple or a list with an item that has no text, at any place, is undefined:
  \<^verbatim>\<open>PyObject_Str\<close> of it fails and its null result is read. An item of a tuple that is a tuple itself is
  printed item by item. Python 2 makes a failed dict lookup a \<^verbatim>\<open>KeyError\<close> whose value is the
  1-tuple of the key, and a unicode key outside ASCII has no text.\<close>

definition no_text :: "'i py_api \<Rightarrow> obj \<Rightarrow> bool" where
  "no_text A q \<longleftrightarrow> (\<forall>i. \<exists>e j. api_str A q i = (Inr e, j))"

definition item_no_text :: "'i py_api \<Rightarrow> obj \<Rightarrow> bool" where
  "item_no_text A q \<longleftrightarrow> (\<forall>i. case api_view A q i of Py_Tuple rs \<Rightarrow> \<exists>r \<in> set rs. no_text A r | _ \<Rightarrow> no_text A q)"

definition unprintable :: "'i py_api \<Rightarrow> py_err \<Rightarrow> bool" where
  "unprintable A e \<longleftrightarrow> (\<exists>p. err_value e = Some p \<and> (\<forall>i. case api_view A p i of
       Py_Tuple qs \<Rightarrow> \<exists>q \<in> set qs. item_no_text A q
     | Py_List qs \<Rightarrow> \<exists>q \<in> set qs. no_text A q
     | _ \<Rightarrow> False))"

lemma str_text_never: "no_text A q \<Longrightarrow> runs False P (str_text A q) (\<lambda>_ _. False)"
  unfolding str_text_def by (rule runs_none [where V = "\<lambda>_. True"]) (auto simp: no_text_def intro: runs_fault)

lemma each_text_never:
  "q \<in> set ps \<Longrightarrow> (\<And>P. runs False P (f q) (\<lambda>_ _. False)) \<Longrightarrow> runs False P (each_text f sep ps ret) (\<lambda>_ _. False)"
proof (induction ps arbitrary: P ret)
  case (Cons p ps)
  show ?case
  proof (cases "p = q")
    case True
    show ?thesis unfolding each_text.simps True by (rule runs_bind [OF Cons.prems(2)]) (rule runs_never)
  next
    case False
    with Cons.prems(1) have "q \<in> set ps" by simp
    with Cons.IH Cons.prems(2) show ?thesis unfolding each_text.simps by (intro runs_seq) blast
  qed
qed simp

lemma tuple_item_text_never:
  assumes "item_no_text A q"
  shows "runs False P (tuple_item_text A q) (\<lambda>_ _. False)"
  unfolding tuple_item_text_def
proof (rule runs_bind [OF runs_read [where Q = "\<lambda>v _. case v of Py_Tuple rs \<Rightarrow> \<exists>r \<in> set rs. no_text A r | _ \<Rightarrow> no_text A q"]])
  show "case api_view A q (interp s) of Py_Tuple rs \<Rightarrow> \<exists>r \<in> set rs. no_text A r | _ \<Rightarrow> no_text A q" for s :: "'a py_thread"
    using assms unfolding item_no_text_def by blast
  show "runs False (\<lambda>_. case v of Py_Tuple rs \<Rightarrow> \<exists>r \<in> set rs. no_text A r | _ \<Rightarrow> no_text A q)
     (case v of Py_Tuple ps \<Rightarrow> each_text (str_text A) '','' ps [] | _ \<Rightarrow> str_text A q) (\<lambda>_ _. False)" for v
    by (rule runs_weaken [OF runs_pure, of "case v of Py_Tuple rs \<Rightarrow> \<exists>r \<in> set rs. no_text A r | _ \<Rightarrow> no_text A q"])
      (auto split: py_view.splits intro: str_text_never each_text_never)
qed

lemma value_text_unprintable:
  assumes "\<And>i. case api_view A p i of Py_Tuple qs \<Rightarrow> \<exists>q \<in> set qs. item_no_text A q
     | Py_List qs \<Rightarrow> \<exists>q \<in> set qs. no_text A q | _ \<Rightarrow> False"
  shows "runs False P (value_text A p ret) (\<lambda>_ _. False)"
  unfolding value_text_def
proof (rule runs_bind [OF runs_read [where Q = "\<lambda>v _. case v of Py_Tuple qs \<Rightarrow> \<exists>q \<in> set qs. item_no_text A q
     | Py_List qs \<Rightarrow> \<exists>q \<in> set qs. no_text A q | _ \<Rightarrow> False"]])
  show "runs False (\<lambda>_. case v of Py_Tuple qs \<Rightarrow> \<exists>q \<in> set qs. item_no_text A q
     | Py_List qs \<Rightarrow> \<exists>q \<in> set qs. no_text A q | _ \<Rightarrow> False)
     (case v of Py_Tuple ps \<Rightarrow> each_text (tuple_item_text A) newline ps ret
     | Py_List ps \<Rightarrow> py_bind (each_text (str_text A) newline ps ret) (\<lambda>ret.
         py_bind (str_text_if A p newline) (\<lambda>t. py_ret (ret @ t)))
     | _ \<Rightarrow> py_bind (str_text_if A p newline) (\<lambda>t. py_ret (ret @ t))) (\<lambda>_ _. False)" for v
  proof (cases v)
    case (Py_List qs)
    have "runs False (\<lambda>_. \<exists>q \<in> set qs. no_text A q) (each_text (str_text A) newline qs ret) (\<lambda>_ _. False)"
      by (rule runs_weaken [OF runs_pure, of "\<exists>q \<in> set qs. no_text A q"]) (auto intro: str_text_never each_text_never)
    then show ?thesis unfolding Py_List py_view.case by (rule runs_bind) (rule runs_never)
  next
    case (Py_Tuple qs)
    show ?thesis unfolding Py_Tuple py_view.case
      by (rule runs_weaken [OF runs_pure, of "\<exists>q \<in> set qs. item_no_text A q"]) (auto intro: tuple_item_text_never each_text_never)
  qed (simp_all add: runs_never)
qed (use assms in blast)

lemma traceback_unprintable:
  "runs False (on_err (\<lambda>x. \<exists>e. x = Some e \<and> unprintable A e)) (traceback A []) (\<lambda>t _. False)"
  unfolding traceback_def
  apply (rule runs_error, force simp: on_err_def, simp, rule runs_bind [OF runs_fetch], rule runs_pure)
  apply (clarsimp simp: unprintable_def)
  apply (rule runs_bind [OF value_text_unprintable]; (blast | rule runs_never))
  done

text \<open>A call that works.\<close>

lemma runs_release: "runs N (\<lambda>s. I (interp s) \<and> py_error s = None) (pycall_arg_release a) (\<lambda>_ s. I (interp s) \<and> py_error s = None)"
  by (auto simp: runs_def pycall_arg_release_def py_xdecref_def py_decref_def py_ret_def py_bind_def
      split: option.splits if_splits sum.splits)

lemma call_value_returns:
  assumes "\<And>f t i. \<exists>v j. api_call A f t i = (Inl v, j) \<and> api_view A v j = Py_String r"
  shows "runs N no_error (call_value A f loc a err) (\<lambda>x s. snd x = (r, err) \<and> no_error s)"
  unfolding call_value_def
proof (rule runs_bind)
  from assms obtain V J where "api_call A f (pargs_tuple a) i = (Inl (V i), J i) \<and> api_view A (V i) (J i) = Py_String r" for i
    by metis
  then show "runs N no_error (py_new (api_call A f (pargs_tuple a)))
      (\<lambda>x s. (\<exists>v. x = Some v \<and> api_view A v (interp s) = Py_String r) \<and> py_error s = None)"
    by (intro runs_new) (auto simp: on_err_def)
  show "runs N (\<lambda>s. (\<exists>v. x = Some v \<and> api_view A v (interp s) = Py_String r) \<and> py_error s = None)
     (py_bind (pycall_arg_release a) (\<lambda>pyarg. case x of None \<Rightarrow> py_ret (pyarg, [], err)
       | Some v \<Rightarrow> py_bind (pyobj_to_cppobj A v []) (\<lambda>(st, r).
           py_bind (py_decref v) (\<lambda>_. py_ret (pyarg, r, if st \<noteq> 0 then err @ ''value returned is not string'' @ loc else err)))))
     (\<lambda>x s. snd x = (r, err) \<and> no_error s)" for x
  proof (cases x)
    case None
    then show ?thesis by (auto simp: runs_def)
  next
    case (Some v)
    have c: "runs N (\<lambda>s. api_view A v (interp s) = Py_String r \<and> py_error s = None) (pyobj_to_cppobj A v [])
        (\<lambda>x s. x = (0, r) \<and> no_error s)"
      unfolding pyobj_to_cppobj_def
      by (rule runs_bind [OF runs_read [where Q = "\<lambda>w s. w = Py_String r \<and> no_error s"]])
        (auto simp: on_err_def intro!: runs_fact runs_ret)
    from Some show ?thesis
      by (simp, intro runs_bind [OF runs_release [where I = "\<lambda>i. api_view A v i = Py_String r"]] runs_bind [OF c])
        (auto intro!: runs_fact run_steps runs_ret)
  qed
qed

lemma python_call_works:
  assumes f: "has_function A md fn"
    and c: "\<And>f t i. \<exists>v j. api_call A f t i = (Inl v, j) \<and> api_view A v j = Py_String x"
  shows "runs N no_error (python_call_path A path md fn as) (\<lambda>r _. r = Inr x)"
proof -
  have f': "has_function A md (c_str fn)" using f by (simp add: has_function_def)
  have e: "runs N no_error (err_traceback A r) (\<lambda>r' _. snd r' = (x, []))" if "snd r = (x, [])" for r
  proof -
    from that obtain a where r: "r = (a, x, [])" by (cases r) auto
    show ?thesis
      unfolding r err_traceback_def prod.case
      by (rule runs_if_error) (auto simp: runs_def on_err_def py_ret_def)
  qed
  show ?thesis
    by (rule runs_weaken [OF python_call_reaches [OF f call_func_reaches [OF f' call_value_returns [OF c] e]]]) auto
qed

text \<open>With the accounting: no fault but the null string, so a call that cannot have it ends.\<close>

lemma python_call_ends:
  assumes "runs True P (python_call_path A path md fn as) Q" "P s"
  shows "\<exists>r s'. python_call_path A path md fn as s = Inr (r, s') \<and> Q r s'"
  using assms python_call_balanced_ends [where A = A and path = path and md = md and fn = fn and as = as and s = s]
  by (cases "python_call_path A path md fn as s") (auto simp: runs_def)

subsection \<open>The answers of the responser\<close>

text \<open>What the responser's call gives: the argument \<open>python_call\<close> of the responsers.\<close>

definition python_answer :: "'i py_api \<Rightarrow> 'i py_thread \<Rightarrow> string \<Rightarrow> string \<Rightarrow> string \<Rightarrow> string \<Rightarrow> py_result" where
  "python_answer A s path md fn arg =
     (case python_call_path A path md fn [arg] s of Inl f \<Rightarrow> Py_Crash | Inr (r, s') \<Rightarrow> py_outcome r)"

lemma python_answer_works:
  assumes "has_function A md fn" "\<And>f t i. \<exists>v j. api_call A f t i = (Inl v, j) \<and> api_view A v j = Py_String x"
    and "py_error s = None"
  shows "python_answer A s path md fn arg = Py_Returns x"
proof -
  from python_call_ends [OF python_call_works [OF assms(1,2)], of s path "[arg]"] assms(3)
  obtain s' where "python_call_path A path md fn [arg] s = Inr (Inr x, s')" by (auto simp: on_err_def)
  then show ?thesis by (simp add: python_answer_def)
qed

lemma python_answer_valueless:
  assumes "has_function A md fn" "\<And>f t i. \<exists>e j. api_call A f t i = (Inr e, j) \<and> err_value e = None"
  shows "python_answer A s path md fn arg = Py_Returns []"
proof -
  from assms(2) have "\<exists>e j. api_call A f t i = (Inr e, j) \<and> (\<exists>e'. Some e = Some e' \<and> err_value e' = None)" for f t i by simp
  from python_call_ends [OF python_call_raises [OF assms(1) this traceback_valueless], of s path "[arg]"]
  obtain s' where "python_call_path A path md fn [arg] s = Inr (Inr [], s')" by auto
  then show ?thesis by (simp add: python_answer_def)
qed

text \<open>A \<^verbatim>\<open>KeyError\<close> whose key has no text, such as a unicode key outside ASCII, ends the process.\<close>

lemma python_answer_unprintable:
  assumes "has_function A md fn" "\<And>f t i. \<exists>e j. api_call A f t i = (Inr e, j) \<and> unprintable A e"
  shows "python_answer A s path md fn arg = Py_Crash"
proof -
  from assms(2) have "\<exists>e j. api_call A f t i = (Inr e, j) \<and> (\<exists>e'. Some e = Some e' \<and> unprintable A e')" for f t i by simp
  from python_call_raises [OF assms(1) this traceback_unprintable, of path "[arg]"]
  show ?thesis by (auto simp: runs_def python_answer_def split: sum.split)
qed

text \<open>C20: a call into Python, however it ends, gives back every reference it took and none it did
  not hold, leaves the interpreter lock as often as it entered it, calls no C API function outside
  the lock, and ends with the error indicator clear. The one undefined behaviour it can have is
  the use of a null string.\<close>

theorem python_call_balanced:
  "case python_call_path A path md fn as s of
     Inl f \<Rightarrow> f = Null_String
   | Inr (r, s') \<Rightarrow> owned s' = owned s \<and> gil s' = gil s \<and> py_error s' = None"
  by (rule python_call_balanced_ends)

text \<open>C29: a Python function that raises an exception without a value (\<^verbatim>\<open>StopIteration\<close> from
  \<^verbatim>\<open>next\<close> is one) is reported to the client as a success: the call returns the empty string, and the
  responser answers status 1 with an empty JSON text.\<close>

theorem valueless_exception_is_success:
  assumes "parse_packet X data = (True, p)" "packet_type_of p = 31"
    and "has_function A (hq_module_name (get_python p)) (hq_function_name (get_python p))"
    and "\<And>f t i. \<exists>e j. api_call A f t i = (Inr e, j) \<and> err_value e = None"
    and "python_call X = python_answer A s"
  shows "python_parser X c data = Done (result_new, packet_bytes X (packet_new\<lparr>p_type := Some 32,
    python_resp := Some \<lparr>hs_cid = Some (hq_cid (get_python p)), hs_json_response = Some [], hs_status = Some 1\<rparr>\<rparr>))"
proof -
  have "python_call X (python_root c) (hq_module_name (get_python p)) (hq_function_name (get_python p))
      (hq_json_request (get_python p)) = Py_Returns []"
    unfolding assms(5) by (rule python_answer_valueless) (use assms(3,4) in auto)
  with assms(1,2) show ?thesis by (simp add: python_parser_def Let_def)
qed

definition demo_api :: "unit py_api" where
  "demo_api = \<lparr>api_string = (\<lambda>t i. (1, i)), api_tuple = (\<lambda>n i. (2, i)), api_tuple_set = (\<lambda>t n p i. i),
     api_view = (\<lambda>p i. Py_Object), api_import = (\<lambda>n i. (Inl 3, i)), api_reload = (\<lambda>m i. (Inl m, i)),
     api_getattr = (\<lambda>m n i. (Inl 4, i)), api_setattr = (\<lambda>m n p i. (None, i)), api_callable = (\<lambda>f i. True),
     api_call = (\<lambda>f t i. (Inr \<lparr>err_type = Some 5, err_value = None, err_tb = Some 6\<rparr>, i)),
     api_call_args = (\<lambda>f as i. (Inl 7, i)), api_str = (\<lambda>p i. (Inl 8, i)),
     api_encode_error = (\<lambda>p i. (err_none, i)), api_run = (\<lambda>t i. i), api_is_initialized = (\<lambda>i. True),
     api_initialize = id, api_finalize = id\<rparr>"

definition demo_thread :: "unit py_thread" where
  "demo_thread = \<lparr>interp = (), owned = {#}, py_error = None, gil = 0\<rparr>"

definition demo_python :: "demo_json task_ext" where
  "demo_python = demo_task\<lparr>python_call := python_answer demo_api demo_thread\<rparr>"

lemma demo_api_simps:
  "has_function demo_api md fn" "\<exists>e j. api_call demo_api f t i = (Inr e, j) \<and> err_value e = None"
  by (auto simp: has_function_def demo_api_def)

lemma valueless_exception_is_success_witness:
  "python_parser demo_python (configwrap_new 4 0) [8, 31] = Done (result_new, [8, 32, 106, 6, 10, 0, 18, 0, 24, 1])"
proof -
  have "parse_packet demo_python [8, 31] = (True, packet_new\<lparr>p_type := Some 31\<rparr>)" "packet_type_of (packet_new\<lparr>p_type := Some 31\<rparr>) = 31"
    by (simp_all add: demo_python_def demo_task_def packet_type_of_def parse_packet_def demo_types)
  from valueless_exception_is_success [OF this demo_api_simps, of demo_thread, where c = "configwrap_new 4 0"]
  have "python_parser demo_python (configwrap_new 4 0) [8, 31] = Done (result_new, bytes_of_packet demo_rt (packet_new\<lparr>p_type := Some 32,
      python_resp := Some \<lparr>hs_cid = Some [], hs_json_response = Some [], hs_status = Some 1\<rparr>\<rparr>))"
    by (simp add: demo_python_def demo_task_def packet_bytes_def get_python_def packet_new_def)
  moreover have "bytes_of_packet demo_rt (packet_new\<lparr>p_type := Some 32,
      python_resp := Some \<lparr>hs_cid = Some [], hs_json_response = Some [], hs_status = Some 1\<rparr>\<rparr>) = [8, 32, 106, 6, 10, 0, 18, 0, 24, 1]"
    by code_simp
  ultimately show ?thesis by simp
qed

end
