(* ===== verification/PythonConv.thy ===== *)
theory PythonConv
  imports BPrelude "HOL-Library.Multiset"
begin

text \<open>
  The conversions between C++ and Python values of include/ffpython.h (\<^verbatim>\<open>pytype_traits_t\<close>). A template
  instance is a type code, \<open>cty\<close>; a C++ value of it is a \<open>cval\<close>, a Python value a \<open>pv\<close>. A conversion
  from Python gives the status the code returns, the value left in the output argument and whether
  the error indicator is set. Pointers to exported classes are in \<open>PythonModule\<close>; \<^verbatim>\<open>wstring\<close> is for
  Windows only, and the conversion of \<^verbatim>\<open>set\<close> from Python cannot be instantiated.
\<close>

subsection \<open>Values\<close>

datatype ity = I_Long | I_Int | I_UInt | I_Short | I_UShort | I_Char | I_UChar | I_UInt64

text \<open>Keys of a map: integers or strings.\<close>

datatype kty = K_Int_Type ity | K_String_Type

datatype cty =
  C_Int ity
| C_Bool
| C_String
| C_Float
| C_Double
| C_Object
| C_Option cty
| C_Vector cty
| C_List cty
| C_Map kty cty

text \<open>Python values; a unicode object holds its default encoding, floats are their bits.\<close>

datatype pv =
  P_None
| P_Bool bool
| P_Int int
| P_Long int
| P_Float "64 word"
| P_String string
| P_Unicode "string option"
| P_List "pv list"
| P_Tuple "pv list"
| P_Dict "(pv \<times> pv) list"
| P_Set "pv list"
| P_Object nat

datatype ckey = K_Int int | K_Str string

instantiation ckey :: linorder
begin

fun less_ckey :: "ckey \<Rightarrow> ckey \<Rightarrow> bool" where
  "less_ckey (K_Int a) (K_Int b) = (a < b)"
| "less_ckey (K_Int a) (K_Str t) = True"
| "less_ckey (K_Str t) (K_Int b) = False"
| "less_ckey (K_Str t) (K_Str u) = (t < u)"

definition less_eq_ckey :: "ckey \<Rightarrow> ckey \<Rightarrow> bool" where
  "less_eq_ckey k l \<longleftrightarrow> k = l \<or> k < l"

instance
proof
  fix x y z :: ckey
  show "x < y \<longleftrightarrow> x \<le> y \<and> \<not> y \<le> x"
    by (cases x; cases y) (auto simp: less_eq_ckey_def)
  show "x \<le> x" by (simp add: less_eq_ckey_def)
  show "x \<le> y \<Longrightarrow> y \<le> z \<Longrightarrow> x \<le> z"
    by (cases x; cases y; cases z) (auto simp: less_eq_ckey_def)
  show "x \<le> y \<Longrightarrow> y \<le> x \<Longrightarrow> x = y"
    by (cases x; cases y) (auto simp: less_eq_ckey_def)
  show "x \<le> y \<or> y \<le> x"
    by (cases x; cases y) (auto simp: less_eq_ckey_def)
qed

end

datatype cval =
  V_Int int
| V_Bool bool
| V_Str string
| V_Float "32 word"
| V_Double "64 word"
| V_Obj pv
| V_Opt "cval option"
| V_Seq "cval list"
| V_Map "(ckey \<times> cval) list"

text \<open>What the C library does with floats, and the order in which a dict is walked.\<close>

record conv_ext =
  widen :: "32 word \<Rightarrow> 64 word"
  narrow :: "64 word \<Rightarrow> 32 word"
  dict_order :: "(pv \<times> pv) list \<Rightarrow> (pv \<times> pv) list"

fun cdefault :: "cty \<Rightarrow> cval" where
  "cdefault (C_Int t) = V_Int 0"
| "cdefault C_Bool = V_Bool False"
| "cdefault C_String = V_Str []"
| "cdefault C_Float = V_Float 0"
| "cdefault C_Double = V_Double 0"
| "cdefault C_Object = V_Obj P_None"
| "cdefault (C_Option t) = V_Opt None"
| "cdefault (C_Vector t) = V_Seq []"
| "cdefault (C_List t) = V_Seq []"
| "cdefault (C_Map k t) = V_Map []"

subsection \<open>To Python\<close>

text \<open>The cast of an integer to a type, as two's complement.\<close>

fun int_cast :: "ity \<Rightarrow> int \<Rightarrow> int" where
  "int_cast I_Long n = sint (word_of_int n :: 64 word)"
| "int_cast I_Int n = sint (word_of_int n :: 32 word)"
| "int_cast I_UInt n = uint (word_of_int n :: 32 word)"
| "int_cast I_Short n = sint (word_of_int n :: 16 word)"
| "int_cast I_UShort n = uint (word_of_int n :: 16 word)"
| "int_cast I_Char n = sint (word_of_int n :: 8 word)"
| "int_cast I_UChar n = uint (word_of_int n :: 8 word)"
| "int_cast I_UInt64 n = uint (word_of_int n :: 64 word)"

fun int_to_py :: "ity \<Rightarrow> int \<Rightarrow> pv" where
  "int_to_py I_Long n = P_Long n"
| "int_to_py t n = P_Int (int_cast I_Long n)"

fun key_to_py :: "kty \<Rightarrow> ckey \<Rightarrow> pv" where
  "key_to_py (K_Int_Type t) (K_Int n) = int_to_py t n"
| "key_to_py K_String_Type (K_Str t) = P_String t"
| "key_to_py _ _ = P_None"

fun dict_set :: "pv \<Rightarrow> pv \<Rightarrow> (pv \<times> pv) list \<Rightarrow> (pv \<times> pv) list" where
  "dict_set k v [] = [(k, v)]"
| "dict_set k v ((k', v') # d) = (if k = k' then (k', v) # d else (k', v') # dict_set k v d)"

text \<open>\<^verbatim>\<open>pyobj_from_cppobj\<close>, one definition for each instance; the cases that mix a type with another's
  value do not occur.\<close>

definition bool_to_py :: "cval \<Rightarrow> pv" where
  "bool_to_py v = (case v of V_Bool b \<Rightarrow> P_Bool b | _ \<Rightarrow> P_None)"

definition string_to_py :: "cval \<Rightarrow> pv" where
  "string_to_py v = (case v of V_Str t \<Rightarrow> P_String t | _ \<Rightarrow> P_None)"

definition float_to_py :: "conv_ext \<Rightarrow> cval \<Rightarrow> pv" where
  "float_to_py X v = (case v of V_Float d \<Rightarrow> P_Float (widen X d) | _ \<Rightarrow> P_None)"

definition double_to_py :: "cval \<Rightarrow> pv" where
  "double_to_py v = (case v of V_Double d \<Rightarrow> P_Float d | _ \<Rightarrow> P_None)"

definition object_to_py :: "cval \<Rightarrow> pv" where
  "object_to_py v = (case v of V_Obj p \<Rightarrow> p | _ \<Rightarrow> P_None)"

definition vector_to_py :: "(cval \<Rightarrow> pv) \<Rightarrow> cval \<Rightarrow> pv" where
  "vector_to_py f v = (case v of V_Seq vs \<Rightarrow> P_List (map f vs) | _ \<Rightarrow> P_None)"

definition list_to_py :: "(cval \<Rightarrow> pv) \<Rightarrow> cval \<Rightarrow> pv" where
  "list_to_py f v = (case v of V_Seq vs \<Rightarrow> P_List (map f vs) | _ \<Rightarrow> P_None)"

definition map_to_py :: "kty \<Rightarrow> (cval \<Rightarrow> pv) \<Rightarrow> cval \<Rightarrow> pv" where
  "map_to_py k f v = (case v of V_Map m \<Rightarrow> P_Dict (fold (\<lambda>(a, b). dict_set (key_to_py k a) (f b)) m []) | _ \<Rightarrow> P_None)"

text \<open>The instances that convert to Python only: C strings, up to their zero, and \<^verbatim>\<open>set\<close>, walked in its
  order. \<^verbatim>\<open>PySet_Add\<close> of a value that has no hash fails; its status is not looked at and the error
  stays pending, the second component.\<close>

definition cstr_to_py :: "string \<Rightarrow> pv" where
  "cstr_to_py val = P_String (takeWhile (\<lambda>c. c \<noteq> CHR 0x00) val)"

fun hashable :: "pv \<Rightarrow> bool" where
  "hashable (P_List ps) = False"
| "hashable (P_Dict d) = False"
| "hashable (P_Set ps) = False"
| "hashable (P_Tuple ps) = list_all hashable ps"
| "hashable p = True"

definition set_to_py :: "(cval \<Rightarrow> pv) \<Rightarrow> cval list \<Rightarrow> pv \<times> bool" where
  "set_to_py f vs = (case fold (\<lambda>v (ps, e). if hashable (f v) then (if f v \<in> set ps then ps else ps @ [f v], e) else (ps, True)) vs ([], False)
     of (ps, e) \<Rightarrow> (P_Set ps, e))"

lemmas instances_to_py [simp] =
  bool_to_py_def string_to_py_def float_to_py_def double_to_py_def object_to_py_def vector_to_py_def list_to_py_def map_to_py_def

primrec to_py :: "conv_ext \<Rightarrow> cty \<Rightarrow> cval \<Rightarrow> pv" where
  "to_py X (C_Int t) v = (case v of V_Int n \<Rightarrow> int_to_py t n | _ \<Rightarrow> P_None)"
| "to_py X C_Bool v = bool_to_py v"
| "to_py X C_String v = string_to_py v"
| "to_py X C_Float v = float_to_py X v"
| "to_py X C_Double v = double_to_py v"
| "to_py X C_Object v = object_to_py v"
| "to_py X (C_Option t) v = P_None"
| "to_py X (C_Vector t) v = vector_to_py (to_py X t) v"
| "to_py X (C_List t) v = list_to_py (to_py X t) v"
| "to_py X (C_Map k t) v = map_to_py k (to_py X t) v"

subsection \<open>From Python\<close>

text \<open>\<^verbatim>\<open>PyLong_AsLong\<close>: -1 with an error beyond 64 bits.\<close>

definition py_as_long :: "int \<Rightarrow> int \<times> bool" where
  "py_as_long n = (if - (2 ^ 63) \<le> n \<and> n < 2 ^ 63 then (n, False) else (-1, True))"

type_synonym 'a conv = "int \<times> 'a \<times> bool"

text \<open>A bool is an int object.\<close>

definition int_from_py :: "ity \<Rightarrow> pv \<Rightarrow> int \<Rightarrow> int conv" where
  "int_from_py t p m_ret =
     (case p of
        P_Long n \<Rightarrow> (case py_as_long n of (k, e) \<Rightarrow> (0, int_cast t k, e))
      | P_Int n \<Rightarrow> (0, int_cast t n, False)
      | P_Bool b \<Rightarrow> (0, int_cast t (of_bool b), False)
      | _ \<Rightarrow> (-1, m_ret, False))"

definition string_from_py :: "pv \<Rightarrow> string \<Rightarrow> string conv" where
  "string_from_py p m_ret =
     (case p of
        P_String t \<Rightarrow> (0, t, False)
      | P_Unicode (Some t) \<Rightarrow> (0, t, False)
      | P_Unicode None \<Rightarrow> (0, [], True)
      | _ \<Rightarrow> (-1, m_ret, False))"

fun key_from_py :: "kty \<Rightarrow> pv \<Rightarrow> ckey conv" where
  "key_from_py (K_Int_Type t) p = (case int_from_py t p 0 of (st, n, e) \<Rightarrow> (st, K_Int n, e))"
| "key_from_py K_String_Type p = (case string_from_py p [] of (st, t, e) \<Rightarrow> (st, K_Str t, e))"

text \<open>The loops of the sequences and of the map: they stop at the first item that does not convert.\<close>

fun items_from_py :: "(pv \<Rightarrow> cval conv) \<Rightarrow> pv list \<Rightarrow> cval list \<Rightarrow> cval list conv" where
  "items_from_py f [] m_ret = (0, m_ret, False)"
| "items_from_py f (p # ps) m_ret =
     (case f p of (st, v, e) \<Rightarrow>
        if st \<noteq> 0 then (-1, m_ret, e)
        else case items_from_py f ps (m_ret @ [v]) of (st', vs, e') \<Rightarrow> (st', vs, e \<or> e'))"

fun entries_from_py ::
  "(pv \<Rightarrow> ckey conv) \<Rightarrow> (pv \<Rightarrow> cval conv) \<Rightarrow> (pv \<times> pv) list \<Rightarrow> (ckey \<times> cval) list \<Rightarrow> (ckey \<times> cval) list conv" where
  "entries_from_py f g [] m_ret = (0, m_ret, False)"
| "entries_from_py f g ((p, q) # d) m_ret =
     (case f p of (st, k, e) \<Rightarrow>
        if st \<noteq> 0 then (-1, m_ret, e)
        else case g q of (st1, v, e1) \<Rightarrow>
          if st1 \<noteq> 0 then (-1, m_ret, e \<or> e1)
          else case entries_from_py f g d (map_put k v m_ret) of (st', m, e') \<Rightarrow> (st', m, e \<or> e1 \<or> e'))"

definition seq_of :: "cval \<Rightarrow> cval list" where
  "seq_of v = (case v of V_Seq vs \<Rightarrow> vs | _ \<Rightarrow> [])"

definition as_seq :: "cval list conv \<Rightarrow> cval conv" where
  "as_seq r = (case r of (st, vs, e) \<Rightarrow> (st, V_Seq vs, e))"

text \<open>Sequences and maps, over the conversion of an item: a \<^verbatim>\<open>vector\<close> is cleared, a \<^verbatim>\<open>list\<close> is not.\<close>

definition vector_from_py :: "(pv \<Rightarrow> cval conv) \<Rightarrow> pv \<Rightarrow> cval conv" where
  "vector_from_py f p = (case p of
      P_Tuple ps \<Rightarrow> as_seq (items_from_py f ps [])
    | P_List ps \<Rightarrow> as_seq (items_from_py f ps [])
    | _ \<Rightarrow> (-1, V_Seq [], False))"

definition list_from_py :: "(pv \<Rightarrow> cval conv) \<Rightarrow> pv \<Rightarrow> cval \<Rightarrow> cval conv" where
  "list_from_py f p m_ret = (case p of
      P_Tuple ps \<Rightarrow> as_seq (items_from_py f ps (seq_of m_ret))
    | P_List ps \<Rightarrow> as_seq (items_from_py f ps (seq_of m_ret))
    | _ \<Rightarrow> (-1, m_ret, False))"

definition map_from_py :: "conv_ext \<Rightarrow> kty \<Rightarrow> (pv \<Rightarrow> cval conv) \<Rightarrow> pv \<Rightarrow> cval conv" where
  "map_from_py X k f p = (case p of
      P_Dict d \<Rightarrow> (case entries_from_py (key_from_py k) f (dict_order X d) [] of (st, m, e) \<Rightarrow> (st, V_Map m, e))
    | _ \<Rightarrow> (-1, V_Map [], False))"

text \<open>\<^verbatim>\<open>pyobj_to_cppobj\<close> with what the output argument held before.\<close>

definition bool_from_py :: "pv \<Rightarrow> cval conv" where
  "bool_from_py p = (0, V_Bool (p \<noteq> P_Bool False \<and> p \<noteq> P_None), False)"

definition float_from_py :: "conv_ext \<Rightarrow> pv \<Rightarrow> cval \<Rightarrow> cval conv" where
  "float_from_py X p m_ret = (case p of P_Float d \<Rightarrow> (0, V_Float (narrow X d), False) | _ \<Rightarrow> (-1, m_ret, False))"

definition double_from_py :: "pv \<Rightarrow> cval \<Rightarrow> cval conv" where
  "double_from_py p m_ret = (case p of P_Float d \<Rightarrow> (0, V_Double d, False) | _ \<Rightarrow> (-1, m_ret, False))"

definition object_from_py :: "pv \<Rightarrow> cval conv" where
  "object_from_py p = (0, V_Obj p, False)"

definition option_from_py :: "(pv \<Rightarrow> cval \<Rightarrow> cval conv) \<Rightarrow> cval \<Rightarrow> pv \<Rightarrow> cval \<Rightarrow> cval conv" where
  "option_from_py f unset p m_ret =
     (if p = P_None then (0, m_ret, False)
      else case f p (case m_ret of V_Opt (Some u) \<Rightarrow> u | _ \<Rightarrow> unset) of (st, v, e) \<Rightarrow>
        if st = 0 then (0, V_Opt (Some v), e) else (-1, m_ret, e))"

lemmas instances_from_py [simp] =
  vector_from_py_def list_from_py_def map_from_py_def bool_from_py_def float_from_py_def double_from_py_def object_from_py_def
  option_from_py_def

primrec from_py :: "conv_ext \<Rightarrow> cty \<Rightarrow> pv \<Rightarrow> cval \<Rightarrow> cval conv" where
  "from_py X (C_Int t) p m_ret = (case m_ret of
      V_Int n \<Rightarrow> (case int_from_py t p n of (st, k, e) \<Rightarrow> (st, V_Int k, e)) | _ \<Rightarrow> (-1, m_ret, False))"
| "from_py X C_Bool p m_ret = bool_from_py p"
| "from_py X C_String p m_ret = (case m_ret of
      V_Str u \<Rightarrow> (case string_from_py p u of (st, t, e) \<Rightarrow> (st, V_Str t, e)) | _ \<Rightarrow> (-1, m_ret, False))"
| "from_py X C_Float p m_ret = float_from_py X p m_ret"
| "from_py X C_Double p m_ret = double_from_py p m_ret"
| "from_py X C_Object p m_ret = object_from_py p"
| "from_py X (C_Option t) p m_ret = option_from_py (from_py X t) (cdefault t) p m_ret"
| "from_py X (C_Vector t) p m_ret = vector_from_py (\<lambda>p. from_py X t p (cdefault t)) p"
| "from_py X (C_List t) p m_ret = list_from_py (\<lambda>p. from_py X t p (cdefault t)) p m_ret"
| "from_py X (C_Map k t) p m_ret = map_from_py X k (\<lambda>q. from_py X t q (cdefault t)) p"

text \<open>\<^verbatim>\<open>pyoption_t::value\<close> with a default.\<close>

definition option_value :: "cval \<Rightarrow> cval \<Rightarrow> cval" where
  "option_value unset v = (case v of V_Opt (Some u) \<Rightarrow> u | _ \<Rightarrow> unset)"

fun type_name :: "cty \<Rightarrow> string" where
  "type_name (C_Int I_Long) = ''long''"
| "type_name (C_Int I_Int) = ''int''"
| "type_name (C_Int I_UInt) = ''unsigned int''"
| "type_name (C_Int I_Short) = ''short''"
| "type_name (C_Int I_UShort) = ''unsigned short''"
| "type_name (C_Int I_Char) = ''char''"
| "type_name (C_Int I_UChar) = ''unsigned char''"
| "type_name (C_Int I_UInt64) = ''uint64_t''"
| "type_name C_Bool = ''bool''"
| "type_name C_String = ''string''"
| "type_name C_Float = ''float''"
| "type_name C_Double = ''double''"
| "type_name C_Object = ''PyObject''"
| "type_name (C_Option t) = ''pyoption_t''"
| "type_name (C_Vector t) = ''vector''"
| "type_name (C_List t) = ''list''"
| "type_name (C_Map k t) = ''map''"

subsection \<open>Typing\<close>

text \<open>The values a C++ variable of a type can hold, for the types that convert both ways.\<close>

fun key_has_type :: "kty \<Rightarrow> ckey \<Rightarrow> bool" where
  "key_has_type (K_Int_Type t) (K_Int n) = (int_cast t n = n)"
| "key_has_type K_String_Type (K_Str t) = True"
| "key_has_type _ _ = False"

primrec has_type :: "cty \<Rightarrow> cval \<Rightarrow> bool" where
  "has_type (C_Int t) v = (case v of V_Int n \<Rightarrow> int_cast t n = n | _ \<Rightarrow> False)"
| "has_type C_Bool v = (case v of V_Bool b \<Rightarrow> True | _ \<Rightarrow> False)"
| "has_type C_String v = (case v of V_Str t \<Rightarrow> True | _ \<Rightarrow> False)"
| "has_type C_Float v = (case v of V_Float d \<Rightarrow> True | _ \<Rightarrow> False)"
| "has_type C_Double v = (case v of V_Double d \<Rightarrow> True | _ \<Rightarrow> False)"
| "has_type C_Object v = (case v of V_Obj p \<Rightarrow> True | _ \<Rightarrow> False)"
| "has_type (C_Option t) v = False"
| "has_type (C_Vector t) v = (case v of V_Seq vs \<Rightarrow> list_all (has_type t) vs | _ \<Rightarrow> False)"
| "has_type (C_List t) v = (case v of V_Seq vs \<Rightarrow> list_all (has_type t) vs | _ \<Rightarrow> False)"
| "has_type (C_Map k t) v = (case v of
      V_Map m \<Rightarrow> map_ok m \<and> list_all (\<lambda>e. key_has_type k (fst e)) m \<and> list_all (\<lambda>e. has_type t (snd e)) m | _ \<Rightarrow> False)"

text \<open>Floats widen exactly and a dict is walked once over all its entries.\<close>

definition conv_ok :: "conv_ext \<Rightarrow> bool" where
  "conv_ok X \<longleftrightarrow> (\<forall>d. narrow X (widen X d) = d) \<and> (\<forall>d. mset (dict_order X d) = mset d)"

subsection \<open>Round trips\<close>

lemma int_cast_long: "int_cast t (int_cast I_Long n) = int_cast t n"
proof -
  have "word_of_int (sint (word_of_int n :: 64 word)) = (word_of_int n :: 64 word)"
    by simp
  moreover have "word_of_int (sint (word_of_int n :: 64 word)) = (word_of_int n :: 32 word)"
    by transfer (simp add: take_bit_signed_take_bit)
  moreover have "word_of_int (sint (word_of_int n :: 64 word)) = (word_of_int n :: 16 word)"
    by transfer (simp add: take_bit_signed_take_bit)
  moreover have "word_of_int (sint (word_of_int n :: 64 word)) = (word_of_int n :: 8 word)"
    by transfer (simp add: take_bit_signed_take_bit)
  ultimately show ?thesis by (cases t) simp_all
qed

lemma long_range: "int_cast I_Long n = n \<Longrightarrow> py_as_long n = (n, False)"
  using sint_range_size [of "word_of_int n :: 64 word"] by (simp add: py_as_long_def word_size)

lemma int_roundtrip:
  assumes "int_cast t n = n"
  shows "int_from_py t (int_to_py t n) m = (0, n, False)"
proof (cases "t = I_Long")
  case True
  with assms long_range [of n] show ?thesis by (simp add: int_from_py_def)
next
  case False
  then have "int_to_py t n = P_Int (int_cast I_Long n)" by (cases t) simp_all
  with assms int_cast_long [of t n] show ?thesis by (simp only: int_from_py_def pv.case)
qed

lemma key_roundtrip: "key_has_type k a \<Longrightarrow> key_from_py k (key_to_py k a) = (0, a, False)"
proof (induction k a rule: key_has_type.induct)
  case (1 t n)
  then have "int_from_py t (int_to_py t n) 0 = (0, n, False)" by (intro int_roundtrip) simp
  then show ?case by simp
qed (simp_all add: string_from_py_def)

lemma key_to_py_inject:
  "key_has_type k a \<Longrightarrow> key_has_type k b \<Longrightarrow> key_to_py k a = key_to_py k b \<Longrightarrow> a = b"
  by (metis key_roundtrip prod.inject)

lemma items_roundtrip:
  "(\<And>v. v \<in> set vs \<Longrightarrow> f (g v) = (0, v, False)) \<Longrightarrow> items_from_py f (map g vs) acc = (0, acc @ vs, False)"
  by (induction vs arbitrary: acc) simp_all

lemma dict_set_new: "k \<notin> fst ` set d \<Longrightarrow> dict_set k v d = d @ [(k, v)]"
  by (induction d) auto

lemma dict_of_entries:
  assumes "distinct (map (f \<circ> fst) m)" "\<And>e. e \<in> set m \<Longrightarrow> f (fst e) \<notin> fst ` set d"
  shows "fold (\<lambda>(a, b). dict_set (f a) (g b)) m d = d @ map (\<lambda>(a, b). (f a, g b)) m"
  using assms
proof (induction m arbitrary: d)
  case (Cons e m)
  obtain a b where e: "e = (a, b)" by (cases e)
  from Cons.prems(2) [of e] have "dict_set (f a) (g b) d = d @ [(f a, g b)]" by (simp add: e dict_set_new)
  moreover have "f (fst x) \<notin> fst ` set (d @ [(f a, g b)])" if "x \<in> set m" for x
  proof -
    have "f (fst x) \<notin> fst ` set d" by (rule Cons.prems(2)) (simp add: that)
    moreover have "f (fst x) \<in> set (map (f \<circ> fst) m)" using that by auto
    moreover have "f a \<notin> set (map (f \<circ> fst) m)" using Cons.prems(1) by (simp add: e)
    ultimately have "f (fst x) \<notin> fst ` set d" "f (fst x) \<noteq> f a" by metis+
    then show ?thesis by simp
  qed
  ultimately show ?case using Cons.IH [of "d @ [(f a, g b)]"] Cons.prems(1) by (simp add: e)
qed simp

lemma entries_roundtrip:
  assumes "\<And>p q. (p, q) \<in> set d \<Longrightarrow> \<exists>a b. f p = (0, a, False) \<and> g q = (0, b, False)"
  shows "entries_from_py f g d acc = (0, fold (\<lambda>(a, b). map_put a b) (map (\<lambda>(p, q). (fst (snd (f p)), fst (snd (g q)))) d) acc, False)"
  using assms
proof (induction d arbitrary: acc)
  case (Cons e d)
  obtain p q where e: "e = (p, q)" by (cases e)
  then obtain a b where "f p = (0, a, False)" "g q = (0, b, False)" using Cons.prems [of p q] by auto
  moreover have "\<exists>a b. f p = (0, a, False) \<and> g q = (0, b, False)" if "(p, q) \<in> set d" for p q
    by (rule Cons.prems) (simp add: that)
  ultimately show ?case using Cons.IH by (simp add: e)
qed simp

lemma map_of_fold_put: "map_of (fold (\<lambda>(a, b). map_put a b) d m) = map_of m ++ map_of (rev d)"
  by (induction d arbitrary: m) (auto simp: map_add_def fun_eq_iff split: option.split)

lemma map_ok_fold_put: "map_ok m \<Longrightarrow> map_ok (fold (\<lambda>(a, b). map_put a b) d m)"
  by (induction d arbitrary: m) auto

lemma map_ok_unique:
  assumes "map_ok m" "map_ok m'" "map_of m = map_of m'"
  shows "m = m'"
proof -
  from assms(1,2) have d: "distinct (map fst m)" "distinct (map fst m')" by (simp_all add: map_ok_distinct)
  with assms(3) have s: "set m = set m'" by (simp add: map_of_inject_set)
  from assms(1,2) have "sorted (map fst m)" "sorted (map fst m')"
    by (simp_all add: map_ok_def strict_sorted_imp_sorted)
  moreover have "inj_on fst (set m \<union> set m')" using d s by (simp add: distinct_map)
  ultimately show ?thesis using d s by (blast intro: map_sorted_distinct_set_unique)
qed

text \<open>A map is rebuilt from its entries in any order.\<close>

lemma map_rebuilt:
  assumes "map_ok m" "mset d = mset m"
  shows "fold (\<lambda>(a, b). map_put a b) d [] = m"
proof (rule map_ok_unique)
  from assms(1) have "distinct (map fst m)" by (rule map_ok_distinct)
  moreover have "mset (map fst (rev d)) = mset (map fst m)" using assms(2) by simp
  ultimately have "distinct (map fst (rev d))" by (metis mset_eq_imp_distinct_iff)
  moreover have "set (rev d) = set m" using assms(2) by (metis set_mset_mset set_rev)
  ultimately have "map_of (rev d) = map_of m"
    using \<open>distinct (map fst m)\<close> by (simp add: map_of_inject_set)
  then show "map_of (fold (\<lambda>(a, b). map_put a b) d []) = map_of m" by (simp add: map_of_fold_put)
qed (use assms(1) in \<open>simp_all add: map_ok_fold_put\<close>)

lemma conversion_roundtrips:
  assumes "conv_ok X" "has_type T v"
  shows "from_py X T (to_py X T v) (cdefault T) = (0, v, False)"
  using assms(2)
proof (induction T arbitrary: v)
  case (C_Int t)
  then show ?case by (cases v) (auto simp: int_roundtrip)
next
  case (C_Vector T)
  then obtain vs where v: "v = V_Seq vs" "list_all (has_type T) vs" by (cases v) auto
  then show ?case
    using items_roundtrip [of vs "\<lambda>p. from_py X T p (cdefault T)" "to_py X T" "[]"] C_Vector.IH
    by (simp add: as_seq_def list_all_iff)
next
  case (C_List T)
  then obtain vs where v: "v = V_Seq vs" "list_all (has_type T) vs" by (cases v) auto
  then show ?case
    using items_roundtrip [of vs "\<lambda>p. from_py X T p (cdefault T)" "to_py X T" "[]"] C_List.IH
    by (simp add: as_seq_def list_all_iff seq_of_def)
next
  case (C_Map k T)
  then obtain m where v: "v = V_Map m" "map_ok m" and key: "\<And>e. e \<in> set m \<Longrightarrow> key_has_type k (fst e)"
    and val: "\<And>e. e \<in> set m \<Longrightarrow> has_type T (snd e)"
    by (cases v) (auto simp: list_all_iff)
  let ?f = "key_from_py k" and ?g = "\<lambda>q. from_py X T q (cdefault T)"
  let ?e = "\<lambda>(a, b). (key_to_py k a, to_py X T b)" and ?dec = "\<lambda>(p, q). (fst (snd (?f p)), fst (snd (?g q)))"
  have "inj_on (key_to_py k) (fst ` set m)"
    using key by (auto intro!: inj_onI key_to_py_inject [of k])
  then have "distinct (map (key_to_py k \<circ> fst) m)"
    using map_ok_distinct [OF v(2)] by (simp add: distinct_map comp_inj_on flip: map_map)
  from dict_of_entries [OF this, of "[]" "to_py X T"]
  have to: "to_py X (C_Map k T) v = P_Dict (map ?e m)" by (simp add: v(1))
  let ?d = "dict_order X (map ?e m)"
  have d: "mset ?d = mset (map ?e m)" using assms(1) by (simp add: conv_ok_def)
  have dec: "?dec (?e x) = x" if "x \<in> set m" for x
    using key [OF that] val [OF that] C_Map.IH [of "snd x"] by (cases x) (simp add: key_roundtrip)
  have each: "\<exists>a b. ?f p = (0, a, False) \<and> ?g q = (0, b, False)" if pq: "(p, q) \<in> set ?d" for p q
  proof -
    from pq d have "(p, q) \<in> set (map ?e m)" by (metis set_mset_mset)
    then obtain x where "x \<in> set m" "p = key_to_py k (fst x)" "q = to_py X T (snd x)" by auto
    then show ?thesis using key val C_Map.IH by (auto simp: key_roundtrip)
  qed
  have "mset (map ?dec ?d) = image_mset ?dec (mset ?d)" by simp
  also have "\<dots> = mset (map (?dec \<circ> ?e) m)" by (simp only: d mset_map [symmetric] map_map)
  also have "map (?dec \<circ> ?e) m = m" using dec by (intro map_idI) simp
  finally have "fold (\<lambda>(a, b). map_put a b) (map ?dec ?d) [] = m" by (rule map_rebuilt [OF v(2)])
  then show ?case
    unfolding to using entries_roundtrip [of ?d ?f ?g "[]", OF each] by (simp add: v(1))
qed (use assms(1) in \<open>auto simp: string_from_py_def conv_ok_def split: cval.splits\<close>)

text \<open>C31: A value of any convertible type, however nested, comes back from Python unchanged: integers
  of every width and sign, strings, floats, vectors, lists and maps, whatever order the dict is
  walked in.\<close>

theorem conversion_roundtrip:
  assumes "conv_ok X" "has_type T v"
  shows "from_py X T (to_py X T v) (cdefault T) = (0, v, False)"
  by (rule conversion_roundtrips [OF assms])

definition demo_conv :: conv_ext where
  "demo_conv = \<lparr>widen = ucast, narrow = ucast, dict_order = rev\<rparr>"

lemma demo_conv_ok: "conv_ok demo_conv"
proof -
  have "(ucast (ucast d :: 64 word) :: 32 word) = d" for d
    by transfer (simp add: take_bit_take_bit)
  then show ?thesis by (simp add: conv_ok_def demo_conv_def)
qed

lemma conversion_roundtrip_witness:
  "from_py demo_conv (C_Map K_String_Type (C_Vector (C_Int I_UChar)))
     (to_py demo_conv (C_Map K_String_Type (C_Vector (C_Int I_UChar)))
       (V_Map [(K_Str ''a'', V_Seq [V_Int 255]), (K_Str ''b'', V_Seq [])])) (V_Map []) =
   (0, V_Map [(K_Str ''a'', V_Seq [V_Int 255]), (K_Str ''b'', V_Seq [])], False)"
proof -
  have "has_type (C_Map K_String_Type (C_Vector (C_Int I_UChar))) (V_Map [(K_Str ''a'', V_Seq [V_Int 255]), (K_Str ''b'', V_Seq [])])"
    by code_simp
  from conversion_roundtrip [OF demo_conv_ok this] show ?thesis by simp
qed

subsection \<open>What is lost\<close>

text \<open>An integer that does not fit is cut without an error, and one beyond 64 bits becomes -1 with the
  error indicator set and the status of success.\<close>

lemma int_narrowed:
  "int_from_py t (P_Int n) m = (0, int_cast t n, False)"
  "- (2 ^ 63) \<le> n \<Longrightarrow> n < 2 ^ 63 \<Longrightarrow> int_from_py t (P_Long n) m = (0, int_cast t n, False)"
  "2 ^ 63 \<le> n \<Longrightarrow> int_from_py t (P_Long n) m = (0, int_cast t (- 1), True)"
  by (simp_all add: int_from_py_def py_as_long_def)

text \<open>A \<^verbatim>\<open>list\<close> that already has items keeps them; a \<^verbatim>\<open>vector\<close> is replaced.\<close>

lemma list_not_cleared:
  "from_py X (C_List C_Bool) (P_List [P_Bool True]) (V_Seq vs) = (0, V_Seq (vs @ [V_Bool True]), False)"
  "from_py X (C_Vector C_Bool) (P_List [P_Bool True]) (V_Seq vs) = (0, V_Seq [V_Bool True], False)"
  by (simp_all add: as_seq_def seq_of_def)

text \<open>A \<^verbatim>\<open>set\<close> of numbers or strings arrives complete; of a \<^verbatim>\<open>set\<close> of vectors nothing arrives, and the error
  is left pending.\<close>

lemma set_fold:
  "list_all (hashable \<circ> f) vs \<Longrightarrow> distinct (ps @ map f vs) \<Longrightarrow>
    fold (\<lambda>v (ps, e). if hashable (f v) then (if f v \<in> set ps then ps else ps @ [f v], e) else (ps, True)) vs (ps, e) = (ps @ map f vs, e)"
  by (induction vs arbitrary: ps) auto

lemma set_of_scalars:
  "list_all (hashable \<circ> f) vs \<Longrightarrow> distinct (map f vs) \<Longrightarrow> set_to_py f vs = (P_Set (map f vs), False)"
  using set_fold [of f vs "[]" False] by (simp add: set_to_py_def)

lemma set_of_vectors:
  assumes "v \<in> set vs"
  shows "set_to_py (\<lambda>v. P_List (f v)) vs = (P_Set [], True)"
proof -
  have "fold (\<lambda>v (ps, e). if hashable (P_List (f v)) then (if P_List (f v) \<in> set ps then ps else ps @ [P_List (f v)], e) else (ps, True)) vs (ps, e)
      = (ps, e \<or> vs \<noteq> [])" for ps e
    by (induction vs arbitrary: e) auto
  then show ?thesis using assms by (auto simp: set_to_py_def)
qed

end
