(* ===== verification/PythonExport.thy ===== *)
theory PythonExport
  imports PythonConv
begin

text \<open>
  The other direction of include/ffpython.h: C++ functions, methods and constructors that Python
  calls (\<^verbatim>\<open>pyext_tool_t\<close>, \<^verbatim>\<open>pyext_func_traits_t\<close>, \<^verbatim>\<open>pyclass_method_gen_t\<close>, \<^verbatim>\<open>pyclass_ctor_tool_t\<close>). The
  templates for 0 to 9 parameters differ only in their number: a signature is a list of type codes.
  Their registration and the module they end up in are in \<open>PythonModule\<close>.
\<close>

subsection \<open>Arguments\<close>

text \<open>\<^verbatim>\<open>PyArg_ParseTuple\<close> with format lO, and the code behind an address.\<close>

record export_ext = conv_ext +
  parse_lO :: "pv \<Rightarrow> (int \<times> pv) option"
  code_at :: "int \<Rightarrow> (cval list \<Rightarrow> cval) option"

record pyext_tool =
  m_args :: "pv list"
  m_index :: nat
  m_size :: nat
  m_err :: bool
  m_text :: "string option"
  m_pending :: bool
  m_func_addr :: int

definition tool_failed :: "string option \<Rightarrow> int \<Rightarrow> pyext_tool" where
  "tool_failed t addr =
     \<lparr>m_args = [], m_index = 0, m_size = 0, m_err = True, m_text = t, m_pending = True, m_func_addr = addr\<rparr>"

definition pyext_tool_new :: "('x) export_ext_scheme \<Rightarrow> pv \<Rightarrow> pyext_tool" where
  "pyext_tool_new X args =
     (case parse_lO X args of
        None \<Rightarrow> tool_failed None 0
      | Some (addr, P_Tuple ps) \<Rightarrow>
          \<lparr>m_args = ps, m_index = 0, m_size = length ps, m_err = False, m_text = None, m_pending = False, m_func_addr = addr\<rparr>
      | Some (addr, _) \<Rightarrow> tool_failed (Some ''arg type invalid(shoule func_name, args tuple)'') addr)"

definition parse_arg :: "('x) export_ext_scheme \<Rightarrow> cty \<Rightarrow> pyext_tool \<Rightarrow> cval \<times> pyext_tool" where
  "parse_arg X t tool =
     (if m_err tool then (cdefault t, tool)
      else if m_size tool \<le> m_index tool
      then (cdefault t, tool\<lparr>m_text := Some (''param num invalid, only['' @ show_nat (m_index tool + 1) @ ''] provided''),
             m_pending := True, m_err := True\<rparr>)
      else case from_py (conv_ext.truncate X) t (m_args tool ! m_index tool) (cdefault t) of (st, v, e) \<Rightarrow>
        if st \<noteq> 0
        then (cdefault t, tool\<lparr>m_text := Some (''param['' @ show_nat (m_index tool + 1) @ ''] type invalid, '' @ type_name t @ '' needed''),
               m_pending := True, m_err := True\<rparr>)
        else (v, tool\<lparr>m_index := m_index tool + 1, m_pending := m_pending tool \<or> e\<rparr>))"

fun parse_args :: "('x) export_ext_scheme \<Rightarrow> cty list \<Rightarrow> pyext_tool \<Rightarrow> cval list \<times> pyext_tool" where
  "parse_args X [] tool = ([], tool)"
| "parse_args X (t # ts) tool =
     (case parse_arg X t tool of (v, tool) \<Rightarrow> case parse_args X ts tool of (vs, tool) \<Rightarrow> (v # vs, tool))"

fun is_option :: "cty \<Rightarrow> bool" where
  "is_option (C_Option t) = True"
| "is_option _ = False"

definition option_args_num :: "cty list \<Rightarrow> nat" where
  "option_args_num ts = length (filter is_option ts)"

definition args_num :: "cty list \<Rightarrow> nat" where
  "args_num ts = length ts - option_args_num ts"

subsection \<open>Calls\<close>

text \<open>What Python gets: null with an error (its text when the code sets it), or a value and whether an
  error is pending beside it. The first list is the arguments the C++ function was called with.\<close>

datatype ext_result = Ext_Null "string option" | Ext_Value "cval list" pv bool | Ext_Undefined

text \<open>\<^verbatim>\<open>pyext_return_tool_t\<close> and its instance for \<^verbatim>\<open>void\<close>.\<close>

definition route_call ::
  "('x) export_ext_scheme \<Rightarrow> cty \<Rightarrow> (cval list \<Rightarrow> cval) \<Rightarrow> cval list \<Rightarrow> bool \<Rightarrow> ext_result" where
  "route_call X t f vs e = Ext_Value vs (to_py (conv_ext.truncate X) t (f vs)) e"

definition route_call_void :: "cval list \<Rightarrow> bool \<Rightarrow> ext_result" where
  "route_call_void vs e = Ext_Value vs P_None e"

text \<open>The return type is \<open>None\<close> for \<^verbatim>\<open>void\<close>.\<close>

definition pyfunc :: "('x) export_ext_scheme \<Rightarrow> cty option \<Rightarrow> cty list \<Rightarrow> pv \<Rightarrow> ext_result" where
  "pyfunc X ret ts args =
     (let tool = pyext_tool_new X args
      in if m_err tool then Ext_Null (m_text tool)
         else if m_func_addr tool = 0 then Ext_Null (Some ''func address must provided'')
         else case parse_args X ts tool of (vs, tool) \<Rightarrow>
           if m_err tool then Ext_Null (m_text tool)
           else case code_at X (m_func_addr tool) of
               None \<Rightarrow> Ext_Undefined
             | Some f \<Rightarrow> (case ret of None \<Rightarrow> route_call_void vs (m_pending tool)
                 | Some t \<Rightarrow> route_call X t f vs (m_pending tool)))"

text \<open>The C++ object behind a Python object.\<close>

record obj_data =
  od_obj :: "cval option"
  forbid_release :: bool

definition alloc_obj :: obj_data where
  "alloc_obj = \<lparr>od_obj = None, forbid_release = False\<rparr>"

definition obj_release :: "obj_data \<Rightarrow> obj_data" where
  "obj_release d = d\<lparr>od_obj := None\<rparr>"

text \<open>\<^verbatim>\<open>free_obj\<close>: whether it deletes the C++ object.\<close>

definition free_obj :: "obj_data \<Rightarrow> bool" where
  "free_obj d \<longleftrightarrow> \<not> forbid_release d \<and> od_obj d \<noteq> None"

text \<open>\<^verbatim>\<open>route_method_call\<close>: the object is tested for null, but not in the instance for \<^verbatim>\<open>void\<close>. A method
  is a function of the object and the arguments.\<close>

definition route_method_call ::
  "('x) export_ext_scheme \<Rightarrow> cty \<Rightarrow> (cval list \<Rightarrow> cval) \<Rightarrow> cval option \<Rightarrow> cval list \<Rightarrow> bool \<Rightarrow> ext_result" where
  "route_method_call X t f obj vs e =
     (case obj of None \<Rightarrow> Ext_Null (Some ''obj data ptr NULL'')
      | Some self \<Rightarrow> Ext_Value (self # vs) (to_py (conv_ext.truncate X) t (f (self # vs))) e)"

definition route_method_call_void :: "cval option \<Rightarrow> cval list \<Rightarrow> bool \<Rightarrow> ext_result" where
  "route_method_call_void obj vs e = (case obj of None \<Rightarrow> Ext_Undefined | Some self \<Rightarrow> Ext_Value (self # vs) P_None e)"

definition pymethod :: "('x) export_ext_scheme \<Rightarrow> cty option \<Rightarrow> cty list \<Rightarrow> obj_data \<Rightarrow> pv \<Rightarrow> ext_result" where
  "pymethod X ret ts d args =
     (let tool = pyext_tool_new X args
      in if m_err tool then Ext_Null (m_text tool)
         else if m_func_addr tool = 0 then Ext_Null (Some ''func address must provided'')
         else case parse_args X ts tool of (vs, tool) \<Rightarrow>
           if m_err tool then Ext_Null (m_text tool)
           else case code_at X (m_func_addr tool) of
               None \<Rightarrow> Ext_Undefined
             | Some f \<Rightarrow> (case ret of None \<Rightarrow> route_method_call_void (od_obj d) vs (m_pending tool)
                 | Some t \<Rightarrow> route_method_call X t f (od_obj d) vs (m_pending tool)))"

text \<open>The same for methods declared \<^verbatim>\<open>const\<close>, a second set of templates.\<close>

definition pymethod_const :: "('x) export_ext_scheme \<Rightarrow> cty option \<Rightarrow> cty list \<Rightarrow> obj_data \<Rightarrow> pv \<Rightarrow> ext_result" where
  "pymethod_const X ret ts d args =
     (let tool = pyext_tool_new X args
      in if m_err tool then Ext_Null (m_text tool)
         else if m_func_addr tool = 0 then Ext_Null (Some ''func address must provided'')
         else case parse_args X ts tool of (vs, tool) \<Rightarrow>
           if m_err tool then Ext_Null (m_text tool)
           else case code_at X (m_func_addr tool) of
               None \<Rightarrow> Ext_Undefined
             | Some f \<Rightarrow> (case ret of None \<Rightarrow> route_method_call_void (od_obj d) vs (m_pending tool)
                 | Some t \<Rightarrow> route_method_call X t f (od_obj d) vs (m_pending tool)))"

lemma pymethod_const_eq: "pymethod_const = pymethod"
  by (intro ext) (simp only: pymethod_const_def pymethod_def)

text \<open>\<^verbatim>\<open>delete\<close>, and the functions of all kinds that a table can name.\<close>

definition py_release :: "obj_data \<Rightarrow> ext_result \<times> obj_data" where
  "py_release d = (Ext_Value [] (P_Bool True) False, obj_release d)"

datatype py_cfunction = Fn_Func "cty option" "cty list" | Fn_Method bool "cty option" "cty list" | Fn_Release

definition call_cfunction :: "('x) export_ext_scheme \<Rightarrow> py_cfunction \<Rightarrow> obj_data \<Rightarrow> pv \<Rightarrow> ext_result \<times> obj_data" where
  "call_cfunction X fn d args =
     (case fn of
        Fn_Func ret ts \<Rightarrow> (pyfunc X ret ts args, d)
      | Fn_Method is_const ret ts \<Rightarrow> ((if is_const then pymethod_const else pymethod) X ret ts d args, d)
      | Fn_Release \<Rightarrow> py_release d)"

text \<open>\<^verbatim>\<open>init_obj\<close>: the status and the object; with no parameters the arguments are not looked at.\<close>

definition init_obj :: "('x) export_ext_scheme \<Rightarrow> (cval list \<Rightarrow> cval) \<Rightarrow> cty list \<Rightarrow> obj_data \<Rightarrow> pv \<Rightarrow> int \<times> obj_data" where
  "init_obj X ctor ts d args =
     (if od_obj d \<noteq> None then (0, d)
      else if ts = [] then (0, d\<lparr>od_obj := Some (ctor [])\<rparr>)
      else let tool = pyext_tool_new X args
           in if m_err tool then (-1, d)
              else case parse_args X ts tool of (vs, tool) \<Rightarrow>
                if m_err tool then (-1, d) else (0, d\<lparr>od_obj := Some (ctor vs)\<rparr>))"

text \<open>Member variables: the getter tests the object, the setter does not.\<close>

definition getter_func :: "('x) export_ext_scheme \<Rightarrow> cty \<Rightarrow> (cval \<Rightarrow> cval) \<Rightarrow> obj_data \<Rightarrow> ext_result" where
  "getter_func X t member d =
     (case od_obj d of None \<Rightarrow> Ext_Null (Some ''obj data ptr NULL'')
      | Some p \<Rightarrow> Ext_Value [] (to_py (conv_ext.truncate X) t (member p)) False)"

definition setter_func ::
  "('x) export_ext_scheme \<Rightarrow> cty \<Rightarrow> (cval \<Rightarrow> cval) \<Rightarrow> (cval \<Rightarrow> cval \<Rightarrow> cval) \<Rightarrow> pv \<Rightarrow> obj_data \<Rightarrow> (int \<times> obj_data) option" where
  "setter_func X t member update value d =
     (case od_obj d of None \<Rightarrow> None
      | Some p \<Rightarrow> (case from_py (conv_ext.truncate X) t value (member p) of (st, v, e) \<Rightarrow>
          Some (st, d\<lparr>od_obj := Some (update v p)\<rparr>)))"

subsection \<open>Calls from Python\<close>

text \<open>A Python argument for a parameter, and the C++ value it stands for: an optional parameter may be
  \<^verbatim>\<open>None\<close>.\<close>

fun arg_for :: "conv_ext \<Rightarrow> cty \<Rightarrow> cval \<Rightarrow> pv \<Rightarrow> bool" where
  "arg_for X (C_Option t) (V_Opt None) p = (p = P_None)"
| "arg_for X (C_Option t) (V_Opt (Some v)) p = (has_type t v \<and> p = to_py X t v \<and> p \<noteq> P_None)"
| "arg_for X t v p = (has_type t v \<and> p = to_py X t v)"

lemma arg_converts:
  assumes "conv_ok X" "arg_for X t v p"
  shows "from_py X t p (cdefault t) = (0, v, False)"
  using assms
proof (induction X t v p rule: arg_for.induct)
  case (2 X t v p)
  from 2(2) have p: "has_type t v \<and> p = to_py X t v \<and> p \<noteq> P_None" unfolding arg_for.simps .
  then have "from_py X t p (cdefault t) = (0, v, False)" using conversion_roundtrips [OF 2(1)] by blast
  moreover from p have "p \<noteq> P_None" by blast
  ultimately show ?case by simp
qed (simp, (simp only: arg_for.simps conversion_roundtrips)+)

lemma parse_args_all:
  assumes "conv_ok (conv_ext.truncate X)" "\<not> m_err tool" "m_size tool = length (m_args tool)"
    and "list_all2 (\<lambda>(t, v) p. arg_for (conv_ext.truncate X) t v p) (zip ts vs) (take (length ts) (drop (m_index tool) (m_args tool)))"
    and "length vs = length ts"
  shows "parse_args X ts tool = (vs, tool\<lparr>m_index := m_index tool + length ts\<rparr>)"
  using assms(2-)
proof (induction ts arbitrary: vs tool)
  case (Cons t ts)
  then obtain v vs' where vs: "vs = v # vs'" "length vs' = length ts" by (cases vs) auto
  obtain p ps where d: "drop (m_index tool) (m_args tool) = p # ps"
    using Cons.prems(3) vs by (cases "drop (m_index tool) (m_args tool)") auto
  have i: "m_index tool < length (m_args tool)"
    using d by (metis drop_eq_Nil2 list.distinct(1) not_le_imp_less)
  with d have i': "m_args tool ! m_index tool = p" "drop (Suc (m_index tool)) (m_args tool) = ps"
    by (simp_all add: Cons_nth_drop_Suc [symmetric])
  have "from_py (conv_ext.truncate X) t p (cdefault t) = (0, v, False)"
    using arg_converts [OF assms(1), of t v p] Cons.prems(3) vs d by simp
  with i i' Cons.prems(1,2) have "parse_arg X t tool = (v, tool\<lparr>m_index := m_index tool + 1\<rparr>)"
    by (simp add: parse_arg_def)
  with Cons.IH [of "tool\<lparr>m_index := m_index tool + 1\<rparr>" vs'] Cons.prems vs d i' show ?case by simp
qed simp

text \<open>A Python call of an exported function with one argument for every parameter (\<^verbatim>\<open>None\<close> where an
  optional one is left out; further arguments are ignored) calls the function with exactly the
  values the arguments stand for, and Python gets its result converted, with no error pending.\<close>

lemma exported_call:
  assumes "conv_ok (conv_ext.truncate X)" "parse_lO X args = Some (addr, P_Tuple (ps @ extra))" "addr \<noteq> 0"
    and "code_at X addr = Some f" "length vs = length ts"
    and "list_all2 (\<lambda>(t, v) p. arg_for (conv_ext.truncate X) t v p) (zip ts vs) ps"
  shows "pyfunc X ret ts args = Ext_Value vs (case ret of None \<Rightarrow> P_None | Some t \<Rightarrow> to_py (conv_ext.truncate X) t (f vs)) False"
proof -
  have "length ps = length ts" using assms(5,6) by (auto dest: list_all2_lengthD)
  with parse_args_all [OF assms(1), of "pyext_tool_new X args" ts vs] assms
  show ?thesis by (simp add: pyfunc_def pyext_tool_new_def route_call_def route_call_void_def Let_def split: option.split)
qed

text \<open>A method of an object that \<^verbatim>\<open>delete\<close> has released: an error, but undefined when it returns void.\<close>

lemma method_of_deleted:
  assumes "conv_ok (conv_ext.truncate X)" "parse_lO X args = Some (addr, P_Tuple (ps @ extra))" "addr \<noteq> 0"
    and "code_at X addr = Some f" "length vs = length ts"
    and "list_all2 (\<lambda>(t, v) p. arg_for (conv_ext.truncate X) t v p) (zip ts vs) ps"
  shows "pymethod X ret ts (obj_release d) args =
    (if ret = None then Ext_Undefined else Ext_Null (Some ''obj data ptr NULL''))"
proof -
  have "length ps = length ts" using assms(5,6) by (auto dest: list_all2_lengthD)
  with parse_args_all [OF assms(1), of "pyext_tool_new X args" ts vs] assms
  show ?thesis by (simp add: pymethod_def pyext_tool_new_def route_method_call_def route_method_call_void_def obj_release_def Let_def split: option.split)
qed

text \<open>Too few arguments: the number the error gives is one more than were provided.\<close>

lemma too_few_arguments:
  assumes "parse_lO X args = Some (addr, P_Tuple [])" "addr \<noteq> 0" "ts \<noteq> []"
  shows "pyfunc X ret ts args = Ext_Null (Some ''param num invalid, only[1] provided'')"
proof -
  have stuck: "parse_args X us tool = (map cdefault us, tool)" if "m_err tool" for us tool
    using that by (induction us) (simp_all add: parse_arg_def)
  obtain t ts' where "ts = t # ts'" using assms(3) by (cases ts) auto
  moreover have "show_nat 1 = ''1''" by code_simp
  ultimately show ?thesis
    using assms(1,2) by (simp add: pyfunc_def pyext_tool_new_def parse_arg_def stuck Let_def)
qed

end
