(* ===== verification/PythonModule.thy ===== *)
theory PythonModule
  imports PythonExport
begin

text \<open>
  The module ffpython.h gives to Python: registering functions, classes, methods and member variables
  (\<^verbatim>\<open>reg\<close>, \<^verbatim>\<open>reg_class\<close>, \<^verbatim>\<open>reg_property\<close>), \<^verbatim>\<open>init\<close> with the tables and type objects it fills in for CPython
  and the Python text it runs, the registry of exported classes and the pointers to their objects.
  The addresses CPython keeps to these tables are not modelled: a type object is the index of its
  class. What CPython does with a table is its documented behaviour: the entries up to the one
  without a name become attributes.
\<close>

subsection \<open>Exported classes\<close>

text \<open>\<^verbatim>\<open>cpp_to_pyclass_reg_info_t\<close>: a type object is its number; \<^verbatim>\<open>all_child\<close> is a set.\<close>

record inherit_info =
  pytype_def :: "nat option"
  inherit_of :: string
  all_child :: "nat list"

definition inherit_new :: inherit_info where
  "inherit_new = \<lparr>pytype_def = None, inherit_of = [], all_child = []\<rparr>"

definition reg_add :: "string \<Rightarrow> string \<Rightarrow> nat \<Rightarrow> (string, inherit_info) std_map \<Rightarrow> (string, inherit_info) std_map" where
  "reg_add child base def m =
     (let m = map_put child \<lparr>pytype_def = Some def, inherit_of = base, all_child = []\<rparr> m
      in case map_index base inherit_new m of (info, m) \<Rightarrow> map_put base (info\<lparr>all_child := List.insert def (all_child info)\<rparr>) m)"

text \<open>\<^verbatim>\<open>is_instance\<close>; exported types have no Python base, so \<^verbatim>\<open>PyObject_TypeCheck\<close> compares types.\<close>

definition is_instance :: "nat \<Rightarrow> string \<Rightarrow> (string, inherit_info) std_map \<Rightarrow> bool \<times> (string, inherit_info) std_map" where
  "is_instance ty cls m = (case map_index cls inherit_new m of (info, m) \<Rightarrow>
     (pytype_def info = Some ty \<or> ty \<in> set (all_child info), m))"

text \<open>A registered function (\<^verbatim>\<open>reg_info_t\<close>) or method (\<^verbatim>\<open>method_info_t\<close>).\<close>

record method_info =
  cfunc :: py_cfunction
  func_name :: string
  func_real_name :: string
  method_doc :: string
  doc_real :: string
  method_args :: nat
  method_options :: nat
  func_addr :: int

record property_info =
  property_name :: string
  property_doc :: string
  property_type :: cty
  property_ptr :: nat

text \<open>Entries of CPython's tables, which end with one that has no name, and a type object. Functions are
  given by the template instance they are: a getter by the type of the member, \<^verbatim>\<open>free_obj\<close>, \<^verbatim>\<open>alloc_obj\<close>
  and \<^verbatim>\<open>init_obj\<close> by the class and the signature of its constructor.\<close>

record method_def =
  ml_name :: "string option"
  ml_meth :: "py_cfunction option"
  ml_doc :: string

record getset_def =
  gs_name :: "string option"
  gs_type :: cty
  gs_doc :: string
  gs_closure :: nat

record type_object =
  tp_name :: string
  tp_basicsize :: nat
  tp_class :: nat
  tp_basetype :: bool
  tp_doc :: string
  tp_methods :: "method_def list"
  tp_getset :: "getset_def list"
  tp_init :: "cty list"

record class_info =
  class_name :: string
  class_real_name :: string
  inherit_name :: string
  class_doc :: string
  ctor_args :: nat
  ctor_options :: nat
  cpp_type :: nat
  ctor_types :: "cty list"
  type_size :: nat
  methods_info :: "method_info list"
  propertys_info :: "property_info list"
  class_name_with_mod :: string
  class_reel_name_with_mod :: string
  pymethod_def :: "method_def list"
  pyproperty_def :: "getset_def list"
  pytype_object :: "type_object option"

text \<open>\<^verbatim>\<open>static_pytype_info_t\<close>, one for each C++ type (types are numbered), and the state of a module:
  its functions and classes, the static data of all types, the registry, the attributes of the
  Python module and the texts that were run.\<close>

record static_info =
  si_class_name :: string
  si_mod_name :: string
  si_total_args :: nat
  si_pytype :: "nat option"

datatype py_attr = A_Function method_def | A_Type nat

record py_module =
  m_mod_name :: string
  m_mod_doc :: string
  m_pymethod_defs :: "method_def list"
  func_info :: "method_info list"
  all_pyclass :: "class_info list"
  pytype_infos :: "nat \<Rightarrow> static_info"
  inherit_infos :: "(string, inherit_info) std_map"
  mod_attrs :: "string \<rightharpoonup> py_attr"
  ran :: "string list"


text \<open>\<^verbatim>\<open>reg\<close> of a function and of a method, \<^verbatim>\<open>reg_property\<close>, \<^verbatim>\<open>reg_class\<close> (it throws when the C++ type
  already has a name).\<close>

definition func_info_of :: "cty option \<Rightarrow> cty list \<Rightarrow> int \<Rightarrow> string \<Rightarrow> string \<Rightarrow> method_info" where
  "func_info_of ret ts addr name doc =
     \<lparr>cfunc = Fn_Func ret ts, func_name = name, func_real_name = name @ ''_internal_'', method_doc = doc,
      doc_real = ''internal use, please call '' @ name, method_args = args_num ts, method_options = option_args_num ts,
      func_addr = addr\<rparr>"

definition reg :: "cty option \<Rightarrow> cty list \<Rightarrow> int \<Rightarrow> string \<Rightarrow> string \<Rightarrow> py_module \<Rightarrow> py_module" where
  "reg ret ts addr name doc s = s\<lparr>func_info := func_info s @ [func_info_of ret ts addr name doc]\<rparr>"

definition reg_method :: "bool \<Rightarrow> cty option \<Rightarrow> cty list \<Rightarrow> int \<Rightarrow> string \<Rightarrow> string \<Rightarrow> class_info \<Rightarrow> class_info" where
  "reg_method is_const ret ts addr name doc c = c\<lparr>methods_info := methods_info c @
     [\<lparr>cfunc = Fn_Method is_const ret ts, func_name = name, func_real_name = name @ ''_internal_'', method_doc = doc,
       doc_real = ''internal use'', method_args = args_num ts, method_options = option_args_num ts, func_addr = addr\<rparr>]\<rparr>"

definition reg_property :: "cty \<Rightarrow> nat \<Rightarrow> string \<Rightarrow> string \<Rightarrow> class_info \<Rightarrow> class_info" where
  "reg_property t ptr name doc c = c\<lparr>propertys_info := propertys_info c @
     [\<lparr>property_name = name, property_doc = doc, property_type = t, property_ptr = ptr\<rparr>]\<rparr>"

definition reg_class :: "nat \<Rightarrow> nat \<Rightarrow> cty list \<Rightarrow> string \<Rightarrow> string \<Rightarrow> string \<Rightarrow> (py_module, unit) action" where
  "reg_class T sz ts name doc base s =
     (if si_class_name (pytype_infos s T) \<noteq> [] then (Throws, s)
      else (Ret (), s\<lparr>
        pytype_infos := (pytype_infos s)(T := (pytype_infos s T)\<lparr>si_class_name := name, si_total_args := args_num ts + option_args_num ts\<rparr>),
        all_pyclass := all_pyclass s @ [\<lparr>class_name = name, class_real_name = name @ ''_internal_'', inherit_name = base,
          class_doc = doc, ctor_args = args_num ts, ctor_options = option_args_num ts, cpp_type = T, ctor_types = ts, type_size = sz,
          methods_info = [], propertys_info = [], class_name_with_mod = [], class_reel_name_with_mod = [], pymethod_def = [],
          pyproperty_def = [], pytype_object = None\<rparr>]\<rparr>))"

definition is_method_exist :: "method_info list \<Rightarrow> string \<Rightarrow> bool" where
  "is_method_exist src new \<longleftrightarrow> list_ex (\<lambda>m. new = func_name m) src"

definition is_property_exist :: "property_info list \<Rightarrow> string \<Rightarrow> bool" where
  "is_property_exist src new \<longleftrightarrow> list_ex (\<lambda>p. new = property_name p) src"

definition get_pyclass_info_by_name :: "class_info list \<Rightarrow> string \<Rightarrow> class_info option" where
  "get_pyclass_info_by_name cs name = find (\<lambda>c. class_name c = name) cs"

text \<open>What a class takes over from its base: the methods and properties it does not have.\<close>

fun inherit_methods :: "method_info list \<Rightarrow> method_info list \<Rightarrow> method_info list" where
  "inherit_methods [] own = own"
| "inherit_methods (m # ms) own = inherit_methods ms (if is_method_exist own (func_name m) then own else own @ [m])"

fun inherit_propertys :: "property_info list \<Rightarrow> property_info list \<Rightarrow> property_info list" where
  "inherit_propertys [] own = own"
| "inherit_propertys (p # ps) own = inherit_propertys ps (if is_property_exist own (property_name p) then own else own @ [p])"

text \<open>\<open>None\<close>: the base is not registered (an assertion, or a null pointer without assertions).\<close>

definition inherit_from :: "class_info list \<Rightarrow> class_info \<Rightarrow> class_info option" where
  "inherit_from cs c =
     (if inherit_name c = [] then Some c
      else case get_pyclass_info_by_name cs (inherit_name c) of
          None \<Rightarrow> None
        | Some b \<Rightarrow> Some (c\<lparr>methods_info := inherit_methods (methods_info b) (methods_info c),
            propertys_info := inherit_propertys (propertys_info b) (propertys_info c)\<rparr>))"

subsection \<open>Generated Python\<close>

definition nl :: string where
  "nl = [CHR 0x0A]"

definition tab :: string where
  "tab = [CHR 0x09]"

definition squote :: "string \<Rightarrow> string" where
  "squote t = [CHR 0x27] @ t @ [CHR 0x27]"

definition cstr :: "string \<Rightarrow> string" where
  "cstr t = takeWhile (\<lambda>c. c \<noteq> CHR 0x00) t"

text \<open>\<^verbatim>\<open>SAFE_SPRINTF\<close> into 1024 characters.\<close>

definition buff :: "string \<Rightarrow> string" where
  "buff t = take 1023 t"

definition docstring :: "string \<Rightarrow> string" where
  "docstring d = (let q = replicate 3 (CHR 0x27) in q @ cstr d @ q)"

text \<open>The loops that build the parameter list and the list of names.\<close>

fun add_args :: "nat \<Rightarrow> nat \<Rightarrow> string \<Rightarrow> string" where
  "add_args j 0 t = t"
| "add_args j (Suc n) t = add_args (Suc j) n (if t = [] then ''a'' @ show_nat (j + 1) else t @ '', a'' @ show_nat (j + 1))"

fun add_options :: "nat \<Rightarrow> nat \<Rightarrow> nat \<Rightarrow> string \<Rightarrow> string \<Rightarrow> string \<times> string" where
  "add_options k j 0 t names = (t, names)"
| "add_options k j (Suc n) t names =
     (let tmp = (if t = [] then '''' else '', '') @ ''a'' @ show_nat (k + j + 1)
      in add_options k (Suc j) n (t @ tmp @ '' = None'') (names @ tmp))"

definition arg_lists :: "method_info \<Rightarrow> string \<times> string" where
  "arg_lists f =
     (let pystr_args = add_args 0 (method_args f) []
      in case add_options (method_args f) 0 (method_options f) pystr_args pystr_args of
           (params, names) \<Rightarrow> (params, if names \<noteq> [] then names @ '','' else names))"

definition save_global :: "string \<Rightarrow> string" where
  "save_global name = ''_tmp_ff_ = None'' @ nl @ ''if '' @ squote name @ '' in globals():'' @ nl @ tab @
     ''_tmp_ff_ = globals()['' @ squote name @ '']'' @ nl"

definition restore_global :: "string \<Rightarrow> string \<Rightarrow> string" where
  "restore_global md name = md @ ''.'' @ name @ '' = '' @ name @ nl @ name @ '' = None'' @ nl @
     ''if _tmp_ff_:'' @ nl @ tab @ ''globals()['' @ squote name @ ''] = _tmp_ff_'' @ nl @ ''_tmp_ff_ = None'' @ nl"

definition func_script :: "string \<Rightarrow> method_info \<Rightarrow> string" where
  "func_script md f =
     (case arg_lists f of (params, names) \<Rightarrow>
        let name = cstr (func_name f); md = cstr md
        in buff (save_global name @ ''def '' @ name @ ''('' @ params @ ''):'' @ nl @ tab @ docstring (method_doc f) @ nl @
             tab @ ''return '' @ md @ ''.'' @ cstr (func_real_name f) @ ''('' @ show_int (func_addr f) @ '',('' @ names @ ''))'' @ nl @
             ''import '' @ md @ nl @ restore_global md name))"

text \<open>The table of functions, filled once; \<^verbatim>\<open>Py_InitModule3\<close> makes each of its entries an attribute of the
  module.\<close>

definition method_end :: method_def where
  "method_end = \<lparr>ml_name = None, ml_meth = None, ml_doc = []\<rparr>"

definition func_defs :: "method_info list \<Rightarrow> method_def list \<Rightarrow> method_def list" where
  "func_defs fs defs =
     (if defs = [] then map (\<lambda>f. \<lparr>ml_name = Some (cstr (func_real_name f)), ml_meth = Some (cfunc f), ml_doc = cstr (doc_real f)\<rparr>) fs @ [method_end]
      else defs)"

definition table_entries :: "method_def list \<Rightarrow> method_def list" where
  "table_entries defs = takeWhile (\<lambda>d. ml_name d \<noteq> None) defs"

definition init_module3 :: "method_def list \<Rightarrow> (string \<rightharpoonup> py_attr) \<Rightarrow> (string \<rightharpoonup> py_attr)" where
  "init_module3 defs attrs = attrs ++ map_of (rev (map (\<lambda>d. (the (ml_name d), A_Function d)) (table_entries defs)))"

definition init_method :: "py_module \<Rightarrow> py_module" where
  "init_method s =
     (let defs = func_defs (func_info s) (m_pymethod_defs s)
      in s\<lparr>m_pymethod_defs := defs, mod_attrs := init_module3 defs (mod_attrs s),
           ran := ran s @ map (func_script (m_mod_name s)) (func_info s)\<rparr>)"

text \<open>The names of the constructor's parameters. The loop over the optional ones has the index \<open>b\<close> of
  the loop where the index of the class should be: \<open>option_loop\<close> is the number of its turns, \<open>None\<close> when
  it reads past the last class.\<close>

fun option_loop :: "class_info list \<Rightarrow> nat \<Rightarrow> nat option" where
  "option_loop [] b = None"
| "option_loop (c # cs) b = (if b < ctor_options c then option_loop cs (Suc b) else Some b)"

definition ctor_params :: "nat \<Rightarrow> nat \<Rightarrow> string \<times> string" where
  "ctor_params n k =
     (concat (map (\<lambda>a. ''a'' @ show_nat (a + 1) @ '','') [0..<n]) @
        concat (map (\<lambda>b. ''a'' @ show_nat (n + b + 1) @ '' = None,'') [0..<k]),
      concat (map (\<lambda>a. ''a'' @ show_nat (a + 1) @ '','') [0..<n + k]))"

definition property_script :: "property_info \<Rightarrow> string" where
  "property_script p =
     (let n = cstr (property_name p)
      in buff (tab @ ''def get_'' @ n @ ''(self):'' @ nl @ tab @ tab @ ''return self.obj.'' @ n @ nl @
           tab @ ''def set_'' @ n @ ''(self, v):'' @ nl @ tab @ tab @ ''self.obj.'' @ n @ '' = v'' @ nl @
           tab @ ''@property'' @ nl @ tab @ ''def '' @ n @ ''(self):'' @ nl @ tab @ tab @ ''return self.obj.'' @ n @ nl @
           tab @ ''@'' @ n @ ''.setter'' @ nl @ tab @ ''def '' @ n @ ''(self, v):'' @ nl @ tab @ tab @ ''self.obj.'' @ n @ '' = v'' @ nl))"

definition method_script :: "method_info \<Rightarrow> string" where
  "method_script f =
     (case arg_lists f of (params, names) \<Rightarrow>
        buff (tab @ ''def '' @ cstr (func_name f) @ ''(self,'' @ params @ ''):'' @ nl @ tab @ tab @ docstring (method_doc f) @ nl @
          tab @ tab @ ''return self.obj.'' @ cstr (func_real_name f) @ ''('' @ show_int (func_addr f) @ '',('' @ names @ ''))'' @ nl))"

definition class_script :: "string \<Rightarrow> class_info \<Rightarrow> nat \<Rightarrow> string" where
  "class_script md c k =
     (case ctor_params (ctor_args c) k of (params, names) \<Rightarrow>
        let name = cstr (class_name c); md = cstr md; real = md @ ''.'' @ cstr (class_real_name c)
        in buff (save_global name @ ''import '' @ md @ nl @ ''class '' @ name @ ''(object):'' @ nl @ tab @ docstring (class_doc c) @ nl @
             tab @ ''def __init__(self, '' @ params @ '' assign_obj_ = 0):'' @ nl @ tab @ tab @ docstring ''init class'' @ nl @
             tab @ tab @ ''if True == isinstance(assign_obj_, '' @ real @ ''):'' @ nl @
             tab @ tab @ tab @ ''self.obj = assign_obj_'' @ nl @ tab @ tab @ tab @ ''return'' @ nl @
             tab @ tab @ ''self.obj = '' @ real @ ''(0,('' @ names @ ''))'' @ nl) @
           buff (tab @ ''def delete(self):'' @ nl @ tab @ tab @ docstring ''delete obj'' @ nl @ tab @ tab @ ''self.obj.delete()'' @ nl) @
           concat (map property_script (propertys_info c)) @ concat (map method_script (methods_info c)) @
           buff (restore_global md name))"

text \<open>A class's tables: its properties, its methods and \<^verbatim>\<open>delete\<close>; the names with the module's, and the
  type object over them.\<close>

definition property_defs :: "property_info list \<Rightarrow> getset_def list" where
  "property_defs ps = map (\<lambda>p. \<lparr>gs_name = Some (cstr (property_name p)), gs_type = property_type p,
       gs_doc = cstr (property_doc p), gs_closure = property_ptr p\<rparr>) ps @
     [\<lparr>gs_name = None, gs_type = C_Object, gs_doc = [], gs_closure = 0\<rparr>]"

definition method_defs :: "method_info list \<Rightarrow> method_def list" where
  "method_defs ms = map (\<lambda>m. \<lparr>ml_name = Some (cstr (func_real_name m)), ml_meth = Some (cfunc m), ml_doc = cstr (method_doc m)\<rparr>) ms @
     [\<lparr>ml_name = Some ''delete'', ml_meth = Some Fn_Release, ml_doc = ''delete obj''\<rparr>, method_end]"

definition type_object_of :: "class_info \<Rightarrow> type_object" where
  "type_object_of c = \<lparr>tp_name = cstr (class_reel_name_with_mod c), tp_basicsize = type_size c, tp_class = cpp_type c,
     tp_basetype = True, tp_doc = cstr (class_doc c), tp_methods = pymethod_def c, tp_getset = pyproperty_def c,
     tp_init = ctor_types c\<rparr>"

definition class_tables :: "string \<Rightarrow> class_info \<Rightarrow> class_info" where
  "class_tables md c =
     (let c = c\<lparr>pyproperty_def := pyproperty_def c @ property_defs (propertys_info c),
            pymethod_def := pymethod_def c @ method_defs (methods_info c),
            class_name_with_mod := md @ ''.'' @ class_name c, class_reel_name_with_mod := md @ ''.'' @ class_real_name c\<rparr>
      in c\<lparr>pytype_object := Some (type_object_of c)\<rparr>)"

text \<open>\<^verbatim>\<open>init_pyclass\<close>: class \<open>i\<close> inherits, gets its tables, is entered in the registry with type object \<open>i\<close>
  and in the module, and its text is run. \<open>ready\<close> is \<^verbatim>\<open>PyType_Ready\<close>.\<close>

datatype init_result = Init_Done | Init_Failed | Init_Undefined

fun init_pyclass_from :: "(type_object \<Rightarrow> bool) \<Rightarrow> nat \<Rightarrow> nat \<Rightarrow> py_module \<Rightarrow> init_result \<times> py_module" where
  "init_pyclass_from ready i 0 s = (Init_Done, s)"
| "init_pyclass_from ready i (Suc n) s =
     (let c = all_pyclass s ! i; T = cpp_type c; md = m_mod_name s;
          s = s\<lparr>pytype_infos := (pytype_infos s)(T := (pytype_infos s T)\<lparr>si_mod_name := md\<rparr>)\<rparr>
      in case inherit_from (all_pyclass s) c of
        None \<Rightarrow> (Init_Undefined, s)
      | Some c \<Rightarrow>
          let c = class_tables md c;
              s = s\<lparr>all_pyclass := (all_pyclass s)[i := c],
                pytype_infos := (pytype_infos s)(T := (pytype_infos s T)\<lparr>si_pytype := Some i\<rparr>),
                inherit_infos := reg_add (class_name c) (inherit_name c) i (inherit_infos s)\<rparr>
          in if \<not> ready (type_object_of c) then (Init_Failed, s)
             else let s = s\<lparr>mod_attrs := (mod_attrs s)(cstr (class_real_name c) \<mapsto> A_Type i)\<rparr>
                  in case option_loop (all_pyclass s) 0 of
                       None \<Rightarrow> (Init_Undefined, s)
                     | Some k \<Rightarrow> init_pyclass_from ready (Suc i) n (s\<lparr>ran := ran s @ [class_script md c k]\<rparr>))"

definition init_pyclass :: "(type_object \<Rightarrow> bool) \<Rightarrow> py_module \<Rightarrow> init_result \<times> py_module" where
  "init_pyclass ready s = init_pyclass_from ready 0 (length (all_pyclass s)) s"

text \<open>\<^verbatim>\<open>init\<close>: 0 also when a class could not be initialised.\<close>

definition ffpython_init :: "(type_object \<Rightarrow> bool) \<Rightarrow> string \<Rightarrow> string \<Rightarrow> py_module \<Rightarrow> (int \<times> py_module) option" where
  "ffpython_init ready mod_name doc s =
     (let s = s\<lparr>m_mod_name := mod_name, m_mod_doc := doc\<rparr>
      in case init_pyclass ready (init_method s) of
          (Init_Undefined, s) \<Rightarrow> None
        | (_, s) \<Rightarrow> Some (0, s))"


definition type_method :: "type_object \<Rightarrow> string \<Rightarrow> py_cfunction option" where
  "type_method t name = Option.bind (find (\<lambda>d. ml_name d = Some name) (table_entries (tp_methods t))) ml_meth"

definition call_method :: "('x) export_ext_scheme \<Rightarrow> type_object \<Rightarrow> string \<Rightarrow> obj_data \<Rightarrow> pv \<Rightarrow> (ext_result \<times> obj_data) option" where
  "call_method X t name d args = map_option (\<lambda>fn. call_cfunction X fn d args) (type_method t name)"

definition call_type :: "('x) export_ext_scheme \<Rightarrow> (cval list \<Rightarrow> cval) \<Rightarrow> type_object \<Rightarrow> pv \<Rightarrow> int \<times> obj_data" where
  "call_type X ctor t args = init_obj X ctor (tp_init t) alloc_obj args"

subsection \<open>Pointers to exported classes\<close>

text \<open>What \<^verbatim>\<open>PyImport_Import\<close> of the module and \<^verbatim>\<open>PyObject_GetAttrString\<close> of the class find.\<close>

datatype attr_lookup = No_Module | No_Attribute | Not_Callable | Callable_Class

text \<open>The class is called with zeros for all constructor parameters and a new object that holds the
  pointer and does not own it (its type may be missing when the module was never initialised).\<close>

datatype ptr_result = Ptr_Value pv | Ptr_Null | Ptr_Assert | Ptr_Undefined | Ptr_Call "pv list" nat obj_data

definition ptr_to_py :: "(string \<Rightarrow> string \<Rightarrow> attr_lookup) \<Rightarrow> static_info \<Rightarrow> int \<Rightarrow> cval option \<Rightarrow> ptr_result" where
  "ptr_to_py lookup si addr obj =
     (if si_class_name si = [] then Ptr_Value (int_to_py I_Long addr)
      else case lookup (si_mod_name si) (si_class_name si) of
          No_Module \<Rightarrow> Ptr_Assert
        | No_Attribute \<Rightarrow> Ptr_Null
        | Not_Callable \<Rightarrow> Ptr_Null
        | Callable_Class \<Rightarrow> (case si_pytype si of
              None \<Rightarrow> Ptr_Undefined
            | Some ty \<Rightarrow> Ptr_Call (replicate (si_total_args si) (int_to_py I_Int 0)) ty
                (alloc_obj\<lparr>od_obj := obj, forbid_release := True\<rparr>)))"

text \<open>From Python: \<open>src\<close> is the attribute \<^verbatim>\<open>obj\<close> of the value, with its type.\<close>

definition ptr_from_py ::
  "(nat \<times> obj_data) option \<Rightarrow> string \<Rightarrow> (string, inherit_info) std_map \<Rightarrow> cval option \<Rightarrow>
     (cval option) conv \<times> (string, inherit_info) std_map" where
  "ptr_from_py src cls m m_ret =
     (case src of
        None \<Rightarrow> ((-1, m_ret, True), m)
      | Some (ty, d) \<Rightarrow> (case is_instance ty cls m of (ok, m) \<Rightarrow>
          (if ok then (0, od_obj d, False) else (-1, m_ret, False), m)))"

subsection \<open>Registration\<close>

text \<open>The loop of \<^verbatim>\<open>init_pyclass\<close> gives every class the same number of optional constructor parameters,
  the first index whose own class has no more than it; with none it reads past the vector.\<close>

lemma option_loop_some:
  "option_loop cs b = Some k \<longleftrightarrow> b \<le> k \<and> k < b + length cs \<and> ctor_options (cs ! (k - b)) \<le> k \<and>
     (\<forall>j. b \<le> j \<and> j < k \<longrightarrow> j < ctor_options (cs ! (j - b)))"
proof (induction cs arbitrary: b)
  case (Cons c cs)
  have shift: "(c # cs) ! (j - b) = cs ! (j - Suc b)" if "b < j" for j
    using that by (simp add: nth_Cons' Suc_diff_Suc)
  show ?case
  proof (cases "b < ctor_options c")
    case True
    have "option_loop (c # cs) b = Some k \<longleftrightarrow> Suc b \<le> k \<and> k < Suc b + length cs \<and> ctor_options (cs ! (k - Suc b)) \<le> k \<and>
        (\<forall>j. Suc b \<le> j \<and> j < k \<longrightarrow> j < ctor_options (cs ! (j - Suc b)))" using True Cons.IH by simp
    also have "\<dots> \<longleftrightarrow> b \<le> k \<and> k < b + length (c # cs) \<and> ctor_options ((c # cs) ! (k - b)) \<le> k \<and>
        (\<forall>j. b \<le> j \<and> j < k \<longrightarrow> j < ctor_options ((c # cs) ! (j - b)))"
    proof (cases "b = k")
      case True
      with \<open>b < ctor_options c\<close> show ?thesis by simp
    next
      case False
      have "(\<forall>j. b \<le> j \<and> j < k \<longrightarrow> j < ctor_options ((c # cs) ! (j - b))) \<longleftrightarrow>
          (\<forall>j. Suc b \<le> j \<and> j < k \<longrightarrow> j < ctor_options (cs ! (j - Suc b)))"
        using True shift by (metis Suc_le_eq diff_self_eq_0 le_eq_less_or_eq nth_Cons_0)
      with False shift [of k] show ?thesis by (auto simp: Suc_le_eq le_eq_less_or_eq)
    qed
    finally show ?thesis .
  next
    case False
    have "k = b" if "b \<le> k" "\<forall>j. b \<le> j \<and> j < k \<longrightarrow> j < ctor_options ((c # cs) ! (j - b))"
      using that(1) that(2) [rule_format, of b] False by (cases "b = k") auto
    with False show ?thesis by auto
  qed
qed auto

lemma single_class_undefined:
  assumes "all_pyclass s = [c]" "0 < ctor_options c" "inherit_name c = []" "\<And>t. ready t"
  shows "ffpython_init ready md doc s = None"
  using assms by (simp add: ffpython_init_def init_method_def init_pyclass_def inherit_from_def class_tables_def Let_def)

text \<open>Without optional constructor parameters, and with every base registered, all classes are
  initialised in order.\<close>

lemma inherit_from_keeps:
  "inherit_from cs c = Some c' \<Longrightarrow> class_name c' = class_name c \<and> inherit_name c' = inherit_name c \<and>
     class_real_name c' = class_real_name c \<and> ctor_options c' = ctor_options c"
  by (auto simp: inherit_from_def split: if_splits option.splits)

lemma class_tables_keeps [simp]:
  "class_name (class_tables md c) = class_name c" "inherit_name (class_tables md c) = inherit_name c"
  "class_real_name (class_tables md c) = class_real_name c" "ctor_options (class_tables md c) = ctor_options c"
  by (simp_all add: class_tables_def Let_def)

lemma init_pyclass_from_done:
  assumes "i + n = length (all_pyclass s)" "0 < length (all_pyclass s)" "\<And>t. ready t"
    and "\<forall>c\<in>set (all_pyclass s). ctor_options c = 0 \<and> inherit_name c \<in> insert [] (class_name ` set (all_pyclass s))"
  shows "fst (init_pyclass_from ready i n s) = Init_Done \<and>
    length (ran (snd (init_pyclass_from ready i n s))) = length (ran s) + n"
  using assms(1,2,4)
proof (induction n arbitrary: i s)
  case (Suc n)
  let ?cs = "all_pyclass s"
  let ?c = "?cs ! i"
  from Suc.prems(1) have i: "i < length ?cs" by simp
  then have c: "?c \<in> set ?cs" by simp
  with Suc.prems(3) have "inherit_name ?c = [] \<or> inherit_name ?c \<in> class_name ` set ?cs" by simp
  then have "inherit_name ?c \<noteq> [] \<Longrightarrow> get_pyclass_info_by_name ?cs (inherit_name ?c) \<noteq> None"
    unfolding get_pyclass_info_by_name_def find_None_iff image_iff by metis
  then have "inherit_from ?cs ?c \<noteq> None" by (force simp: inherit_from_def split: option.split)
  then obtain c' where c': "inherit_from ?cs ?c = Some c'" by blast
  from inherit_from_keeps [OF c'] have same: "class_name c' = class_name ?c" "inherit_name c' = inherit_name ?c"
    "ctor_options c' = ctor_options ?c" by simp_all
  let ?c' = "class_tables (m_mod_name s) c'"
  let ?cs' = "?cs[i := ?c']"
  have "map class_name ?cs' = map class_name ?cs" using i same by (simp add: map_update list_update_same_conv)
  then have names: "class_name ` set ?cs' = class_name ` set ?cs" by (metis list.set_map)
  have inv: "\<forall>c\<in>set ?cs'. ctor_options c = 0 \<and> inherit_name c \<in> insert [] (class_name ` set ?cs')"
    unfolding names using Suc.prems(3) c same set_update_subset_insert [of ?cs i ?c'] by fastforce
  have "?cs' \<noteq> []" using i by auto
  then obtain d ds where d: "?cs' = d # ds" by (cases ?cs') auto
  with inv have "option_loop ?cs' 0 = Some 0" by simp
  with c' assms(3) Suc.IH [of "Suc i"] Suc.prems(1,2) inv show ?case by (simp add: Let_def)
qed simp

lemma init_pyclass_from_attrs:
  assumes "i + n = length (all_pyclass s)" "\<forall>c\<in>set (all_pyclass s). k \<noteq> cstr (class_real_name c)"
  shows "mod_attrs (snd (init_pyclass_from ready i n s)) k = mod_attrs s k"
  using assms
proof (induction n arbitrary: i s)
  case (Suc n)
  show ?case
  proof (cases "inherit_from (all_pyclass s) (all_pyclass s ! i)")
    case None
    then show ?thesis by (simp add: Let_def)
  next
    case (Some c')
    have "all_pyclass s ! i \<in> set (all_pyclass s)" using Suc.prems(1) by simp
    with Suc.prems(2) inherit_from_keeps [OF Some] have c': "k \<noteq> cstr (class_real_name c')" by simp
    let ?c' = "class_tables (m_mod_name s) c'"
    have "\<forall>c\<in>set ((all_pyclass s)[i := ?c']). k \<noteq> cstr (class_real_name c)"
      using Suc.prems(2) c' set_update_subset_insert [of "all_pyclass s" i ?c'] by auto
    with Some c' Suc.IH Suc.prems(1) show ?thesis by (simp add: Let_def split: option.split)
  qed
qed simp

lemma map_of_reg_add:
  "map_of (reg_add child base def m) =
    (let m' = (map_of m)(child \<mapsto> \<lparr>pytype_def = Some def, inherit_of = base, all_child = []\<rparr>);
         info = (case m' base of None \<Rightarrow> inherit_new | Some v \<Rightarrow> v)
     in m'(base \<mapsto> info\<lparr>all_child := List.insert def (all_child info)\<rparr>))"
  by (auto simp: reg_add_def map_index_def Let_def fun_eq_iff split: option.split)

text \<open>A pointer given to Python as an object of its class comes back as the same pointer, also where a
  base class is asked for.\<close>

lemma pointer_returns:
  assumes "si_class_name si \<noteq> []" "si_pytype si = Some ty" "lookup (si_mod_name si) (si_class_name si) = Callable_Class"
    and "m = reg_add (si_class_name si) base ty m0" "cls = si_class_name si \<or> cls = base"
  shows "\<exists>zs d. ptr_to_py lookup si addr obj = Ptr_Call zs ty d \<and> length zs = si_total_args si \<and> \<not> free_obj d \<and>
    fst (ptr_from_py (Some (ty, d)) cls m m_ret) = (0, obj, False)"
proof -
  have "fst (is_instance ty cls m)"
    using assms(5) by (auto simp: assms(4) is_instance_def map_of_reg_add map_index_def Let_def split: option.splits)
  then show ?thesis
    using assms(1-3) by (auto simp: ptr_to_py_def ptr_from_py_def free_obj_def split: prod.splits)
qed

text \<open>A derived class of a derived class is not an instance of the first.\<close>

lemma grandchild_rejected:
  "fst (is_instance 1 ''A'' (reg_add ''C'' ''B'' 2 (reg_add ''B'' ''A'' 1 (reg_add ''A'' [] 0 [])))) \<and>
   \<not> fst (is_instance 2 ''A'' (reg_add ''C'' ''B'' 2 (reg_add ''B'' ''A'' 1 (reg_add ''A'' [] 0 []))))"
  by code_simp

text \<open>A class keeps its own methods and gets the others of its base once.\<close>

lemma inherit_methods_names:
  "\<exists>ms. inherit_methods base own = own @ ms \<and> set ms \<subseteq> set base \<and>
     func_name ` set (inherit_methods base own) = func_name ` set own \<union> func_name ` set base"
proof (induction base arbitrary: own)
  case (Cons m base)
  show ?case
  proof (cases "is_method_exist own (func_name m)")
    case True
    then have "func_name m \<in> func_name ` set own" by (auto simp: is_method_exist_def list_ex_iff)
    with True Cons [of own] show ?thesis by auto
  next
    case False
    then show ?thesis using Cons [of "own @ [m]"] by auto
  qed
qed simp

subsection \<open>Calling what was registered\<close>

lemma table_entries_named: "list_all (\<lambda>d. ml_name d \<noteq> None) ds \<Longrightarrow> table_entries (ds @ method_end # es) = ds"
  by (induction ds) (simp_all add: table_entries_def method_end_def)







text \<open>A function registered after the first \<^verbatim>\<open>init\<close> does not get into the table, though its Python text
  is run.\<close>

lemma late_function_missing:
  assumes "m_pymethod_defs s \<noteq> []" "\<forall>d\<in>set (m_pymethod_defs s). ml_name d \<noteq> Some k" "mod_attrs s k = None"
    and "\<forall>c\<in>set (all_pyclass s). k \<noteq> cstr (class_real_name c)" "ffpython_init ready md doc (reg ret ts a name fdoc s) = Some (st, s')"
  shows "mod_attrs s' k = None"
proof -
  let ?s = "init_method (reg ret ts a name fdoc s\<lparr>m_mod_name := md, m_mod_doc := doc\<rparr>)"
  have cs: "all_pyclass ?s = all_pyclass s" by (simp add: init_method_def reg_def Let_def)
  have "s' = snd (init_pyclass ready ?s)"
    using assms(5) by (auto simp: ffpython_init_def Let_def split: prod.splits init_result.splits)
  then have "mod_attrs s' k = mod_attrs ?s k"
    using init_pyclass_from_attrs [of 0 "length (all_pyclass ?s)" ?s k ready] assms(4) by (simp add: init_pyclass_def cs)
  moreover have "k \<notin> fst ` set (rev (map (\<lambda>d. (the (ml_name d), A_Function d)) (table_entries (m_pymethod_defs s))))"
    using assms(2) by (auto simp: table_entries_def dest!: set_takeWhileD)
  then have "map_of (rev (map (\<lambda>d. (the (ml_name d), A_Function d)) (table_entries (m_pymethod_defs s)))) k = None"
    by (simp only: map_of_eq_None_iff not_False_eq_True)
  ultimately show ?thesis
    using assms(1,3) by (simp add: init_method_def init_module3_def func_defs_def reg_def Let_def map_add_def)
qed

subsection \<open>Methods of a class\<close>

text \<open>A method name is found where it was registered: in the class itself, else in its base.\<close>

lemma find_inherit_methods:
  "find (\<lambda>m. func_name m = k) (inherit_methods base own) =
    (case find (\<lambda>m. func_name m = k) own of None \<Rightarrow> find (\<lambda>m. func_name m = k) base | Some m \<Rightarrow> Some m)"
proof (induction base arbitrary: own)
  case Nil
  then show ?case by (simp split: option.split)
next
  case (Cons m base)
  have app: "find P (xs @ ys) = (case find P xs of None \<Rightarrow> find P ys | Some x \<Rightarrow> Some x)" for P and xs ys :: "method_info list"
    by (induction xs) auto
  have "find (\<lambda>m'. func_name m' = func_name m) own \<noteq> None" if "is_method_exist own (func_name m)"
    using that by (auto simp: is_method_exist_def list_ex_iff find_None_iff)
  moreover have "find (\<lambda>m'. func_name m' = func_name m) own = None" if "\<not> is_method_exist own (func_name m)"
    using that by (auto simp: is_method_exist_def list_ex_iff find_None_iff)
  ultimately show ?case using Cons by (auto simp: app split: option.split)
qed

lemma find_method_def:
  assumes "\<forall>m\<in>set ms. func_real_name m = func_name m @ ''_internal_'' \<and> CHR 0x00 \<notin> set (func_name m)" "CHR 0x00 \<notin> set k"
  shows "type_method (type_object_of (c\<lparr>pymethod_def := method_defs ms\<rparr>)) (k @ ''_internal_'') = map_option cfunc (find (\<lambda>m. func_name m = k) ms)"
proof -
  have cstr: "cstr t = t" if "CHR 0x00 \<notin> set t" for t
    using that unfolding cstr_def by (intro takeWhile_eq_all_conv [THEN iffD2]) auto
  let ?d = "\<lambda>m. \<lparr>ml_name = Some (cstr (func_real_name m)), ml_meth = Some (cfunc m), ml_doc = cstr (method_doc m)\<rparr>"
  have "table_entries (method_defs ms) = map ?d ms @ [\<lparr>ml_name = Some ''delete'', ml_meth = Some Fn_Release, ml_doc = ''delete obj''\<rparr>]"
    using table_entries_named [of "map ?d ms @ [\<lparr>ml_name = Some ''delete'', ml_meth = Some Fn_Release, ml_doc = ''delete obj''\<rparr>]" "[]"]
    by (simp add: method_defs_def list_all_iff)
  moreover have "Option.bind (find (\<lambda>d. ml_name d = Some (k @ ''_internal_'')) (map ?d ms @ ds)) ml_meth =
      map_option cfunc (find (\<lambda>m. func_name m = k) ms)"
    if "find (\<lambda>d. ml_name d = Some (k @ ''_internal_'')) ds = None" for ds
    using assms(1) that by (induction ms) (auto simp: cstr)
  moreover have "''delete'' \<noteq> k @ ''_internal_''"
  proof
    assume "''delete'' = k @ ''_internal_''"
    then have "last ''delete'' = last (k @ ''_internal_'')" by simp
    then show False by simp
  qed
  ultimately show ?thesis by (simp add: type_method_def type_object_of_def)
qed

lemma class_method_found:
  assumes "get_pyclass_info_by_name cs (inherit_name c) = Some b" "inherit_name c \<noteq> []" "pymethod_def c = []"
    and "inherit_from cs c = Some c'" "pytype_object (class_tables md c') = Some t"
    and "\<forall>m\<in>set (methods_info c) \<union> set (methods_info b). func_real_name m = func_name m @ ''_internal_'' \<and> CHR 0x00 \<notin> set (func_name m)"
    and "CHR 0x00 \<notin> set k"
  shows "type_method t (k @ ''_internal_'') = map_option cfunc (case find (\<lambda>m. func_name m = k) (methods_info c) of
      None \<Rightarrow> find (\<lambda>m. func_name m = k) (methods_info b) | Some m \<Rightarrow> Some m)"
proof -
  let ?ms = "inherit_methods (methods_info b) (methods_info c)"
  have c': "methods_info c' = ?ms" "pymethod_def c' = []"
    using assms(1-4) by (auto simp: inherit_from_def)
  then have "tp_methods t = method_defs ?ms"
    using assms(5) by (auto simp: class_tables_def type_object_of_def Let_def)
  then have "type_method t = type_method (type_object_of (c\<lparr>pymethod_def := method_defs ?ms\<rparr>))"
    by (intro ext) (simp add: type_method_def type_object_of_def)
  moreover have "set ?ms \<subseteq> set (methods_info c) \<union> set (methods_info b)"
    using inherit_methods_names [of "methods_info b" "methods_info c"] by auto
  ultimately show ?thesis
    using find_method_def [of ?ms k c] assms(6,7) by (auto simp: find_inherit_methods)
qed

subsection \<open>Parameter lists\<close>

definition arg_name :: "nat \<Rightarrow> string" where
  "arg_name j = ''a'' @ show_nat (j + 1)"

fun comma :: "string list \<Rightarrow> string" where
  "comma [] = []"
| "comma [t] = t"
| "comma (t # u # ts) = t @ '', '' @ comma (u # ts)"

lemma comma_snoc: "comma (ts @ [t]) = (if ts = [] then t else comma ts @ '', '' @ t)"
  by (induction ts rule: comma.induct) auto

lemma comma_names_empty: "comma (map arg_name [0..<n]) = [] \<longleftrightarrow> n = 0"
proof (cases n)
  case (Suc m)
  then show ?thesis by (simp add: comma_snoc arg_name_def)
qed simp

lemma comma_names_Suc:
  "comma (map arg_name [0..<Suc n]) = (if n = 0 then ''a'' @ show_nat (n + 1) else comma (map arg_name [0..<n]) @ '', a'' @ show_nat (n + 1))"
  by (simp add: comma_snoc arg_name_def)

lemma add_args_comma: "add_args j n (comma (map arg_name [0..<j])) = comma (map arg_name [0..<j + n])"
proof (induction n arbitrary: j)
  case (Suc n)
  from Suc.IH [of "Suc j"] show ?case
    unfolding add_args.simps comma_names_empty comma_names_Suc [symmetric] by simp
qed simp

lemma add_options_comma:
  "(t = []) = (k + j = 0) \<Longrightarrow> snd (add_options k j n t (comma (map arg_name [0..<k + j]))) = comma (map arg_name [0..<k + j + n])"
proof (induction n arbitrary: j t)
  case (Suc n)
  let ?tmp = "(if t = [] then [] else '', '') @ ''a'' @ show_nat (k + j + 1)"
  have "comma (map arg_name [0..<k + j]) @ ?tmp = comma (map arg_name [0..<k + Suc j])"
    using Suc.prems by (cases "k + j = 0") (simp_all add: comma_snoc arg_name_def)
  with Suc.IH [of "t @ ?tmp @ '' = None''" "Suc j"] show ?case by (simp add: Let_def del: upt_Suc)
qed simp

text \<open>The names a wrapper passes on are those of all parameters, with a comma at the end.\<close>

lemma arg_lists_names:
  "snd (arg_lists f) = (let n = method_args f + method_options f in if n = 0 then [] else comma (map arg_name [0..<n]) @ '','')"
proof -
  have a: "add_args 0 (method_args f) [] = comma (map arg_name [0..<method_args f])"
    using add_args_comma [of 0 "method_args f"] by simp
  from add_options_comma [of "comma (map arg_name [0..<method_args f])" "method_args f" 0 "method_options f"]
  have "snd (add_options (method_args f) 0 (method_options f) (comma (map arg_name [0..<method_args f]))
      (comma (map arg_name [0..<method_args f]))) = comma (map arg_name [0..<method_args f + method_options f])"
    by (simp add: comma_names_empty)
  then show ?thesis
    by (simp add: arg_lists_def a Let_def case_prod_unfold comma_names_empty)
qed

end
