(* ===== verification/Support.thy ===== *)
theory Support
  imports BPrelude "HOL-Library.Word"
begin

text \<open>
  The parts beside the request path: the log files (src/log.cpp, include/log.h), the stack dump of
  \<^verbatim>\<open>peer_base\<close> (src/peer_base.cpp) and the Base64 helpers of \<^verbatim>\<open>task_responser\<close>. What the file system,
  \<^verbatim>\<open>backtrace\<close>, \<^verbatim>\<open>popen\<close> and the boost iterators answer are arguments.
\<close>

subsection \<open>\<^verbatim>\<open>push_log\<close>\<close>

datatype schedule = Hourly | Daily

record appender =
  app_file :: string
  app_schedule :: schedule
  app_immediate :: bool
  app_backups :: nat
  app_pattern :: string

datatype logger = System_Log | Redis_Log | Zookeeper_Log | Net_Log | Fail_Log

record push_log =
  log_prefix_of :: string
  appenders :: "logger \<Rightarrow> appender list"

definition push_log_new :: push_log where
  "push_log_new = \<lparr>log_prefix_of = ''default'', appenders = (\<lambda>_. [])\<rparr>"

definition log_prefix :: "string \<Rightarrow> push_log \<Rightarrow> push_log" where
  "log_prefix p l = l\<lparr>log_prefix_of := p\<rparr>"

text \<open>The two sets of names, chosen when the program is compiled.\<close>

fun log_suffix :: "bool \<Rightarrow> logger \<Rightarrow> string" where
  "log_suffix kafka System_Log = (if kafka then ''.log'' else ''_service.log'')"
| "log_suffix kafka Redis_Log = (if kafka then ''redis.log'' else ''_redis.log'')"
| "log_suffix kafka Zookeeper_Log = (if kafka then ''zookeeper.log'' else ''_zookeeper.log'')"
| "log_suffix kafka Net_Log = (if kafka then ''net.log'' else ''_net_log.log'')"
| "log_suffix kafka Fail_Log = (if kafka then ''fail_task.log'' else ''_fail_task.log'')"

definition log_pattern :: "int \<Rightarrow> string \<Rightarrow> string" where
  "log_pattern pid prefix = ''[%D{%m/%d/%y %H:%M:%S:%q}] ['' @ show_int pid @ ''] [THREAD=%t] ['' @
     takeWhile (\<lambda>c. c \<noteq> CHR 0x00) prefix @ ''] [%p] [%l] [%m]%n''"

definition new_appender :: "bool \<Rightarrow> int \<Rightarrow> string \<Rightarrow> string \<Rightarrow> logger \<Rightarrow> appender" where
  "new_appender kafka pid path prefix g =
     \<lparr>app_file = path @ ''/'' @ prefix @ log_suffix kafka g,
      app_schedule = (if g = System_Log then Hourly else Daily), app_immediate = True,
      app_backups = (if g = System_Log then 100 else 10), app_pattern = log_pattern pid prefix\<rparr>"

text \<open>\<^verbatim>\<open>set_path\<close>: it throws when the directory is missing and cannot be made; the appenders are added to
  those the loggers have. Every logger's level is \<^verbatim>\<open>ALL_LOG_LEVEL\<close>.\<close>

record fs_ext =
  path_exists :: "string \<Rightarrow> bool"
  can_create :: "string \<Rightarrow> bool"
  own_pid :: int

definition set_path :: "bool \<Rightarrow> fs_ext \<Rightarrow> string \<Rightarrow> (push_log, unit) action" where
  "set_path kafka x path l =
     (if \<not> path_exists x path \<and> \<not> can_create x path then (Throws, l)
      else (Ret (), l\<lparr>appenders := (\<lambda>g. appenders l g @ [new_appender kafka (own_pid x) path (log_prefix_of l) g])\<rparr>))"

datatype log_macro =
  PUSHLOG_TRACE | PUSHLOG_DEBUG | PUSHLOG_INFO | PUSHLOG_WARN | PUSHLOG_ERROR | PUSHLOG_FATAL
| REDISLOG | ZKLOG | NETLOG | FAILLOG

datatype log_level = L_Trace | L_Debug | L_Info | L_Warn | L_Error | L_Fatal

fun log_target :: "log_macro \<Rightarrow> logger \<times> log_level" where
  "log_target PUSHLOG_TRACE = (System_Log, L_Trace)"
| "log_target PUSHLOG_DEBUG = (System_Log, L_Debug)"
| "log_target PUSHLOG_INFO = (System_Log, L_Info)"
| "log_target PUSHLOG_WARN = (System_Log, L_Warn)"
| "log_target PUSHLOG_ERROR = (System_Log, L_Error)"
| "log_target PUSHLOG_FATAL = (System_Log, L_Fatal)"
| "log_target REDISLOG = (Redis_Log, L_Info)"
| "log_target ZKLOG = (Zookeeper_Log, L_Info)"
| "log_target NETLOG = (Net_Log, L_Debug)"
| "log_target FAILLOG = (Fail_Log, L_Debug)"

text \<open>The lines an event adds: one to the file of every appender of its logger.\<close>

definition log_event :: "push_log \<Rightarrow> log_macro \<Rightarrow> string \<Rightarrow> (string \<times> log_level \<times> string) list" where
  "log_event l m event = (case log_target m of (g, lv) \<Rightarrow> map (\<lambda>a. (app_file a, lv, event)) (appenders l g))"

definition RFORMATE :: "string \<Rightarrow> string" where
  "RFORMATE t = ''<'' @ t @ ''>''"

subsection \<open>\<^verbatim>\<open>peer_base::dump_stack\<close>\<close>

text \<open>\<^verbatim>\<open>cmd\<close> has 512 characters. The loop keeps a pointer into it (here the offset \<open>p\<close>) and the room
  left, a \<^verbatim>\<open>size_t\<close>. \<^verbatim>\<open>snprintf\<close> writes at most \<open>s - 1\<close> characters and returns the length it would have
  needed; moving the pointer past the end of the array is undefined (\<open>None\<close>).\<close>

definition cmd_prefix :: string where
  "cmd_prefix = ''addr2line -ifC -e /home/push_logic_server/push_logic_server''"

definition cmd_size :: nat where
  "cmd_size = 512"

fun dump_frames :: "(string \<times> string) list \<Rightarrow> string \<Rightarrow> nat \<Rightarrow> 64 word \<Rightarrow> string \<Rightarrow> (string \<times> string) option" where
  "dump_frames [] cmd p s log = Some (cmd, log)"
| "dump_frames ((info, addr) # fs) cmd p s log =
     (let log = log @ info @ [CHR 0x0A]
      in if 0 < s
         then let text = '' '' @ addr; p' = p + length text
              in if cmd_size < p' then None
                 else dump_frames fs (cmd @ take (unat s - 1) text) p' (s - of_nat (length text)) log
         else dump_frames fs cmd p s log)"

record stack_ext =
  frames :: "(string \<times> string) list option"
  popen_lines :: "string \<Rightarrow> string list option"

text \<open>\<^verbatim>\<open>exit(1)\<close> when there are no symbols; \<open>frames\<close> holds at most 100 of them, each with the text \<^verbatim>\<open>%p\<close>
  prints for its address.\<close>

datatype dumped = Exit_1 | Overrun | Dumped string

definition dump_stack :: "stack_ext \<Rightarrow> string \<Rightarrow> dumped" where
  "dump_stack x log =
     (case frames x of None \<Rightarrow> Exit_1
      | Some fs \<Rightarrow>
          let log = log @ ''Frame info:'' @ [CHR 0x0A]; len = length cmd_prefix
          in case dump_frames (take 100 fs) cmd_prefix len (of_nat cmd_size - of_nat len) log of
               None \<Rightarrow> Overrun
             | Some (cmd, log) \<Rightarrow>
                 let log = log @ ''src info:'' @ [CHR 0x0A]
                 in case popen_lines x cmd of None \<Rightarrow> Dumped log | Some ls \<Rightarrow> Dumped (log @ concat ls))"

subsection \<open>Base64\<close>

text \<open>\<^verbatim>\<open>Base64Encode\<close> and \<^verbatim>\<open>Base64Decode\<close>: \<open>enc\<close> and \<open>dec\<close> are the copies through the boost iterators
  (\<open>dec\<close> may throw); the output is left alone when decoding throws.\<close>

definition Base64Encode :: "(string \<Rightarrow> string) \<Rightarrow> string \<Rightarrow> bool \<times> string" where
  "Base64Encode enc input =
     (let equal_count = (3 - length input mod 3) mod 3;
          output = enc input @ replicate equal_count (CHR ''='')
      in (output \<noteq> [], output))"

definition Base64Decode :: "(string \<Rightarrow> string option) \<Rightarrow> string \<Rightarrow> string \<Rightarrow> bool \<times> string" where
  "Base64Decode dec input output = (case dec input of None \<Rightarrow> (False, output) | Some result \<Rightarrow> (result \<noteq> [], result))"

subsection \<open>Log files\<close>

lemma log_suffix_inject: "log_suffix kafka g = log_suffix kafka g' \<longleftrightarrow> g = g'"
  by (cases g; cases g') auto

text \<open>After one \<^verbatim>\<open>set_path\<close> every event is one line, of the file of its logger; no two loggers share
  a file.\<close>

lemma log_event_once:
  assumes "set_path kafka x path (log_prefix p push_log_new) = (Ret (), l)"
  shows "log_event l m e = [(path @ ''/'' @ p @ log_suffix kafka (fst (log_target m)), snd (log_target m), e)]"
    and "log_event l m e \<noteq> [] \<Longrightarrow> log_event l m' e' \<noteq> [] \<Longrightarrow>
      fst (hd (log_event l m e)) = fst (hd (log_event l m' e')) \<longleftrightarrow> fst (log_target m) = fst (log_target m')"
proof -
  from assms show e: "log_event l m e = [(path @ ''/'' @ p @ log_suffix kafka (fst (log_target m)), snd (log_target m), e)]" for m e
    by (auto simp: set_path_def log_prefix_def push_log_new_def log_event_def new_appender_def case_prod_unfold split: if_splits)
  show "fst (hd (log_event l m e)) = fst (hd (log_event l m' e')) \<longleftrightarrow> fst (log_target m) = fst (log_target m')"
    by (simp add: e log_suffix_inject)
qed

text \<open>A second \<^verbatim>\<open>set_path\<close> keeps the old appenders: every event is then logged twice.\<close>

lemma log_event_twice:
  assumes "set_path kafka x path l = (Ret (), l1)" "set_path kafka x path l1 = (Ret (), l2)"
  shows "length (log_event l2 m e) = length (log_event l m e) + 2"
  using assms by (auto simp: set_path_def log_event_def split: if_splits prod.split)

subsection \<open>The stack dump and its buffer\<close>

definition cmd_len :: "(string \<times> string) list \<Rightarrow> nat" where
  "cmd_len fs = length cmd_prefix + sum_list (map (\<lambda>f. Suc (length (snd f))) fs)"

text \<open>While the dump is defined, the pointer and the room left add up to the size.\<close>

lemma room_left:
  assumes "p + unat (s :: 64 word) = cmd_size" "p + n \<le> cmd_size"
  shows "p + n + unat (s - of_nat n) = cmd_size"
proof -
  from assms have "n \<le> unat s" by simp
  moreover from assms(2) have "unat (of_nat n :: 64 word) = n" by (simp add: unat_of_nat cmd_size_def)
  ultimately have "unat (s - of_nat n) = unat s - n"
    by (metis unat_sub word_le_nat_alt)
  with assms show ?thesis by simp
qed

lemma dump_frames_step:
  assumes "p + unat s = cmd_size" "p < cmd_size"
  shows "dump_frames ((info, addr) # fs) cmd p s log =
    (if cmd_size < p + Suc (length addr) then None
     else dump_frames fs (cmd @ take (unat s - 1) ('' '' @ addr)) (p + Suc (length addr)) (s - of_nat (Suc (length addr)))
       (log @ info @ [CHR 0x0A]))"
proof -
  from assms have "0 < s" by (metis add.right_neutral nat_less_le unat_0 word_gt_0)
  then show ?thesis by (simp add: Let_def)
qed

lemma dump_frames_fits:
  assumes "p + unat s = cmd_size" "p + sum_list (map (\<lambda>f. Suc (length (snd f))) fs) < cmd_size"
  shows "dump_frames fs cmd p s log =
    Some (cmd @ concat (map (\<lambda>f. '' '' @ snd f) fs), log @ concat (map (\<lambda>f. fst f @ [CHR 0x0A]) fs))"
  using assms
proof (induction fs arbitrary: cmd p s log)
  case (Cons f fs)
  obtain info addr where f: "f = (info, addr)" by (cases f)
  from Cons.prems have p: "p < cmd_size" "p + Suc (length addr) < cmd_size"
    "p + Suc (length addr) + sum_list (map (\<lambda>f. Suc (length (snd f))) fs) < cmd_size" by (simp_all add: f)
  then have "unat s - 1 \<ge> Suc (length addr)" using Cons.prems(1) by simp
  then have "take (unat s - 1) ('' '' @ addr) = '' '' @ addr" by simp
  with Cons.IH [OF room_left [OF Cons.prems(1), of "Suc (length addr)"] p(3)] p(2) show ?case
    unfolding f dump_frames_step [OF Cons.prems(1) p(1)] by simp
qed simp

lemma dump_frames_overrun:
  assumes "p + unat s = cmd_size" "\<forall>f \<in> set fs. length (snd f) = k" "(cmd_size - p) mod Suc k \<noteq> 0"
    and "cmd_size < p + Suc k * length fs" "p < cmd_size"
  shows "dump_frames fs cmd p s log = None"
  using assms
proof (induction fs arbitrary: cmd p s log)
  case (Cons f fs)
  obtain info addr where f: "f = (info, addr)" by (cases f)
  with Cons.prems(2) have k: "length addr = k" by simp
  show ?case
  proof (cases "cmd_size < p + Suc k")
    case True
    then show ?thesis unfolding f dump_frames_step [OF Cons.prems(1,5)] by (simp add: k)
  next
    case False
    have "p + Suc k \<noteq> cmd_size"
    proof
      assume "p + Suc k = cmd_size"
      then have "cmd_size - p = Suc k" by simp
      with Cons.prems(3) show False by simp
    qed
    with False have p: "p + Suc k < cmd_size" by simp
    have "(cmd_size - p) mod Suc k = (cmd_size - (p + Suc k)) mod Suc k"
      using p by (metis False diff_diff_left le_add_diff_inverse2 le_diff_conv2 less_imp_le mod_add_self2 not_less add.commute Cons.prems(5))
    with Cons.IH [OF room_left [OF Cons.prems(1), of "Suc k"]] Cons.prems p show ?thesis
      unfolding f dump_frames_step [OF Cons.prems(1,5)] by (simp add: k)
  qed
qed simp

lemma length_cmd_prefix: "length cmd_prefix = 59"
  by (simp add: cmd_prefix_def)

lemma cmd_room: "length cmd_prefix + unat (of_nat cmd_size - of_nat (length cmd_prefix) :: 64 word) = cmd_size"
  by (simp add: length_cmd_prefix cmd_size_def)

text \<open>C33: The stack dump is defined while the command it builds has fewer than 512 characters: then it
  runs \<^verbatim>\<open>addr2line\<close> on all the addresses and logs its output after the frames. With addresses printed
  in 14 characters, as 64-bit addresses of a process are, the pointer leaves the buffer from the
  31st frame on, although \<^verbatim>\<open>backtrace\<close> is asked for up to 100 of them.\<close>

theorem dump_stack_bounds:
  assumes "frames x = Some fs" "length fs \<le> 100"
  shows "(cmd_len fs < cmd_size \<longrightarrow> dump_stack x log = Dumped (log @ ''Frame info:'' @ [CHR 0x0A] @
      concat (map (\<lambda>f. fst f @ [CHR 0x0A]) fs) @ ''src info:'' @ [CHR 0x0A] @
      (case popen_lines x (cmd_prefix @ concat (map (\<lambda>f. '' '' @ snd f) fs)) of None \<Rightarrow> [] | Some ls \<Rightarrow> concat ls))) \<and>
    ((\<forall>f \<in> set fs. length (snd f) = 14) \<longrightarrow> dump_stack x log = Overrun \<longleftrightarrow> 31 \<le> length fs)"
proof (intro conjI impI)
  show fits: "dump_stack x log = Dumped (log @ ''Frame info:'' @ [CHR 0x0A] @
      concat (map (\<lambda>f. fst f @ [CHR 0x0A]) fs) @ ''src info:'' @ [CHR 0x0A] @
      (case popen_lines x (cmd_prefix @ concat (map (\<lambda>f. '' '' @ snd f) fs)) of None \<Rightarrow> [] | Some ls \<Rightarrow> concat ls))"
    if "cmd_len fs < cmd_size"
    using dump_frames_fits [OF cmd_room, of fs cmd_prefix] that assms
    by (simp add: dump_stack_def cmd_len_def Let_def split: option.split)
  assume k: "\<forall>f \<in> set fs. length (snd f) = 14"
  show "dump_stack x log = Overrun \<longleftrightarrow> 31 \<le> length fs"
  proof
    assume "31 \<le> length fs"
    then have "cmd_size < length cmd_prefix + Suc 14 * length fs" by (simp add: length_cmd_prefix cmd_size_def)
    with dump_frames_overrun [OF cmd_room k, of cmd_prefix] assms
    show "dump_stack x log = Overrun" by (simp add: dump_stack_def length_cmd_prefix cmd_size_def Let_def)
  next
    from k have "map (\<lambda>f. Suc (length (snd f))) fs = replicate (length fs) 15"
      by (intro nth_equalityI) (auto simp: all_set_conv_all_nth)
    then have "cmd_len fs = 59 + 15 * length fs" by (simp add: cmd_len_def length_cmd_prefix sum_list_replicate)
    moreover assume "dump_stack x log = Overrun"
    ultimately show "31 \<le> length fs" using fits by (cases "31 \<le> length fs") (auto simp: cmd_size_def)
  qed
qed

theorem dump_stack_bounds_witness:
  "dump_stack \<lparr>frames = Some (replicate 31 (''main'', ''0x7f0000001000'')), popen_lines = (\<lambda>_. None)\<rparr> [] = Overrun"
  using dump_stack_bounds [of "\<lparr>frames = Some (replicate 31 (''main'', ''0x7f0000001000'')), popen_lines = (\<lambda>_. None)\<rparr>"
    "replicate 31 (''main'', ''0x7f0000001000'')" "[]"] by simp

end
