(* ===== verification/Spec2Isabelle.thy ===== *)
theory Spec2Isabelle
  imports BPrelude MessageFormat PeerHandleMap FifoContract SessionBase ConfigWrap TaskQueue Wire ConnectServer
    JsonData HttpClient Packets PacketCodec Sessions Responders Connections Relay Registry IoThreads Uncaught Lifecycle
    LoadClient PythonApi PythonCall PythonConv PythonExport PythonModule Support
begin

text \<open>
  bserver: a relay server in C++ (boost.asio). Servers and clients connect to it over TCP; frames
  they send become tasks, a pool of workers serves them by calling http services, mongo or Python,
  and the answers go back as frames.

  \<^bold>\<open>The path of a request.\<close> asio completes a read on a session (\<^verbatim>\<open>session_base\<close>,
  \<^verbatim>\<open>client_session\<close>, \<^verbatim>\<open>server_session\<close>); \<^verbatim>\<open>message_format\<close> decodes the head; the full frame goes
  through \<^verbatim>\<open>logic_deal_processing::after_body_get\<close> into the queue of \<^verbatim>\<open>session_task\<close>; a worker
  in \<^verbatim>\<open>task_base::work\<close> takes it and calls \<^verbatim>\<open>do_work\<close>, whose responser parses the
  \<^verbatim>\<open>ServiceRequest\<close>, runs the inner task and dispatches the answer through the registries
  (\<^verbatim>\<open>peer_handle_map\<close>) to the write queue of a session. Beside it the heart-beat thread and
  the server list watcher keep the outgoing connections, and the exit thread stops everything
  after a signal.

  \<^bold>\<open>Theories and the code they model.\<close>
  \<^item> \<open>BPrelude\<close>: bytes and words, \<^verbatim>\<open>std::map\<close> as a sorted association list, actions that return or
    throw on a state (\<open>('s, 'a) action\<close>), decimal text, the contract of \<^verbatim>\<open>boost::split\<close>.
  \<^item> \<open>MessageFormat\<close> (src/message_format.cpp, include/msg_head.h): the frame, its encoder and decoder.
  \<^item> \<open>PeerHandleMap\<close> (src/peer_handle_map.cpp): the registries of accepted and outgoing sessions.
    A session pointer is \<open>nat option\<close>, the number of the session object or null.
  \<^item> \<open>FifoContract\<close>: the locale of a channel, interpreted by the write queue and the task queue.
  \<^item> \<open>SessionBase\<close> (src/session_base.cpp): the session object and its write queue.
  \<^item> \<open>ConfigWrap\<close> (src/configwrap.cpp): settings, mongo hosts, server list, counters.
  \<^item> \<open>TaskQueue\<close> (src/task_base.cpp, src/session_task.cpp, include/io_service_provide.h): the queue
    and its workers as threads with program counters and the mutex explicit.
  \<^item> \<open>Wire\<close>, \<open>ConnectServer\<close> (proto/connect_server.pb.cc): the generated codec of \<^verbatim>\<open>ServiceRequest\<close>,
    \<^verbatim>\<open>ServiceResponse\<close>, \<^verbatim>\<open>SvRegRequest\<close> and the login and kick messages over a protobuf runtime.
  \<^item> \<open>Packets\<close>, \<open>PacketCodec\<close> (proto/ServicePacket.pb.cc): the inner messages as the responsers see them,
    and their generated codec: a packet with twelve optional messages inside.
  \<^item> \<open>JsonData\<close> (src/json_parser.cpp, src/service_request_json_data.cpp, src/json_push_packet.cpp).
  \<^item> \<open>HttpClient\<close> (httpclient/curl_base.cpp and the text filter of the Python responser).
  \<^item> \<open>Sessions\<close> (src/client_session.cpp, src/server_session.cpp, src/peer_handle_client.cpp,
    src/peer_handle_server.cpp): the handlers over the shared state \<open>world\<close>, as functions, and
    \<open>net_step\<close>, every event of the network core. \<open>recv\<close> and \<open>deliver\<close> are asio's part: bytes arrive
    in segments and complete the pending reads; \<open>frames_in\<close> is the reference decoder of a stream.
  \<^item> \<open>Responders\<close> (src/logic_deal_processing.cpp, src/task_responser.cpp, src/group_responser.cpp,
    httpclient/, embeded_python/): what a worker does with a task.
  \<^item> \<open>PythonApi\<close>, \<open>PythonCall\<close> (embeded_python/python_call_base.h, python_status_ensure.h,
    include/ffpython.h): the call into Python behind the Python responser, over an arbitrary CPython;
    references, interpreter lock and error indicator of the calling thread are explicit.
  \<^item> \<open>PythonConv\<close>, \<open>PythonExport\<close>, \<open>PythonModule\<close> (include/ffpython.h): the conversions between C++
    and Python values of every type but pointers, one definition per specialisation of
    \<^verbatim>\<open>pytype_traits_t\<close>, dispatched by a type code; what an exported function, method, constructor or
    member variable does when Python calls it; registration, the method, property and type tables
    built from it, \<^verbatim>\<open>init\<close>, pointers, and the Python text generated for functions and classes.
  \<^item> \<open>Connections\<close> (src/heart_task_thread.cpp, src/configwrap.cpp): who opens outgoing connections.
  \<^item> \<open>Relay\<close>: a worker's pass over the shared state and every interleaving of passes and handlers.
  \<^item> \<open>Registry\<close>: what the registries mean in every reachable state.
  \<^item> \<open>IoThreads\<close> (include/io_service_provide.h, src/peer_handle_server.cpp): the io services, the threads
    that run them, \<^verbatim>\<open>run\<close>, \<^verbatim>\<open>stop\<close> and \<^verbatim>\<open>join\<close>; one thread per service of the pool.
  \<^item> \<open>Uncaught\<close>: which handlers let an exception out of \<^verbatim>\<open>io_service::run\<close>: only \<^verbatim>\<open>handle_accept\<close>;
    and when the server-list watcher throws.
  \<^item> \<open>Lifecycle\<close> (main.cpp): start, the main thread, the exit thread, the io threads, the workers with the
    caches they set up before they serve, the heart-beat thread and the watcher as one process.
  \<^item> \<open>LoadClient\<close> (include/system_tool.h): the load test client, its request loops and console; its
    frames are shown to be queued by a session that reads them.
  \<^item> \<open>Support\<close> (src/log.cpp, src/peer_base.cpp): log files, the stack dump and its buffer, Base64.

  \<^bold>\<open>Effects and errors.\<close> Mutable state is passed and returned; a C++ exception is the outcome
  \<open>Throws\<close>, undefined behaviour (a read past a vector, a null pointer) is \<open>None\<close> or \<open>Undefined\<close>.
  Every handler and every critical section is one step: the code holds a mutex there, or the
  handler belongs to a session, whose io service a single thread runs (\<open>handlers_exclusive\<close>). Where the
  code has neither (\<^verbatim>\<open>stop_\<close>, the index of \<^verbatim>\<open>get_io_service\<close>) the steps are finer.
  Fields the code leaves uninitialised are arguments. Integers keep their width: frame heads, the
  sizes of messages and the fields of the codecs are words. Undefined behaviour ends a run without a
  step: of the process's ends only \<^verbatim>\<open>exit\<close> and \<^verbatim>\<open>std::terminate\<close> are modelled.

  \<^bold>\<open>Parameters.\<close> asio's resolver and connect, libcurl, jsoncpp, the protobuf runtime, mongo,
  zookeeper (whether its cache lets an exception of the watcher out, what a worker's caches answer or
  throw), Python, the clock and the random generator are arguments (\<open>net_ext\<close>, \<open>task_ext\<close>,
  \<open>curl_lib\<close>, \<open>py_api\<close>, \<open>conv_ext\<close>, \<open>export_ext\<close>, \<open>json_api\<close>, \<open>pb_rt\<close>, \<open>cfg_ext\<close>, \<open>start_ext\<close>,
  \<open>fs_ext\<close>, \<open>stack_ext\<close>). What is assumed of them is named:
  \<open>split_ok\<close> (splitting is inverse to joining), \<open>pb_ok\<close> (reads consume what writes produce),
  \<open>json_ok\<close> (objects of strings are parsed as they were written), \<open>conv_ok\<close> (a float survives its
  widening, a dict is walked once). Each has an instance that is proved to satisfy it (\<open>split_ref\<close>,
  \<open>demo_rt\<close> with varints, \<open>demo_json_api\<close>, \<open>demo_conv\<close>). \<open>python_safe\<close> says that no call into Python
  builds a string from a null pointer; it can fail (\<open>python_request_ends_server\<close>), and the
  safety properties that need it name it.

  \<^bold>\<open>Loops and fuel.\<close> \<open>merge_run\<close> has fuel, the input's length plus one, enough because each turn
  consumes a byte (\<open>pb_reads_ok\<close>, used in \<open>parse_serialize\<close>); \<open>replace_loop\<close> is partial, since the
  code loops for ever on an empty pattern, and its termination for others is proved; \<open>recv\<close> and
  \<open>serve\<close> end by the number of bytes and of tasks; so does \<open>frames_in\<close>.

  \<^bold>\<open>What the lemma groups show.\<close> Round trips of frames, protobuf messages and
  JSON; refinement of the registries to finite maps; the write queue and the task queue refine one
  channel contract and lose, repeat or reorder nothing; no lost wake-up, and the stop sequence
  ends; handlers of one session never overlap; the session invariant under every handler; from
  bytes in to answer frames out, in order, on outgoing connections, and that requests of accepted ones get
  no answer; any byte stream in any segments is read as a reference decoder reads it; errors and
  overload on every path; start and exit, and the three exceptions that end the process;
  calls into Python are balanced, values cross the language border and come back, exported
  functions are found under their names and get the arguments Python gave; a Python request from
  the client's packet to the client's packet. The properties below span components; those of one
  component stand in its theory.

  \<^bold>\<open>Not modelled.\<close> What log4cplus and the boost Base64 iterators do with what
  they are given; of ffpython.h the addresses CPython keeps to its tables,
  \<^verbatim>\<open>wstring\<close> (Windows only) and the conversion of a
  \<^verbatim>\<open>set\<close> from Python (it cannot be instantiated); jsoncpp's headers,
  declarations of third-party code; reflection, \<^verbatim>\<open>Swap\<close> and the array
  variants of the generated codecs; lifetime of session objects under
  \<^verbatim>\<open>shared_ptr\<close>; time, so that time-outs and the sleeps of the heart-beat
  and exit threads are not bounded.
\<close>

subsection \<open>Concrete runs\<close>

definition demo_relay :: world where
  "demo_relay = demo_ready\<lparr>sessions := (\<lambda>i. (sessions demo_ready i)\<lparr>
       read_msg := (read_msg (sessions demo_ready i))\<lparr>mf_remote_id := slot_id ''server:10.0.0.1:80'' 0\<rparr>\<rparr>),
     cpeers := bind_slot (''server:10.0.0.1:80'', 0) 0 client_map_new\<rparr>"

subsection \<open>Properties\<close>

text \<open>C1: End to end on an outgoing connection. A session is registered under its own id in the client map
  and waits for a head, and the queue is empty. Any list of service requests (cmd 200 or 8000) arriving
  on it, no more than the queue limit, each of which its inner responser serves with status 0, is
  answered completely and in order on that connection: once one worker has emptied the queue, the
  write queue has grown by exactly one frame per request, with the request's magic, the next cmd and
  a body the other side parses back to the request's sessid and sn, status 0 and the inner answer. (A
  request on an accepted connection, which is registered in the server map only, is not answered:
  C10.)\<close>

theorem requests_answered_in_order:
  assumes "pb_ok (pb X)" "world_ok w" "ready i w" "tasks w = []" "length fs \<le> mx"
    and "mf_remote_id (read_msg (sessions w i)) \<noteq> []"
    and "fix_get (mf_remote_id (read_msg (sessions w i))) (cpeers w) = Some i"
    and calls: "\<forall>f \<in> set fs. service_call X (config w) f"
    and "recv x i (concat (map (\<lambda>(h, q). frame_bytes h (serialize (pb X) service_request_desc q)) fs)) w = (w1, left)"
  shows "left = [] \<and> (\<exists>w' ms. serve X mx w1 = Some w' \<and> tasks w' = [] \<and>
     write_msgs (sessions w' i) = write_msgs (sessions w i) @ ms \<and> list_all2 (answers X (config w)) fs ms)"
proof -
  let ?fs = "map (call_frame X) fs"
  have len: "\<forall>f \<in> set ?fs. length (snd f) \<le> max_body"
    using calls by (auto simp: service_call_def call_frame_def max_body_def)
  have bytes: "concat (map (\<lambda>(h, q). frame_bytes h (serialize (pb X) service_request_desc q)) fs) =
      concat (map (\<lambda>f. frame_bytes (fst f) (snd f)) ?fs)"
    by (simp add: comp_def call_frame_def case_prod_unfold)
  have cmds: "filter (\<lambda>f. cmd (fst f) \<noteq> 1) ?fs = ?fs"
    using calls by (auto simp: filter_id_conv service_call_def call_frame_def inner_answer_def split: if_splits)
  from recv_frames_all [OF assms(3) len, of x] obtain w2 where w2:
    "recv x i (concat (map (\<lambda>f. frame_bytes (fst f) (snd f)) ?fs)) w = (w2, [])" "same_but_session i w2 w"
    "map task_of (tasks w2) = map (frame_task (mf_remote_id (read_msg (sessions w i)))) ?fs"
    unfolding cmds assms(4) by auto
  with assms(9) have w1: "w1 = w2" "left = []" by (simp_all add: bytes)
  have "world_ok w1" using recv_ok [OF assms(2), of x i] assms(9) by (metis fst_conv)
  with serve_calls [OF assms(1,6), of w1 fs mx i] w1 w2 assms(5,7,8)
  show ?thesis by (simp add: world_ok_def same_but_session_def)
qed

theorem requests_answered_in_order_witness:
  "\<exists>w' m. serve demo_task 4 (fst (recv demo_net 0 (frame_bytes \<lparr>magic = 7, len = 0, cmd = 200\<rparr>
       (serialize demo_rt service_request_desc demo_request)) demo_relay)) = Some w' \<and>
     write_msgs (sessions w' 0) = [m] \<and> answers demo_task (config demo_relay) (\<lparr>magic = 7, len = 0, cmd = 200\<rparr>, demo_request) m"
proof -
  let ?f = "(\<lparr>magic = 7, len = 0, cmd = 200\<rparr>, demo_request)"
  have "length demo_answer = 37" by code_simp
  moreover have "length (serialize demo_rt service_request_desc demo_request) = 13"
    by code_simp
  ultimately have call: "service_call demo_task (config demo_relay) ?f"
    using demo_request_fits demo_parser
    by (simp add: service_call_def demo_request_def inner_answer_def result_new_def demo_task_def)
  have "world_ok demo_relay"
    using world_ok_new [of "configwrap_new 4 0"] by (auto simp: demo_relay_def demo_ready_def world_ok_def)
  moreover have "ready 0 demo_relay"
    using demo_ready_ready by (simp add: ready_def demo_relay_def)
  moreover have "tasks demo_relay = []" "write_msgs (sessions demo_relay 0) = []"
    "mf_remote_id (read_msg (sessions demo_relay 0)) = slot_id ''server:10.0.0.1:80'' 0"
    by (simp_all add: demo_relay_def demo_ready_def world_new_def session_new_def)
  moreover have "fix_get (slot_id ''server:10.0.0.1:80'' 0) (cpeers demo_relay) = Some 0"
    using look_slot_bind [of "(''server:10.0.0.1:80'', 0)" "(''server:10.0.0.1:80'', 0)" 0 client_map_new]
    by (simp add: demo_relay_def look_slot_def)
  moreover have "slot_id ''server:10.0.0.1:80'' 0 \<noteq> []" by (simp add: slot_id_def)
  moreover have "pb_ok (pb demo_task)" by (simp add: demo_task_def pb_ok_demo)
  ultimately show ?thesis
    using requests_answered_in_order [of demo_task demo_relay 0 "[?f]" 4 demo_net, OF _ _ _ _ _ _ _ _ prod.collapse [symmetric]] call
    by (auto simp: list_all2_Cons1 demo_task_def)
qed

text \<open>C30: One request can end the server: a well-formed Python request (cmd 8000, packet type 31) read
  from a connection with an idle queue, for a function that raises an exception whose value is a
  tuple or a list with an item that has no text (the 1-tuple of a \<^verbatim>\<open>KeyError\<close> for a unicode key
  outside ASCII is one), is queued like any other, and the worker that serves it has undefined
  behaviour, whatever session cache it has.\<close>

theorem python_request_ends_server:
  assumes "pb_ok (pb X)" "world_ok w" "ready i w" "tasks w = []" "1 \<le> mx"
    and q: "q = \<lparr>sq_sessid = Some s, sq_service_type = Some 600, sq_sn = Some n, sq_payload = Some pl, sq_unknown = []\<rparr>"
    and fits: "msg_fits service_request_desc q" "length (serialize (pb X) service_request_desc q) \<le> max_body"
    and p: "cmd h = 8000" "parse_packet X pl = (True, p)" "packet_type_of p = 31"
    and py: "python_call X = python_answer A t" "has_function A (hq_module_name (get_python p)) (hq_function_name (get_python p))"
      "\<And>f t i. \<exists>e j. api_call A f t i = (Inr e, j) \<and> unprintable A e"
    and recv: "recv x i (frame_bytes h (serialize (pb X) service_request_desc q)) w = (w1, left)"
  shows "left = [] \<and> length (tasks w1) = 1 \<and> work_once X mx w1 = None"
proof -
  let ?b = "serialize (pb X) service_request_desc q"
  from recv_frames_all [OF assms(3), of "[(h, ?b)]" x] fits(2) p(1) assms(4) recv
  have w1: "left = []" "map task_of (tasks w1) = [frame_task (mf_remote_id (read_msg (sessions w i))) (h, ?b)]"
    by auto
  then obtain m where m: "tasks w1 = [m]" "task_of m = frame_task (mf_remote_id (read_msg (sessions w i))) (h, ?b)"
    by (auto simp: Cons_eq_map_conv)
  have "world_ok w1" using recv_ok [OF assms(2), of x i] recv by (metis fst_conv)
  with m have "body_fits m" by (simp add: world_ok_def)
  moreover have "python_call X (python_root (config w1)) (hq_module_name (get_python p)) (hq_function_name (get_python p))
      (hq_json_request (get_python p)) = Py_Crash"
    unfolding py(1) by (rule python_answer_unprintable [OF py(2,3)])
  from do_work_python_crash [OF assms(1) q fits(1) _ p(2,3)] this
  have "do_work X cid h' ?b (w1\<lparr>tasks := []\<rparr>) = None" if "cmd h' = 8000" for cid h'
    using that by simp
  ultimately show ?thesis
    using work_once_front [of w1 m "[]" X mx] m w1(1) p(1) assms(5) by (simp add: frame_task_def)
qed

text \<open>A dict lookup that fails for a unicode key.\<close>

definition crash_api :: "unit py_api" where
  "crash_api = demo_api\<lparr>api_view := (\<lambda>p i. if p = 9 then Py_Tuple [10] else if p = 10 then Py_Unicode None else Py_Object),
     api_call := (\<lambda>f t i. (Inr \<lparr>err_type = Some 5, err_value = Some 9, err_tb = Some 6\<rparr>, i)),
     api_str := (\<lambda>p i. (Inr err_none, i))\<rparr>"

definition crash_request :: service_request where
  "crash_request = demo_request\<lparr>sq_payload := Some [8, 31]\<rparr>"

definition crash_task :: "demo_json task_ext" where
  "crash_task = demo_python\<lparr>python_call := python_answer crash_api demo_thread\<rparr>"

lemma crash_api_raises:
  "has_function crash_api md fn" "\<exists>e j. api_call crash_api f t i = (Inr e, j) \<and> unprintable crash_api e"
  by (auto simp: crash_api_def demo_api_def has_function_def unprintable_def item_no_text_def no_text_def)

theorem python_request_ends_server_witness:
  "work_once crash_task 4 (fst (recv demo_net 0 (frame_bytes \<lparr>magic = 7, len = 0, cmd = 8000\<rparr>
     (serialize demo_rt service_request_desc crash_request)) demo_ready)) = None"
proof -
  have "world_ok demo_ready"
    using world_ok_new [of "configwrap_new 4 0"] by (auto simp: demo_ready_def world_ok_def)
  moreover have "tasks demo_ready = []" by (simp add: demo_ready_def world_new_def)
  moreover have "pb crash_task = demo_rt" "pb_ok demo_rt" "parse_packet crash_task [8, 31] = (True, packet_new\<lparr>p_type := Some 31\<rparr>)"
    "python_call crash_task = python_answer crash_api demo_thread" "packet_type_of (packet_new\<lparr>p_type := Some 31\<rparr>) = 31"
    by (simp_all add: crash_task_def demo_python_def demo_task_def pb_ok_demo packet_type_of_def parse_packet_def demo_types)
  moreover have "length (serialize demo_rt service_request_desc crash_request) = 13"
    by code_simp
  then have "length (serialize demo_rt service_request_desc crash_request) \<le> max_body"
    by (simp add: max_body_def)
  moreover have "msg_fits service_request_desc crash_request"
    by (simp add: msg_fits_def service_request_desc_def crash_request_def demo_request_def)
  ultimately show ?thesis
    using python_request_ends_server [of crash_task demo_ready 0 4 crash_request "[115]" "[110]" "[8, 31]"
        "\<lparr>magic = 7, len = 0, cmd = 8000\<rparr>" "packet_new\<lparr>p_type := Some 31\<rparr>" crash_api demo_thread demo_net,
        OF _ _ _ _ _ _ _ _ _ _ _ _ crash_api_raises prod.collapse [symmetric]] demo_ready_ready
    by (simp add: crash_request_def demo_request_def)
qed

text \<open>What the client of a Python request reads: status 1 and the text the function returned, or status 0
  and the error as JSON, without its line ends.\<close>

definition python_reply :: "py_result \<Rightarrow> (int32 \<times> string) option" where
  "python_reply a = (case a of
      Py_Returns js \<Rightarrow> Some (1, js)
    | Py_Exception e \<Rightarrow> Some (0, python_error_json (subst_char (CHR 0x0A) [] (subst_char (CHR 0x0D) [] e)))
    | _ \<Rightarrow> None)"

definition reply_packet :: "string \<Rightarrow> int32 \<times> string \<Rightarrow> service_packet" where
  "reply_packet c a = packet_new\<lparr>p_type := Some 32,
     python_resp := Some \<lparr>hs_cid = Some c, hs_json_response = Some (snd a), hs_status = Some (fst a)\<rparr>\<rparr>"

lemma python_parser_replies:
  assumes "parse_packet X pl = (True, p)" "packet_type_of p = 31"
    and "python_reply (python_call X (python_root c) (hq_module_name (get_python p)) (hq_function_name (get_python p))
      (hq_json_request (get_python p))) = Some a"
  shows "python_parser X c pl = Done (result_new, packet_bytes X (reply_packet (hq_cid (get_python p)) a))"
  using assms
  by (auto simp: python_parser_def python_reply_def reply_packet_def replace_all_char Let_def split: py_result.splits)

text \<open>C11: A Python request from the client's packet to the client's packet: a packet of type 31 that
  any client serialized with the generated codec, sent in a \<^verbatim>\<open>ServiceRequest\<close> with cmd 8000, is read
  back by the server as it was written; the function it names is called with its argument, and, if
  it returns or raises an exception with a text, one frame with cmd 8001 is written to the outgoing
  connection registered under the request's id, whose \<^verbatim>\<open>ServiceResponse\<close> and the packet of type
  32 in it the client parses back to the request's cid, and the function's result or its error. If no
  outgoing connection has that id, as for a client that was accepted, nothing is written.\<close>

theorem python_request_served:
  assumes "packet_fits (pb X) req" "p_type req = Some 31" "python_req req = Some r"
    and q: "q = \<lparr>sq_sessid = Some s, sq_service_type = Some 600, sq_sn = Some n,
      sq_payload = Some (bytes_of_packet (pb X) req), sq_unknown = []\<rparr>"
    and "msg_fits service_request_desc q" "cmd h = 8000"
    and "python_reply (python_call X (python_root (config w)) (hq_module_name r) (hq_function_name r) (hq_json_request r)) = Some a"
    and "packet_fits (pb X) (reply_packet (hq_cid r) a)" "length (bytes_of_packet (pb X) (reply_packet (hq_cid r) a)) < 2 ^ 31"
    and link: "link = (if cid = [] then None else fix_get cid (cpeers w))"
  shows "\<exists>body sp. do_work X cid h (serialize (pb X) service_request_desc q) w = Some (case link of None \<Rightarrow> w
       | Some i \<Rightarrow> count_send (world_write i (make_frame (h\<lparr>cmd := 8001\<rparr>) body (message_format_new (task_uninit X 0))) w)) \<and>
     parse_from (pb X) service_response_desc body = (True, sp) \<and>
     sp_sessid sp = Some s \<and> sp_sn sp = Some n \<and> sp_status sp = Some 0 \<and>
     packet_of_bytes (pb X) (opt_bytes (sp_payload sp)) = (True, reply_packet (hq_cid r) a)"
proof -
  let ?out = "bytes_of_packet (pb X) (reply_packet (hq_cid r) a)"
  let ?sp = "\<lparr>sp_sessid = Some s, sp_service_type = Some 600, sp_sn = Some n, sp_status = Some 0, sp_payload = Some ?out, sp_unknown = []\<rparr>"
  have R: "pb_ok (pb X)" using assms(1) by (simp add: packet_fits_def good_packet_def)
  have "parse_packet X (bytes_of_packet (pb X) req) = (True, req)"
    using packet_read_back [OF assms(1)] assms(2) by (simp add: parse_packet_def)
  moreover have "packet_type_of req = 31" "get_python req = r"
    using assms(2,3) by (simp_all add: packet_type_of_def get_python_def)
  ultimately have task: "python_parser X (config w) (bytes_of_packet (pb X) req) = Done (result_new, ?out)"
    using python_parser_replies [of X "bytes_of_packet (pb X) req" req "config w" a] assms(7)
    by (simp add: packet_bytes_def)
  have "do_work X cid h (serialize (pb X) service_request_desc q) w =
      Some (case link of None \<Rightarrow> w | Some i \<Rightarrow> count_send (world_write i (make_frame (h\<lparr>cmd := 8001\<rparr>)
        (response_body X s n result_new ?out) (message_format_new (task_uninit X 0))) w))"
    using do_work_relayed [OF R q assms(5), of h cid w] task assms(6)
    by (simp add: link answer_defs split: option.split)
  moreover have "length s < 2 ^ 31" "length n < 2 ^ 31"
    using assms(5) by (auto simp: q msg_fits_def service_request_desc_def)
  then have "parse_from (pb X) service_response_desc (response_body X s n result_new ?out) = (True, ?sp)"
    by (intro response_body_parses [OF R _ _ assms(9)]) (simp_all add: result_new_def)
  moreover have "packet_of_bytes (pb X) ?out = (True, reply_packet (hq_cid r) a)"
    using packet_read_back [OF assms(8)] by (simp add: reply_packet_def)
  ultimately show ?thesis
    by (intro exI [of _ "response_body X s n result_new ?out"] exI [of _ ?sp]) (simp add: opt_bytes_def)
qed

definition served_packet :: service_packet where
  "served_packet = packet_new\<lparr>p_type := Some 31,
     python_req := Some \<lparr>hq_cid = ''c'', hq_json_request = ''{}'', hq_module_name = ''m'', hq_function_name = ''f''\<rparr>\<rparr>"

definition served_request :: service_request where
  "served_request = demo_request\<lparr>sq_payload := Some (bytes_of_packet demo_rt served_packet)\<rparr>"

definition served_task :: "demo_json task_ext" where
  "served_task = demo_task\<lparr>python_call := (\<lambda>path md fn arg. Py_Returns arg)\<rparr>"

lemma served_packet_fits: "packet_fits demo_rt served_packet"
proof -
  let ?s = "build_python_core_request \<lparr>hq_cid = ''c'', hq_json_request = ''{}'', hq_module_name = ''m'', hq_function_name = ''f''\<rparr>"
  have good: "good_msg python_core_request_desc (Some ?s)"
    by (simp add: good_msg_def msg_fits_def python_core_request_desc_def build_python_core_request_def)
  moreover have "length (serialize demo_rt python_core_request_desc ?s) = 13" by code_simp
  then have "val_fits (V_Msg (byte_size demo_rt python_core_request_desc ?s) (serialize demo_rt python_core_request_desc ?s))"
    by (subst hq.sub_fits [OF pb_ok_demo good]) simp
  ultimately show ?thesis
    by (simp add: packet_fits_def good_packet_def pb_ok_demo good_msg_def msg_fits_def service_packet_desc_def
        served_packet_def packet_new_def packet_build_def)
qed

theorem python_request_served_witness:
  "\<exists>body. do_work served_task (slot_id ''server:10.0.0.1:80'' 0) \<lparr>magic = 7, len = 0, cmd = 8000\<rparr>
        (serialize demo_rt service_request_desc served_request) demo_served =
       Some (count_send (world_write 3 (make_frame \<lparr>magic = 7, len = 0, cmd = 8001\<rparr> body (message_format_new zero_head)) demo_served)) \<and>
     packet_of_bytes demo_rt (opt_bytes (sp_payload (snd (parse_from demo_rt service_response_desc body)))) = (True, demo_packet)"
proof -
  let ?r = "\<lparr>hq_cid = ''c'', hq_json_request = ''{}'', hq_module_name = ''m'', hq_function_name = ''f''\<rparr>"
  let ?h = "\<lparr>magic = 7, len = 0, cmd = 8000\<rparr>"
  have n: "length (bytes_of_packet demo_rt served_packet) = 17" "length (bytes_of_packet demo_rt demo_packet) = 13"
    by code_simp+
  have t: "pb served_task = demo_rt" "task_uninit served_task 0 = zero_head"
    and py: "python_call served_task (python_root c) md fn arg = Py_Returns arg" for c md fn arg
    by (simp_all add: served_task_def demo_task_def)
  have r: "reply_packet ''c'' (1, ''{}'') = demo_packet" by (simp add: reply_packet_def demo_packet_def)
  have q: "served_request = \<lparr>sq_sessid = Some [115], sq_service_type = Some 600, sq_sn = Some [110],
      sq_payload = Some (bytes_of_packet (pb served_task) served_packet), sq_unknown = []\<rparr>"
    by (simp add: served_request_def demo_request_def t)
  have "\<exists>body sp. do_work served_task (slot_id ''server:10.0.0.1:80'' 0) ?h
         (serialize (pb served_task) service_request_desc served_request) demo_served =
       Some (case Some 3 of None \<Rightarrow> demo_served
         | Some i \<Rightarrow> count_send (world_write i (make_frame (?h\<lparr>cmd := 8001\<rparr>) body (message_format_new (task_uninit served_task 0))) demo_served)) \<and>
     parse_from (pb served_task) service_response_desc body = (True, sp) \<and>
     sp_sessid sp = Some [115] \<and> sp_sn sp = Some [110] \<and> sp_status sp = Some 0 \<and>
     packet_of_bytes (pb served_task) (opt_bytes (sp_payload sp)) = (True, reply_packet (hq_cid ?r) (1, ''{}''))"
  proof (rule python_request_served [OF _ _ _ q])
    show "msg_fits service_request_desc served_request"
      by (simp add: msg_fits_def service_request_desc_def served_request_def demo_request_def n(1))
    show "Some 3 = (if slot_id ''server:10.0.0.1:80'' 0 = [] then None else fix_get (slot_id ''server:10.0.0.1:80'' 0) (cpeers demo_served))"
      by (simp add: demo_served_get)
    show "packet_fits (pb served_task) served_packet" by (simp add: t served_packet_fits)
    show "python_req served_packet = Some ?r" "p_type served_packet = Some 31" by (simp_all add: served_packet_def)
  qed (simp_all add: t r py demo_packet_fits n(2) python_reply_def)
  then show ?thesis by (auto simp: t r)
qed



text \<open>C2: Type safety of the running server. In every state reachable by any interleaving of the
  network handlers and the workers, every session is well formed and every queued task lies in
  its buffer; and the next pass of a worker that has its session cache and whose calls into Python
  are all defined is defined, whatever bytes peers sent. (C30 is a call that is not.)\<close>

theorem server_type_safe:
  assumes "(relay_step x X mx)\<^sup>*\<^sup>* (world_new c) w"
  shows "(\<forall>i. session_ok (sessions w i)) \<and> list_all body_fits (tasks w) \<and>
     (sess_cache X \<noteq> None \<and> python_safe X \<longrightarrow> (\<exists>w'. work_once X mx w = Some w'))"
  using relay_reach_ok [OF assms] work_once_ok(1) [of w X mx] by (cases "work_once X mx w") (auto simp: world_ok_def)

theorem server_type_safe_witness:
  "\<exists>w'. work_once demo_task 4 (world_new (configwrap_new 4 0)) = Some w'"
  using server_type_safe [of demo_net demo_task 4 "configwrap_new 4 0" "world_new (configwrap_new 4 0)"]
  by (simp add: demo_task_safe) (simp add: demo_task_def)

end
